(* ===== verification/Rail_Prelude.thy ===== *)
theory Rail_Prelude
  imports Complex_Main "HOL-Library.AList" "HOL-Library.List_Lexorder" "HOL-Library.Char_ord"
begin

text \<open>
  The vocabulary every component shares.

  \<^item> Rust's \<open>Result<T, E>\<close> is \<open>'e + 'a\<close> with \<open>Inl\<close> for \<open>Err\<close>; the \<open>?\<close> operator is
    \<open>res_bind\<close> and a \<open>for\<close> loop whose body may return early with an error is \<open>res_fold\<close>.
  \<^item> \<open>u64\<close> and \<open>usize\<close> values are natural numbers; \<open>checked_add\<close>, \<open>saturating_add\<close> and the
    wrapping \<open>+\<close> of a release build are written out (\<open>usize\<close> is 64 bits wide).
  \<^item> A \<open>String\<close> is the list of its UTF-8 bytes, so \<open>len()\<close> is \<open>length\<close>, \<open>bytes()\<close> is the list
    itself, \<open>chars().count()\<close> is \<open>chars_count\<close> and the derived order is the lexicographic
    order of the bytes.
  \<^item> \<open>HashMap\<close> and \<open>BTreeMap\<close> are association lists with distinct keys, a \<open>BTreeMap\<close> being
    sorted by key; both satisfy the interface \<open>keyed_map\<close>.
\<close>

named_theorems rail_simps \<open>equations that evaluate the model's shared operations\<close>

subsection \<open>Results\<close>

definition res_bind :: "'e + 'a \<Rightarrow> ('a \<Rightarrow> 'e + 'b) \<Rightarrow> 'e + 'b" where
  "res_bind m f = (case m of Inl e \<Rightarrow> Inl e | Inr x \<Rightarrow> f x)"

definition res_map_err :: "('e \<Rightarrow> 'f) \<Rightarrow> 'e + 'a \<Rightarrow> 'f + 'a" where
  "res_map_err f m = (case m of Inl e \<Rightarrow> Inl (f e) | Inr x \<Rightarrow> Inr x)"

definition ok_or :: "'a option \<Rightarrow> 'e \<Rightarrow> 'e + 'a" where
  "ok_or m e = (case m of None \<Rightarrow> Inl e | Some x \<Rightarrow> Inr x)"

definition is_ok :: "'e + 'a \<Rightarrow> bool" where
  "is_ok m = (case m of Inl e \<Rightarrow> False | Inr x \<Rightarrow> True)"

primrec res_fold :: "('s \<Rightarrow> 'a \<Rightarrow> 'e + 's) \<Rightarrow> 's \<Rightarrow> 'a list \<Rightarrow> 'e + 's" where
  "res_fold f s [] = Inr s"
| "res_fold f s (x # xs) = res_bind (f s x) (\<lambda>s'. res_fold f s' xs)"

subsection \<open>Fixed-width arithmetic\<close>

definition U64_MAX :: nat where
  "U64_MAX = 2 ^ 64 - 1"

definition checked_add_u64 :: "nat \<Rightarrow> nat \<Rightarrow> nat option" where
  "checked_add_u64 a b = (if a + b \<le> U64_MAX then Some (a + b) else None)"

definition saturating_add_u64 :: "nat \<Rightarrow> nat \<Rightarrow> nat" where
  "saturating_add_u64 a b = min (a + b) U64_MAX"

definition wrapping_add_u64 :: "nat \<Rightarrow> nat \<Rightarrow> nat" where
  "wrapping_add_u64 a b = (a + b) mod 2 ^ 64"

definition wrapping_sub_u64 :: "nat \<Rightarrow> nat \<Rightarrow> nat" where
  "wrapping_sub_u64 a b = (if b \<le> a then a - b else 2 ^ 64 - (b - a))"

definition usize_try_from :: "nat \<Rightarrow> nat option" where
  "usize_try_from n = (if n \<le> U64_MAX then Some n else None)"

subsection \<open>Bytes and strings\<close>

abbreviation byte_of :: "char \<Rightarrow> nat" where
  "byte_of c \<equiv> of_char c"

definition is_ascii_digit :: "char \<Rightarrow> bool" where
  "is_ascii_digit c \<longleftrightarrow> 48 \<le> byte_of c \<and> byte_of c \<le> 57"

definition is_ascii_lowercase :: "char \<Rightarrow> bool" where
  "is_ascii_lowercase c \<longleftrightarrow> 97 \<le> byte_of c \<and> byte_of c \<le> 122"

definition is_ascii_uppercase :: "char \<Rightarrow> bool" where
  "is_ascii_uppercase c \<longleftrightarrow> 65 \<le> byte_of c \<and> byte_of c \<le> 90"

definition is_ascii_alphanumeric :: "char \<Rightarrow> bool" where
  "is_ascii_alphanumeric c \<longleftrightarrow> is_ascii_digit c \<or> is_ascii_lowercase c \<or> is_ascii_uppercase c"

definition is_ascii_graphic :: "char \<Rightarrow> bool" where
  "is_ascii_graphic c \<longleftrightarrow> 33 \<le> byte_of c \<and> byte_of c \<le> 126"

definition is_ascii_whitespace :: "char \<Rightarrow> bool" where
  "is_ascii_whitespace c \<longleftrightarrow> byte_of c = 32 \<or> byte_of c = 9 \<or> byte_of c = 10 \<or> byte_of c = 12 \<or> byte_of c = 13"

definition is_ascii_control :: "char \<Rightarrow> bool" where
  "is_ascii_control c \<longleftrightarrow> byte_of c \<le> 31 \<or> byte_of c = 127"

text \<open>
  The code points with Unicode's White_Space property, as UTF-8: one byte, the two bytes of
  U+0085 and U+00A0, and the three bytes of the rest. \<open>str::trim\<close> removes exactly these, so
  \<open>s.trim().is_empty()\<close> holds when the whole string is a sequence of them.
\<close>

definition ws1 :: "nat \<Rightarrow> bool" where
  "ws1 b \<longleftrightarrow> (9 \<le> b \<and> b \<le> 13) \<or> b = 32"

definition ws2 :: "nat \<Rightarrow> nat \<Rightarrow> bool" where
  "ws2 b c \<longleftrightarrow> b = 194 \<and> (c = 133 \<or> c = 160)"

definition ws3 :: "nat \<Rightarrow> nat \<Rightarrow> nat \<Rightarrow> bool" where
  "ws3 b c d \<longleftrightarrow>
     b = 225 \<and> c = 154 \<and> d = 128 \<or>
     b = 226 \<and> c = 128 \<and> (128 \<le> d \<and> d \<le> 138 \<or> d = 168 \<or> d = 169 \<or> d = 175) \<or>
     b = 226 \<and> c = 129 \<and> d = 159 \<or>
     b = 227 \<and> c = 128 \<and> d = 128"

fun ws_bytes :: "nat list \<Rightarrow> bool" where
  "ws_bytes [] = True"
| "ws_bytes [b] = ws1 b"
| "ws_bytes [b, c] = (if ws1 b then ws_bytes [c] else ws2 b c)"
| "ws_bytes (b # c # d # bs) =
     (if ws1 b then ws_bytes (c # d # bs)
      else if ws2 b c then ws_bytes (d # bs)
      else ws3 b c d \<and> ws_bytes bs)"

definition trim_is_empty :: "string \<Rightarrow> bool" where
  "trim_is_empty s = ws_bytes (map byte_of s)"

definition chars_count :: "string \<Rightarrow> nat" where
  "chars_count s = length (filter (\<lambda>c. \<not> (128 \<le> byte_of c \<and> byte_of c < 192)) s)"

definition split_once :: "char \<Rightarrow> string \<Rightarrow> (string \<times> string) option" where
  "split_once c s =
     (case dropWhile (\<lambda>x. x \<noteq> c) s of
        [] \<Rightarrow> None
      | _ # rest \<Rightarrow> Some (takeWhile (\<lambda>x. x \<noteq> c) s, rest))"

subsection \<open>Maps and sets\<close>

text \<open>
  \<open>hm_insert\<close> and \<open>hm_remove\<close> model \<open>HashMap\<close>, whose iteration order no component observes;
  \<open>bt_insert\<close> keeps a \<open>BTreeMap\<close> in key order, which its iteration follows. Lookup is
  \<open>map_of\<close> for both.
\<close>

abbreviation hm_insert :: "'k \<Rightarrow> 'v \<Rightarrow> ('k \<times> 'v) list \<Rightarrow> ('k \<times> 'v) list" where
  "hm_insert \<equiv> AList.update"

abbreviation hm_remove :: "'k \<Rightarrow> ('k \<times> 'v) list \<Rightarrow> ('k \<times> 'v) list" where
  "hm_remove \<equiv> AList.delete"

fun bt_insert :: "'k::linorder \<Rightarrow> 'v \<Rightarrow> ('k \<times> 'v) list \<Rightarrow> ('k \<times> 'v) list" where
  "bt_insert k v [] = [(k, v)]"
| "bt_insert k v ((k', v') # m) =
     (if k < k' then (k, v) # (k', v') # m
      else if k = k' then (k, v) # m
      else (k', v') # bt_insert k v m)"

fun bs_insert :: "'k::linorder \<Rightarrow> 'k list \<Rightarrow> 'k list" where
  "bs_insert k [] = [k]"
| "bs_insert k (k' # m) =
     (if k < k' then k # k' # m else if k = k' then k' # m else k' # bs_insert k m)"

definition hm_wf :: "('k \<times> 'v) list \<Rightarrow> bool" where
  "hm_wf m \<longleftrightarrow> distinct (map fst m)"

definition bt_wf :: "('k::linorder \<times> 'v) list \<Rightarrow> bool" where
  "bt_wf m \<longleftrightarrow> sorted_wrt (<) (map fst m)"

subsection \<open>Lemmas on results\<close>

lemma res_bind_simps [simp, rail_simps]:
  "res_bind (Inl e) f = Inl e"
  "res_bind (Inr x) f = f x"
  by (simp_all add: res_bind_def)

lemma res_bind_eq_Inr: "res_bind m f = Inr y \<longleftrightarrow> (\<exists>x. m = Inr x \<and> f x = Inr y)"
  by (cases m) auto

lemma res_bind_eq_Inl: "res_bind m f = Inl e \<longleftrightarrow> m = Inl e \<or> (\<exists>x. m = Inr x \<and> f x = Inl e)"
  by (cases m) auto

lemma res_bind_cong [fundef_cong]:
  "m = m' \<Longrightarrow> (\<And>x. m' = Inr x \<Longrightarrow> f x = f' x) \<Longrightarrow> res_bind m f = res_bind m' f'"
  by (cases m') auto

lemma res_map_err_simps [simp, rail_simps]:
  "res_map_err f (Inl e) = Inl (f e)"
  "res_map_err f (Inr x) = Inr x"
  by (simp_all add: res_map_err_def)

lemma ok_or_simps [simp, rail_simps]:
  "ok_or None e = Inl e"
  "ok_or (Some x) e = Inr x"
  by (simp_all add: ok_or_def)

lemma ok_or_eq_Inr: "ok_or m e = Inr x \<longleftrightarrow> m = Some x"
  by (cases m) auto

lemma is_ok_simps [simp, rail_simps]: "\<not> is_ok (Inl e)" "is_ok (Inr x)"
  by (simp_all add: is_ok_def)

lemma is_ok_iff: "is_ok m \<longleftrightarrow> (\<exists>x. m = Inr x)"
  by (cases m) auto

lemma res_fold_append:
  "res_fold f s (xs @ ys) = res_bind (res_fold f s xs) (\<lambda>s'. res_fold f s' ys)"
  by (induction xs arbitrary: s) (auto simp: res_bind_def split: sum.splits)

lemma res_fold_snoc_Inr:
  "res_fold f s (xs @ [x]) = Inr t \<longleftrightarrow> (\<exists>s'. res_fold f s xs = Inr s' \<and> f s' x = Inr t)"
  by (simp add: res_fold_append res_bind_eq_Inr)

lemma res_fold_invariant:
  assumes "res_fold f s xs = Inr t" and "I s"
    and "\<And>s x s'. x \<in> set xs \<Longrightarrow> I s \<Longrightarrow> f s x = Inr s' \<Longrightarrow> I s'"
  shows "I t"
  using assms by (induction xs arbitrary: s) (auto simp: res_bind_eq_Inr)

subsection \<open>Lemmas on arithmetic and strings\<close>

lemma checked_add_u64_eq_Some:
  "checked_add_u64 a b = Some c \<longleftrightarrow> c = a + b \<and> a + b \<le> U64_MAX"
  by (auto simp: checked_add_u64_def)

lemma wrapping_add_u64_small: "a + b \<le> U64_MAX \<Longrightarrow> wrapping_add_u64 a b = a + b"
  by (simp add: wrapping_add_u64_def U64_MAX_def)

lemma wrapping_sub_u64_le [simp]: "b \<le> a \<Longrightarrow> wrapping_sub_u64 a b = a - b"
  by (simp add: wrapping_sub_u64_def)

lemma usize_try_from_eq_Some: "usize_try_from n = Some m \<longleftrightarrow> m = n \<and> n \<le> U64_MAX"
  by (auto simp: usize_try_from_def)

lemma takeWhile_neq_append: "c \<notin> set a \<Longrightarrow> takeWhile (\<lambda>x. x \<noteq> c) (a @ c # b) = a"
  by (induction a) auto

lemma dropWhile_neq_append: "c \<notin> set a \<Longrightarrow> dropWhile (\<lambda>x. x \<noteq> c) (a @ c # b) = c # b"
  by (induction a) auto

lemma split_once_Some:
  "split_once c s = Some (a, b) \<longleftrightarrow> s = a @ c # b \<and> c \<notin> set a"
proof
  assume "split_once c s = Some (a, b)"
  then obtain y where d: "dropWhile (\<lambda>x. x \<noteq> c) s = y # b" and a: "a = takeWhile (\<lambda>x. x \<noteq> c) s"
    by (auto simp: split_once_def split: list.splits)
  from d have "y = c" by (metis (mono_tags) dropWhile_eq_Cons_conv)
  with d a show "s = a @ c # b \<and> c \<notin> set a"
    by (metis (mono_tags, lifting) set_takeWhileD takeWhile_dropWhile_id)
next
  assume "s = a @ c # b \<and> c \<notin> set a"
  then show "split_once c s = Some (a, b)"
    by (simp add: split_once_def takeWhile_neq_append dropWhile_neq_append)
qed

lemma dropWhile_neq_Nil: "dropWhile (\<lambda>x. x \<noteq> c) s = [] \<longleftrightarrow> c \<notin> set s"
  by (induction s) auto

lemma split_once_None: "split_once c s = None \<longleftrightarrow> c \<notin> set s"
proof (cases "split_once c s")
  case None
  then have "c \<notin> set s" by (metis option.distinct(1) split_list_first split_once_Some)
  with None show ?thesis by simp
next
  case (Some ab)
  then show ?thesis by (cases ab) (auto simp: split_once_Some)
qed

lemma find_SomeD: "find P xs = Some x \<Longrightarrow> x \<in> set xs \<and> P x"
  by (induction xs) (auto split: if_splits)

lemma find_cong_set: "(\<And>x. x \<in> set xs \<Longrightarrow> P x = Q x) \<Longrightarrow> find P xs = find Q xs"
  by (induction xs) auto

subsection \<open>The interface of a keyed map\<close>

text \<open>
  What every component relies on of \<open>HashMap\<close> and \<open>BTreeMap\<close>: a lookup after an insertion or
  a removal, and that both keep the representation well formed.
\<close>

locale keyed_map =
  fixes lookup_key :: "'m \<Rightarrow> 'k \<Rightarrow> 'v option"
    and insert_key :: "'k \<Rightarrow> 'v \<Rightarrow> 'm \<Rightarrow> 'm"
    and remove_key :: "'k \<Rightarrow> 'm \<Rightarrow> 'm"
    and wf_map :: "'m \<Rightarrow> bool"
  assumes lookup_insert: "lookup_key (insert_key k v m) = (lookup_key m)(k \<mapsto> v)"
    and lookup_remove: "lookup_key (remove_key k m) = (lookup_key m)(k := None)"
    and wf_insert: "wf_map m \<Longrightarrow> wf_map (insert_key k v m)"
    and wf_remove: "wf_map m \<Longrightarrow> wf_map (remove_key k m)"
begin

lemma remove_insert_fresh:
  "lookup_key m k = None \<Longrightarrow> lookup_key (remove_key k (insert_key k v m)) = lookup_key m"
  by (simp add: lookup_insert lookup_remove fun_upd_idem)

lemma dom_insert_remove:
  "dom (lookup_key (insert_key k v m)) = insert k (dom (lookup_key m))"
  "dom (lookup_key (remove_key k m)) = dom (lookup_key m) - {k}"
  by (auto simp: lookup_insert lookup_remove)

end

lemma map_of_bt_insert [simp]: "map_of (bt_insert k v m) = (map_of m)(k \<mapsto> v)"
  by (induction m rule: bt_insert.induct) (auto simp: fun_eq_iff)

lemma fst_set_bt_insert [simp]: "fst ` set (bt_insert k v m) = insert k (fst ` set m)"
  by (induction m rule: bt_insert.induct) auto

lemma bt_wf_insert: "bt_wf m \<Longrightarrow> bt_wf (bt_insert k v m)"
  by (induction m rule: bt_insert.induct) (auto simp: bt_wf_def)

lemma bt_wf_remove: "bt_wf m \<Longrightarrow> bt_wf (hm_remove k m)"
  by (induction m) (auto simp: bt_wf_def AList.delete_eq)

lemma bt_wf_distinct: "bt_wf m \<Longrightarrow> distinct (map fst m)"
  unfolding bt_wf_def by (simp add: strict_sorted_iff)

lemma hm_wf_update [simp]: "hm_wf m \<Longrightarrow> hm_wf (hm_insert k v m)"
  by (simp add: hm_wf_def distinct_update)

lemma hm_wf_delete [simp]: "hm_wf m \<Longrightarrow> hm_wf (hm_remove k m)"
  by (simp add: hm_wf_def distinct_delete)

lemma map_of_update_fun: "map_of (hm_insert k v m) = (map_of m)(k \<mapsto> v)"
  by (simp add: update_conv')

lemma map_of_delete_fun: "map_of (hm_remove k m) = (map_of m)(k := None)"
  by (simp add: delete_conv')

lemma set_bs_insert [simp]: "set (bs_insert k xs) = insert k (set xs)"
  by (induction xs rule: bs_insert.induct) auto

lemma sorted_bs_insert: "sorted_wrt (<) xs \<Longrightarrow> sorted_wrt (<) (bs_insert k xs)"
  by (induction xs rule: bs_insert.induct) auto

interpretation hash_map: keyed_map map_of hm_insert hm_remove hm_wf
  by unfold_locales (simp_all add: map_of_update_fun map_of_delete_fun)

interpretation btree_map: keyed_map map_of bt_insert hm_remove bt_wf
  by unfold_locales (simp_all add: map_of_delete_fun bt_wf_insert bt_wf_remove)

lemmas map_laws = map_of_update_fun map_of_delete_fun map_of_bt_insert

end
