(* ===== verification/Wire_Scalars.thy ===== *)
theory Wire_Scalars
  imports Rail_Prelude
begin

text \<open>
  The scalar layer of \<open>crates/protocol/src\<close>: cross-language safe integers
  (\<open>wire_integer.rs\<close>), one-based event sequences (\<open>event.rs\<close>), request ids and timeouts
  (\<open>rpc.rs\<close>), JSON values and double-precision numbers.

  A \<open>Uuid\<close> is a natural number (its 128 bits), the nil UUID being 0; ids drawn by
  \<open>Uuid::new_v4\<close> are arguments of the operations that draw them. An \<open>f64\<close> is a rational
  number, an infinity or NaN, compared as IEEE 754 does, so NaN differs from itself. The two
  zeros, which \<open>==\<close> does not separate, are one value.
\<close>

type_synonym uuid = nat
type_synonym session_id = uuid
type_synonym event_id = uuid
type_synonym media_stream_id = uuid
type_synonym device_id = string

subsection \<open>Double-precision numbers\<close>

datatype f64 = Finite rat | PosInf | NegInf | NaN

definition is_finite :: "f64 \<Rightarrow> bool" where
  "is_finite x = (case x of Finite _ \<Rightarrow> True | _ \<Rightarrow> False)"

fun f64_eq :: "f64 \<Rightarrow> f64 \<Rightarrow> bool" where
  "f64_eq (Finite a) (Finite b) = (a = b)"
| "f64_eq PosInf PosInf = True"
| "f64_eq NegInf NegInf = True"
| "f64_eq _ _ = False"

fun f64_le_zero :: "f64 \<Rightarrow> bool" where
  "f64_le_zero (Finite a) = (a \<le> 0)"
| "f64_le_zero NegInf = True"
| "f64_le_zero PosInf = False"
| "f64_le_zero NaN = False"

fun f64_ge_zero :: "f64 \<Rightarrow> bool" where
  "f64_ge_zero (Finite a) = (0 \<le> a)"
| "f64_ge_zero PosInf = True"
| "f64_ge_zero NegInf = False"
| "f64_ge_zero NaN = False"

subsection \<open>JSON values\<close>

text \<open>
  \<open>serde_json::Value\<close>. A number is a \<open>u64\<close>, a negative \<open>i64\<close> or a finite double; an object is
  a \<open>BTreeMap\<close> from keys to values.
\<close>

datatype json_number = PosInt nat | NegInt int | Float rat

datatype json =
    JNull
  | JBool bool
  | JNumber json_number
  | JString string
  | JArray "json list"
  | JObject "(string \<times> json) list"

subsection \<open>Cross-language safe integers\<close>

definition MAX_SAFE_INTEGER :: nat where
  "MAX_SAFE_INTEGER = 9007199254740991"

definition U32_MAX :: nat where
  "U32_MAX = 4294967295"

definition I32_MIN :: int where
  "I32_MIN = - 2147483648"

definition I32_MAX :: int where
  "I32_MAX = 2147483647"

definition is_integral :: "rat \<Rightarrow> bool" where
  "is_integral r \<longleftrightarrow> of_int \<lfloor>r\<rfloor> = r"

fun json_integer_as_u32 :: "json \<Rightarrow> nat option" where
  "json_integer_as_u32 (JNumber (PosInt n)) = (if n \<le> U32_MAX then Some n else None)"
| "json_integer_as_u32 (JNumber (Float r)) =
     (if 0 \<le> r \<and> r \<le> of_nat U32_MAX \<and> is_integral r then Some (nat \<lfloor>r\<rfloor>) else None)"
| "json_integer_as_u32 _ = None"

fun json_integer_as_i32 :: "json \<Rightarrow> int option" where
  "json_integer_as_i32 (JNumber (PosInt n)) = (if int n \<le> I32_MAX then Some (int n) else None)"
| "json_integer_as_i32 (JNumber (NegInt i)) = (if I32_MIN \<le> i \<and> i \<le> I32_MAX then Some i else None)"
| "json_integer_as_i32 (JNumber (Float r)) =
     (if of_int I32_MIN \<le> r \<and> r \<le> of_int I32_MAX \<and> is_integral r then Some \<lfloor>r\<rfloor> else None)"
| "json_integer_as_i32 _ = None"

text \<open>
  The four \<open>serde\<close> adapters take the format's own number and option codecs as arguments.
\<close>

definition safe_integer_error :: string where
  "safe_integer_error = ''integer exceeds the cross-language safe limit 9007199254740991''"

definition serialize_js_safe_u64 :: "(nat \<Rightarrow> string + 'w) \<Rightarrow> nat \<Rightarrow> string + 'w" where
  "serialize_js_safe_u64 serialize_u64 v =
     (if v \<le> MAX_SAFE_INTEGER then serialize_u64 v else Inl safe_integer_error)"

definition deserialize_js_safe_u64 :: "('w \<Rightarrow> string + nat) \<Rightarrow> 'w \<Rightarrow> string + nat" where
  "deserialize_js_safe_u64 u64_deserialize w =
     res_bind (u64_deserialize w)
       (\<lambda>v. if v \<le> MAX_SAFE_INTEGER then Inr v else Inl safe_integer_error)"

definition serialize_optional_js_safe_u64 ::
  "(nat \<Rightarrow> string + 'w) \<Rightarrow> (string + 'w) \<Rightarrow> nat option \<Rightarrow> string + 'w" where
  "serialize_optional_js_safe_u64 serialize_some serialize_none ov =
     (case ov of
        Some v \<Rightarrow> if v \<le> MAX_SAFE_INTEGER then serialize_some v else Inl safe_integer_error
      | None \<Rightarrow> serialize_none)"

definition deserialize_optional_js_safe_u64 ::
  "('w \<Rightarrow> string + nat option) \<Rightarrow> 'w \<Rightarrow> string + nat option" where
  "deserialize_optional_js_safe_u64 option_deserialize w =
     res_bind (option_deserialize w)
       (\<lambda>ov. case ov of
              Some v \<Rightarrow> if MAX_SAFE_INTEGER < v then Inl safe_integer_error else Inr (Some v)
            | None \<Rightarrow> Inr None)"

subsection \<open>Event sequences, request ids and timeouts\<close>

text \<open>
  An \<open>EventSequence\<close> is its one-based number: \<open>event_sequence_new\<close> is the only constructor and
  \<open>valid_sequence\<close> its range.
\<close>

type_synonym event_sequence = nat

definition FIRST :: event_sequence where
  "FIRST = 1"

definition event_sequence_new :: "nat \<Rightarrow> event_sequence option" where
  "event_sequence_new v = (if v > 0 \<and> v \<le> MAX_SAFE_INTEGER then Some v else None)"

definition checked_next :: "event_sequence \<Rightarrow> event_sequence option" where
  "checked_next s = Option.bind (checked_add_u64 s 1) event_sequence_new"

definition deserialize_event_sequence :: "('w \<Rightarrow> string + nat) \<Rightarrow> 'w \<Rightarrow> string + event_sequence" where
  "deserialize_event_sequence u64_deserialize w =
     res_bind (deserialize_js_safe_u64 u64_deserialize w)
       (\<lambda>v. if v = 0 then Inl ''event sequence must be a one-based integer'' else Inr v)"

definition valid_sequence :: "event_sequence \<Rightarrow> bool" where
  "valid_sequence s \<longleftrightarrow> 1 \<le> s \<and> s \<le> MAX_SAFE_INTEGER"

datatype rpc_id = RpcString string | RpcNumber nat

definition rpc_id_serialize :: "(string \<Rightarrow> string + 'w) \<Rightarrow> (nat \<Rightarrow> string + 'w) \<Rightarrow> rpc_id \<Rightarrow> string + 'w" where
  "rpc_id_serialize serialize_str serialize_u64 r =
     (case r of
        RpcString s \<Rightarrow> serialize_str s
      | RpcNumber n \<Rightarrow>
          if n \<le> MAX_SAFE_INTEGER then serialize_u64 n
          else Inl ''numeric request id exceeds the JavaScript safe integer limit'')"

definition request_timeout_ms_new :: "nat \<Rightarrow> nat option" where
  "request_timeout_ms_new v = (if v \<ge> 1 \<and> v \<le> MAX_SAFE_INTEGER then Some v else None)"

subsection \<open>Asset references and error reports\<close>

record asset_ref =
  ar_id :: string
  ar_media_type :: string
  ar_uri :: string
  ar_sha256 :: "string option"

record error_info =
  ei_code :: string
  ei_message :: string
  ei_retryable :: bool
  ei_details :: "json option"

subsection \<open>Lemmas\<close>

lemma f64_eq_iff: "f64_eq x y \<longleftrightarrow> x = y \<and> x \<noteq> NaN"
  by (cases x; cases y) auto

lemma MAX_SAFE_INTEGER_less_U64_MAX: "MAX_SAFE_INTEGER < U64_MAX"
  by (simp add: MAX_SAFE_INTEGER_def U64_MAX_def)

lemma event_sequence_new_eq_Some:
  "event_sequence_new v = Some s \<longleftrightarrow> s = v \<and> valid_sequence v"
  by (auto simp: event_sequence_new_def valid_sequence_def)

lemma checked_next_eq_Some:
  "checked_next s = Some t \<longleftrightarrow> t = Suc s \<and> s < MAX_SAFE_INTEGER"
  using MAX_SAFE_INTEGER_less_U64_MAX
  by (auto simp: checked_next_def checked_add_u64_def event_sequence_new_def bind_eq_Some_conv)

lemma checked_next_eq_None: "checked_next s = None \<longleftrightarrow> MAX_SAFE_INTEGER \<le> s"
  using checked_next_eq_Some by (metis not_None_eq not_less)

lemma checked_next_if: "checked_next n = (if n < MAX_SAFE_INTEGER then Some (Suc n) else None)"
  using checked_next_eq_Some[of n "Suc n"] checked_next_eq_None[of n] by auto

lemma valid_sequence_FIRST [simp]: "valid_sequence FIRST" "valid_sequence (Suc 0)"
  by (simp_all add: valid_sequence_def FIRST_def MAX_SAFE_INTEGER_def)

lemma is_integral_of_int [simp]: "is_integral (of_int i)"
  by (simp add: is_integral_def)

end
