(* ===== verification/Ui_Contract.thy ===== *)
theory Ui_Contract
  imports Wire_Scalars
begin

text \<open>
  The UI Snapshot contract of \<open>crates/protocol/src/ui.rs\<close>: contexts, nodes, the preorder list
  of a UI tree and its validation, element selectors and targets, the execution channel an
  Action reports, and the results of waiting for an element.
\<close>

definition UI_SNAPSHOT_FORMAT_VERSION :: nat where
  "UI_SNAPSHOT_FORMAT_VERSION = 1"

definition UI_SNAPSHOT_MEDIA_TYPE :: string where
  "UI_SNAPSHOT_MEDIA_TYPE = ''application/vnd.devicerail.ui-tree+json;version=1''"

definition MAX_UI_SNAPSHOT_NODES :: nat where
  "MAX_UI_SNAPSHOT_NODES = 10000"

definition MAX_UI_SNAPSHOT_BYTES :: nat where
  "MAX_UI_SNAPSHOT_BYTES = 768 * 1024"

definition MAX_UI_IDENTIFIER_LENGTH :: nat where
  "MAX_UI_IDENTIFIER_LENGTH = 4096"

definition MAX_UI_ROLE_LENGTH :: nat where
  "MAX_UI_ROLE_LENGTH = 256"

definition MAX_UI_TEXT_LENGTH :: nat where
  "MAX_UI_TEXT_LENGTH = 65536"

definition MAX_ELEMENT_VALUE_LENGTH :: nat where
  "MAX_ELEMENT_VALUE_LENGTH = 65536"

definition SEMANTIC_ACTION_NAMES :: "string list" where
  "SEMANTIC_ACTION_NAMES =
     [''findElement'', ''tapElement'', ''clearElement'', ''setElementValue'', ''waitForElement'']"

definition is_semantic_action_name :: "string \<Rightarrow> bool" where
  "is_semantic_action_name name \<longleftrightarrow>
     name = ''findElement'' \<or> name = ''tapElement'' \<or> name = ''clearElement'' \<or>
     name = ''setElementValue'' \<or> name = ''waitForElement''"

datatype ui_contract_error =
    EmptyField string
  | FieldTooLong string
  | InvalidBounds string
  | InvalidContextForCss
  | InvalidSemanticExecutionContext
  | EmptySelector
  | UnsupportedSnapshotFormat nat
  | EmptySnapshot
  | TooManyNodes nat
  | SnapshotTooLarge nat
  | DuplicateStableNodeId string
  | InvalidRootOrder
  | MissingOrLateParent string
  | InvalidPreorder string
  | InvalidNodeCount nat
  | InvalidByteLength nat
  | InvalidSnapshotMediaType string
  | InvalidWaitResult

definition validate_required :: "string \<Rightarrow> string \<Rightarrow> nat \<Rightarrow> ui_contract_error + unit" where
  "validate_required v field maximum =
     (if trim_is_empty v then Inl (EmptyField field)
      else if chars_count v > maximum then Inl (FieldTooLong field)
      else Inr ())"

definition validate_optional :: "string option \<Rightarrow> string \<Rightarrow> nat \<Rightarrow> ui_contract_error + unit" where
  "validate_optional v field maximum =
     (case v of
        Some s \<Rightarrow> if chars_count s > maximum then Inl (FieldTooLong field) else Inr ()
      | None \<Rightarrow> Inr ())"

subsection \<open>Contexts\<close>

datatype ui_context_kind = Native | Web

record ui_context_ref =
  cx_kind :: ui_context_kind
  cx_id :: string
  cx_epoch :: string

definition ui_context_ref_validate :: "ui_context_ref \<Rightarrow> ui_contract_error + unit" where
  "ui_context_ref_validate c =
     res_bind (validate_required (cx_id c) ''contextId'' MAX_UI_IDENTIFIER_LENGTH) (\<lambda>_.
       validate_required (cx_epoch c) ''documentEpoch'' MAX_UI_IDENTIFIER_LENGTH)"

record ui_context_selector =
  cs_kind :: ui_context_kind
  cs_id :: "string option"

definition ui_context_selector_validate :: "ui_context_selector \<Rightarrow> ui_contract_error + unit" where
  "ui_context_selector_validate c =
     (case cs_id c of
        Some i \<Rightarrow> validate_required i ''contextId'' MAX_UI_IDENTIFIER_LENGTH
      | None \<Rightarrow> Inr ())"

subsection \<open>Nodes and snapshots\<close>

record ui_rect =
  rc_x :: f64
  rc_y :: f64
  rc_width :: f64
  rc_height :: f64

definition ui_rect_is_valid :: "ui_rect \<Rightarrow> bool" where
  "ui_rect_is_valid r \<longleftrightarrow>
     is_finite (rc_x r) \<and> is_finite (rc_y r) \<and> is_finite (rc_width r) \<and> is_finite (rc_height r) \<and>
     f64_ge_zero (rc_width r) \<and> f64_ge_zero (rc_height r)"

record ui_node =
  un_stable_node_id :: string
  un_parent_stable_node_id :: "string option"
  un_role :: string
  un_name :: "string option"
  un_value :: "string option"
  un_identifier :: "string option"
  un_text :: "string option"
  un_bounds :: "ui_rect option"
  un_enabled :: "bool option"
  un_hittable :: "bool option"

definition ui_node_validate :: "ui_node \<Rightarrow> ui_contract_error + unit" where
  "ui_node_validate n =
     res_bind (validate_required (un_stable_node_id n) ''stableNodeId'' MAX_UI_IDENTIFIER_LENGTH) (\<lambda>_.
     res_bind (case un_parent_stable_node_id n of
                 Some p \<Rightarrow> validate_required p ''parentStableNodeId'' MAX_UI_IDENTIFIER_LENGTH
               | None \<Rightarrow> Inr ()) (\<lambda>_.
     res_bind (validate_required (un_role n) ''role'' MAX_UI_ROLE_LENGTH) (\<lambda>_.
     res_bind (validate_optional (un_name n) ''name'' MAX_UI_TEXT_LENGTH) (\<lambda>_.
     res_bind (validate_optional (un_value n) ''value'' MAX_UI_TEXT_LENGTH) (\<lambda>_.
     res_bind (validate_optional (un_identifier n) ''identifier'' MAX_UI_IDENTIFIER_LENGTH) (\<lambda>_.
     res_bind (validate_optional (un_text n) ''text'' MAX_UI_TEXT_LENGTH) (\<lambda>_.
       case un_bounds n of
         Some b \<Rightarrow> if \<not> ui_rect_is_valid b then Inl (InvalidBounds (un_stable_node_id n)) else Inr ()
       | None \<Rightarrow> Inr ())))))))"

record ui_snapshot =
  us_format_version :: nat
  us_observation_id :: uuid
  us_context :: ui_context_ref
  us_root_stable_node_ids :: "string list"
  us_nodes :: "ui_node list"

text \<open>
  The loop over \<open>nodes\<close> keeps the set of ids seen, the stack of open ancestors (as a vector,
  its top at the end) and the roots met. \<open>rposition\<close> is the last index holding an id.
\<close>

record preorder_state =
  ps_seen :: "string list"
  ps_stack :: "string list"
  ps_roots :: "string list"

definition rposition :: "'a \<Rightarrow> 'a list \<Rightarrow> nat option" where
  "rposition x xs = find (\<lambda>i. xs ! i = x) (rev [0..<length xs])"

definition ui_snapshot_step :: "preorder_state \<Rightarrow> ui_node \<Rightarrow> ui_contract_error + preorder_state" where
  "ui_snapshot_step st node =
     res_bind (ui_node_validate node) (\<lambda>_.
       let i = un_stable_node_id node in
       if i \<in> set (ps_seen st) then Inl (DuplicateStableNodeId i)
       else
         let seen = i # ps_seen st in
         case un_parent_stable_node_id node of
           None \<Rightarrow>
             Inr \<lparr>ps_seen = seen, ps_stack = [i], ps_roots = ps_roots st @ [i]\<rparr>
         | Some parent \<Rightarrow>
             if parent \<notin> set seen then Inl (MissingOrLateParent i)
             else
               (case rposition parent (ps_stack st) of
                  None \<Rightarrow> Inl (InvalidPreorder i)
                | Some parent_index \<Rightarrow>
                    Inr \<lparr>ps_seen = seen,
                         ps_stack = take (parent_index + 1) (ps_stack st) @ [i],
                         ps_roots = ps_roots st\<rparr>))"

definition ui_snapshot_validate :: "ui_snapshot \<Rightarrow> ui_contract_error + unit" where
  "ui_snapshot_validate s =
     (if us_format_version s \<noteq> UI_SNAPSHOT_FORMAT_VERSION
      then Inl (UnsupportedSnapshotFormat (us_format_version s))
      else
        res_bind (ui_context_ref_validate (us_context s)) (\<lambda>_.
          if us_nodes s = [] \<or> us_root_stable_node_ids s = [] then Inl EmptySnapshot
          else if length (us_nodes s) > MAX_UI_SNAPSHOT_NODES
          then Inl (TooManyNodes (length (us_nodes s)))
          else
            res_bind (res_fold ui_snapshot_step \<lparr>ps_seen = [], ps_stack = [], ps_roots = []\<rparr> (us_nodes s))
              (\<lambda>st. if ps_roots st \<noteq> us_root_stable_node_ids s then Inl InvalidRootOrder else Inr ())))"

record ui_snapshot_ref =
  sr_format_version :: nat
  sr_context :: ui_context_ref
  sr_node_count :: nat
  sr_byte_length :: nat
  sr_evidence :: asset_ref

definition ui_snapshot_ref_validate :: "ui_snapshot_ref \<Rightarrow> ui_contract_error + unit" where
  "ui_snapshot_ref_validate r =
     (if sr_format_version r \<noteq> UI_SNAPSHOT_FORMAT_VERSION
      then Inl (UnsupportedSnapshotFormat (sr_format_version r))
      else
        res_bind (ui_context_ref_validate (sr_context r)) (\<lambda>_.
          if sr_node_count r = 0 \<or> sr_node_count r > MAX_UI_SNAPSHOT_NODES
          then Inl (InvalidNodeCount (sr_node_count r))
          else if sr_byte_length r = 0 \<or> sr_byte_length r > MAX_UI_SNAPSHOT_BYTES
          then Inl (InvalidByteLength (sr_byte_length r))
          else if ar_media_type (sr_evidence r) \<noteq> UI_SNAPSHOT_MEDIA_TYPE
          then Inl (InvalidSnapshotMediaType (ar_media_type (sr_evidence r)))
          else Inr ()))"

definition ui_snapshot_validate_against ::
  "ui_snapshot \<Rightarrow> uuid \<Rightarrow> ui_snapshot_ref \<Rightarrow> ui_contract_error + unit" where
  "ui_snapshot_validate_against s observation_id r =
     res_bind (ui_snapshot_validate s) (\<lambda>_.
     res_bind (ui_snapshot_ref_validate r) (\<lambda>_.
       if us_observation_id s \<noteq> observation_id
          \<or> us_format_version s \<noteq> sr_format_version r
          \<or> us_context s \<noteq> sr_context r
          \<or> length (us_nodes s) \<noteq> sr_node_count r
       then Inl (InvalidNodeCount (sr_node_count r))
       else Inr ()))"

datatype ui_snapshot_omission_reason = UiDriverUnsupported | UiPolicy | UiProtectedAction

subsection \<open>Element selectors, targets and results\<close>

record ui_node_ref =
  nr_observation_id :: uuid
  nr_context :: ui_context_ref
  nr_stable_node_id :: string

definition ui_node_ref_validate :: "ui_node_ref \<Rightarrow> ui_contract_error + unit" where
  "ui_node_ref_validate r =
     res_bind (ui_context_ref_validate (nr_context r)) (\<lambda>_.
       validate_required (nr_stable_node_id r) ''stableNodeId'' MAX_UI_IDENTIFIER_LENGTH)"

datatype text_match_mode = Exact | Contains

record text_match =
  tm_value :: string
  tm_mode :: text_match_mode
  tm_case_sensitive :: bool

record element_selector =
  es_context :: "ui_context_selector option"
  es_role :: "string option"
  es_name :: "string option"
  es_value :: "string option"
  es_identifier :: "string option"
  es_text :: "text_match option"
  es_css :: "string option"

definition element_selector_is_empty :: "element_selector \<Rightarrow> bool" where
  "element_selector_is_empty e \<longleftrightarrow>
     es_role e = None \<and> es_name e = None \<and> es_value e = None \<and> es_identifier e = None \<and>
     es_text e = None \<and> es_css e = None"

definition element_selector_validate :: "element_selector \<Rightarrow> ui_contract_error + unit" where
  "element_selector_validate e =
     (if element_selector_is_empty e then Inl EmptySelector
      else
        res_bind (case es_context e of
                    Some c \<Rightarrow>
                      res_bind (ui_context_selector_validate c) (\<lambda>_.
                        if es_css e \<noteq> None \<and> cs_kind c = Native then Inl InvalidContextForCss
                        else Inr ())
                  | None \<Rightarrow> Inr ()) (\<lambda>_.
        res_bind (case es_role e of
                    Some r \<Rightarrow> validate_required r ''role'' MAX_UI_ROLE_LENGTH
                  | None \<Rightarrow> Inr ()) (\<lambda>_.
        res_bind (case es_name e of
                    Some n \<Rightarrow> validate_required n ''name'' MAX_UI_TEXT_LENGTH
                  | None \<Rightarrow> Inr ()) (\<lambda>_.
        res_bind (validate_optional (es_value e) ''value'' MAX_UI_TEXT_LENGTH) (\<lambda>_.
        res_bind (case es_identifier e of
                    Some i \<Rightarrow> validate_required i ''identifier'' MAX_UI_IDENTIFIER_LENGTH
                  | None \<Rightarrow> Inr ()) (\<lambda>_.
        res_bind (case es_text e of
                    Some t \<Rightarrow> validate_required (tm_value t) ''text.value'' MAX_UI_TEXT_LENGTH
                  | None \<Rightarrow> Inr ()) (\<lambda>_.
          case es_css e of
            Some css \<Rightarrow>
              res_bind (validate_required css ''css'' MAX_UI_TEXT_LENGTH) (\<lambda>_.
                if es_role e \<noteq> None \<or> es_name e \<noteq> None \<or> es_value e \<noteq> None
                   \<or> es_identifier e \<noteq> None \<or> es_text e \<noteq> None
                then Inl InvalidContextForCss
                else if map_option cs_kind (es_context e) \<noteq> Some Web
                then Inl InvalidContextForCss
                else Inr ())
          | None \<Rightarrow> Inr ())))))))"

datatype element_target = TargetSelector element_selector | TargetNode ui_node_ref

definition element_target_validate :: "element_target \<Rightarrow> ui_contract_error + unit" where
  "element_target_validate t =
     (case t of
        TargetSelector e \<Rightarrow> element_selector_validate e
      | TargetNode n \<Rightarrow> ui_node_ref_validate n)"

datatype coordinate_fallback_reason = SemanticInteractionUnavailable | PlatformLimitation

datatype action_execution =
    NativeSemantic ui_context_ref
  | WebSemantic ui_context_ref
  | CoordinateFallback ui_context_ref coordinate_fallback_reason

definition action_execution_validate :: "action_execution \<Rightarrow> ui_contract_error + unit" where
  "action_execution_validate x =
     (case x of
        NativeSemantic c \<Rightarrow>
          if cx_kind c = Native then ui_context_ref_validate c
          else Inl InvalidSemanticExecutionContext
      | WebSemantic c \<Rightarrow>
          if cx_kind c = Web then ui_context_ref_validate c
          else Inl InvalidSemanticExecutionContext
      | CoordinateFallback c _ \<Rightarrow> ui_context_ref_validate c)"

record set_element_value_arguments =
  sv_target :: element_target
  sv_value :: string

definition set_element_value_arguments_validate ::
  "set_element_value_arguments \<Rightarrow> ui_contract_error + unit" where
  "set_element_value_arguments_validate a =
     res_bind (element_target_validate (sv_target a)) (\<lambda>_.
       validate_optional (Some (sv_value a)) ''value'' MAX_ELEMENT_VALUE_LENGTH)"

datatype wait_for_element_condition = Present | Visible | Enabled | Absent

record wait_for_element_result =
  we_matched :: bool
  we_condition :: wait_for_element_condition
  we_element :: "ui_node_ref option"

definition wait_for_element_result_validate :: "wait_for_element_result \<Rightarrow> ui_contract_error + unit" where
  "wait_for_element_result_validate w =
     (let valid =
        (case (we_matched w, we_condition w, we_element w \<noteq> None) of
           (False, _, False) \<Rightarrow> True
         | (True, Absent, False) \<Rightarrow> True
         | (True, Present, True) \<Rightarrow> True
         | (True, Visible, True) \<Rightarrow> True
         | (True, Enabled, True) \<Rightarrow> True
         | _ \<Rightarrow> False)
      in if \<not> valid then Inl InvalidWaitResult
         else (case we_element w of
                 Some e \<Rightarrow> ui_node_ref_validate e
               | None \<Rightarrow> Inr ()))"

subsection \<open>The specification of a snapshot: a forest and its preorder\<close>

text \<open>
  What the contract promises of \<open>nodes\<close>: it is the preorder of an ordered forest whose edges
  are the parent ids and whose roots are \<open>root_stable_node_ids\<close>.
\<close>

datatype ui_tree = UiTree ui_node "ui_tree list"

fun preorder :: "ui_tree \<Rightarrow> ui_node list" where
  "preorder (UiTree n ts) = n # concat (map preorder ts)"

fun parents_ok :: "string option \<Rightarrow> ui_tree \<Rightarrow> bool" where
  "parents_ok p (UiTree n ts) =
     (un_parent_stable_node_id n = p \<and> list_all (parents_ok (Some (un_stable_node_id n))) ts)"

fun root_id :: "ui_tree \<Rightarrow> string" where
  "root_id (UiTree n ts) = un_stable_node_id n"

definition is_preorder_forest :: "string list \<Rightarrow> ui_node list \<Rightarrow> ui_tree list \<Rightarrow> bool" where
  "is_preorder_forest roots nodes ts \<longleftrightarrow>
     concat (map preorder ts) = nodes \<and> list_all (parents_ok None) ts \<and> map root_id ts = roots"

text \<open>The ancestors still open after a forest, and the forest with one more node below them.\<close>

fun spine :: "ui_tree list \<Rightarrow> string list" where
  "spine [] = []"
| "spine [UiTree n cs] = un_stable_node_id n # spine cs"
| "spine (t # u # ts) = spine (u # ts)"

fun attach :: "nat \<Rightarrow> ui_node \<Rightarrow> ui_tree list \<Rightarrow> ui_tree list" where
  "attach 0 n ts = ts @ [UiTree n []]"
| "attach (Suc d) n [] = []"
| "attach (Suc d) n [UiTree m cs] = [UiTree m (attach d n cs)]"
| "attach (Suc d) n (t # u # ts) = t # attach (Suc d) n (u # ts)"

lemma spine_snoc [simp]: "spine (ts @ [UiTree n cs]) = un_stable_node_id n # spine cs"
  by (induction ts rule: spine.induct) auto

lemma attach_snoc [simp]: "attach (Suc d) n (ts @ [UiTree m cs]) = ts @ [UiTree m (attach d n cs)]"
  by (induction ts rule: spine.induct) auto

lemma attach_preorder:
  "d \<le> length (spine ts) \<Longrightarrow>
   concat (map preorder (attach d n ts)) = concat (map preorder ts) @ [n]"
  by (induction d n ts rule: attach.induct) auto

lemma attach_spine:
  "d \<le> length (spine ts) \<Longrightarrow> spine (attach d n ts) = take d (spine ts) @ [un_stable_node_id n]"
proof (induction d n ts rule: attach.induct)
  case (4 d n t u ts)
  then obtain v vs where "attach (Suc d) n (u # ts) = v # vs"
    by (cases "attach (Suc d) n (u # ts)") auto
  with 4 show ?case by simp
qed auto

lemma attach_parents_ok:
  "d \<le> length (spine ts) \<Longrightarrow>
   un_parent_stable_node_id n = (case d of 0 \<Rightarrow> p | Suc k \<Rightarrow> Some (spine ts ! k)) \<Longrightarrow>
   list_all (parents_ok p) (attach d n ts) \<longleftrightarrow> list_all (parents_ok p) ts"
proof (induction d n ts arbitrary: p rule: attach.induct)
  case (3 d n m cs)
  have "list_all (parents_ok (Some (un_stable_node_id m))) (attach d n cs)
        \<longleftrightarrow> list_all (parents_ok (Some (un_stable_node_id m))) cs"
    using 3 by (intro 3(1)) (auto split: nat.splits)
  then show ?case by simp
qed auto

lemma attach_parent:
  "d \<le> length (spine ts) \<Longrightarrow> list_all (parents_ok p) (attach d n ts) \<Longrightarrow>
   un_parent_stable_node_id n = (case d of 0 \<Rightarrow> p | Suc k \<Rightarrow> Some (spine ts ! k))"
proof (induction d n ts arbitrary: p rule: attach.induct)
  case (3 d n m cs)
  have "un_parent_stable_node_id n =
          (case d of 0 \<Rightarrow> Some (un_stable_node_id m) | Suc k \<Rightarrow> Some (spine cs ! k))"
    using 3(2,3) by (intro 3(1)) auto
  then show ?case by (auto split: nat.splits)
qed auto

lemma attach_roots:
  "d \<le> length (spine ts) \<Longrightarrow>
   map root_id (attach d n ts) = map root_id ts @ (if d = 0 then [un_stable_node_id n] else [])"
  by (induction d n ts rule: attach.induct) auto

lemma attach_exhaust:
  "ts \<noteq> [] \<Longrightarrow> \<exists>d n us. ts = attach d n us \<and> d \<le> length (spine us)"
proof (induction "size_list size ts" arbitrary: ts rule: less_induct)
  case less
  from \<open>ts \<noteq> []\<close> obtain us n cs where ts: "ts = us @ [UiTree n cs]"
    by (metis rev_exhaust ui_tree.exhaust)
  show ?case
  proof (cases "cs = []")
    case True
    then show ?thesis using ts by (intro exI[of _ 0] exI[of _ n] exI[of _ us]) simp
  next
    case False
    have "size_list size cs < size_list size ts" by (simp add: ts)
    from less(1)[OF this False] obtain d m vs where "cs = attach d m vs" "d \<le> length (spine vs)"
      by blast
    then show ?thesis using ts
      by (intro exI[of _ "Suc d"] exI[of _ m] exI[of _ "us @ [UiTree n vs]"]) simp
  qed
qed

lemma spine_subset: "set (spine ts) \<subseteq> un_stable_node_id ` set (concat (map preorder ts))"
proof (induction ts rule: spine.induct)
  case (3 t u ts)
  then show ?case unfolding spine.simps by fastforce
qed auto

lemma spine_distinct:
  "distinct (map un_stable_node_id (concat (map preorder ts))) \<Longrightarrow> distinct (spine ts)"
proof (induction ts rule: spine.induct)
  case (2 n cs)
  then show ?case using spine_subset[of cs] by auto
next
  case (3 t u ts)
  then show ?case by simp
qed simp

lemma rposition_SomeD: "rposition x xs = Some k \<Longrightarrow> k < length xs \<and> xs ! k = x"
  by (auto simp: rposition_def find_Some_iff rev_nth)

lemma rposition_None: "rposition x xs = None \<longleftrightarrow> x \<notin> set xs"
  by (auto simp: rposition_def find_None_iff in_set_conv_nth)

lemma rposition_distinct:
  "distinct xs \<Longrightarrow> k < length xs \<Longrightarrow> rposition (xs ! k) xs = Some k"
  by (metis nth_eq_iff_index_eq not_None_eq nth_mem rposition_None rposition_SomeD)

lemma forest_Nil: "is_preorder_forest roots [] ts \<longleftrightarrow> ts = [] \<and> roots = []"
  by (cases ts; cases "hd ts") (auto simp: is_preorder_forest_def)

text \<open>
  The machine state after a prefix of the nodes: it exists when the prefix is the preorder of a
  forest with valid nodes and distinct ids, and then its stack is the forest's open ancestors.
\<close>

definition machine_inv :: "ui_node list \<Rightarrow> preorder_state \<Rightarrow> bool" where
  "machine_inv nodes st \<longleftrightarrow>
     list_all (\<lambda>n. ui_node_validate n = Inr ()) nodes \<and> distinct (map un_stable_node_id nodes) \<and>
     ps_seen st = rev (map un_stable_node_id nodes) \<and>
     (\<exists>ts. is_preorder_forest (ps_roots st) nodes ts \<and> ps_stack st = spine ts)"

lemma machine_inv_extend:
  assumes ts: "is_preorder_forest (ps_roots st) nodes ts" and d: "d \<le> length (spine ts)"
    and parent: "un_parent_stable_node_id n = (case d of 0 \<Rightarrow> None | Suc k \<Rightarrow> Some (spine ts ! k))"
  shows "is_preorder_forest (ps_roots st @ (if d = 0 then [un_stable_node_id n] else []))
           (nodes @ [n]) (attach d n ts)"
  using ts attach_preorder[OF d, of n] attach_parents_ok[OF d parent] attach_roots[OF d, of n]
  by (simp add: is_preorder_forest_def)

lemma machine_step_sound:
  assumes inv: "machine_inv nodes st" and step: "ui_snapshot_step st n = Inr st'"
  shows "machine_inv (nodes @ [n]) st'"
proof -
  from inv obtain ts where ts: "is_preorder_forest (ps_roots st) nodes ts"
    and stack: "ps_stack st = spine ts" and seen: "ps_seen st = rev (map un_stable_node_id nodes)"
    by (auto simp: machine_inv_def)
  from step have valid: "ui_node_validate n = Inr ()"
    and fresh: "un_stable_node_id n \<notin> set (ps_seen st)"
    by (auto simp: ui_snapshot_step_def res_bind_eq_Inr Let_def split: if_splits)
  show ?thesis
  proof (cases "un_parent_stable_node_id n")
    case None
    with step valid fresh machine_inv_extend[OF ts, of 0 n] inv seen show ?thesis
      by (auto simp: ui_snapshot_step_def machine_inv_def Let_def intro!: exI[of _ "attach 0 n ts"])
  next
    case (Some p)
    with step valid fresh obtain k where k: "rposition p (spine ts) = Some k"
      and st': "st' = \<lparr>ps_seen = un_stable_node_id n # ps_seen st,
                       ps_stack = take (k + 1) (spine ts) @ [un_stable_node_id n],
                       ps_roots = ps_roots st\<rparr>"
      by (auto simp: ui_snapshot_step_def Let_def stack split: if_splits option.splits)
    have d: "Suc k \<le> length (spine ts)" using rposition_SomeD[OF k] by simp
    have parent: "un_parent_stable_node_id n = Some (spine ts ! k)"
      using rposition_SomeD[OF k] Some by simp
    from machine_inv_extend[OF ts d, of n] attach_spine[OF d, of n] valid fresh inv seen parent st'
    show ?thesis
      by (auto simp: machine_inv_def simp del: attach.simps intro!: exI[of _ "attach (Suc k) n ts"])
  qed
qed

lemma machine_step_complete:
  assumes inv: "machine_inv (nodes @ [n]) st'"
  shows "\<exists>st. machine_inv nodes st \<and> ui_snapshot_step st n = Inr st'"
proof -
  from inv obtain ts where forest: "is_preorder_forest (ps_roots st') (nodes @ [n]) ts"
    and stack': "ps_stack st' = spine ts"
    by (auto simp: machine_inv_def)
  then have "ts \<noteq> []" by (auto simp: is_preorder_forest_def)
  then obtain d m us where ts: "ts = attach d m us" and d: "d \<le> length (spine us)"
    using attach_exhaust by blast
  with forest attach_preorder[OF d, of m] have m: "m = n"
    and nodes: "concat (map preorder us) = nodes"
    by (auto simp: is_preorder_forest_def)
  have parent: "un_parent_stable_node_id n = (case d of 0 \<Rightarrow> None | Suc k \<Rightarrow> Some (spine us ! k))"
    using attach_parent[OF d] forest by (auto simp: is_preorder_forest_def ts m)
  have us: "is_preorder_forest (map root_id us) nodes us"
    using forest attach_parents_ok[OF d parent] nodes by (auto simp: is_preorder_forest_def ts m)
  define st where "st = \<lparr>ps_seen = rev (map un_stable_node_id nodes), ps_stack = spine us,
                          ps_roots = map root_id us\<rparr>"
  have inv_st: "machine_inv nodes st" using inv us by (auto simp: machine_inv_def st_def)
  have roots': "ps_roots st' = map root_id us @ (if d = 0 then [un_stable_node_id n] else [])"
    using forest attach_roots[OF d, of n] by (simp add: is_preorder_forest_def ts m)
  have stack: "ps_stack st' = take d (spine us) @ [un_stable_node_id n]"
    using stack' attach_spine[OF d, of n] by (simp add: ts m)
  have distinct: "distinct (spine us)" using spine_distinct[of us] inv nodes
    by (simp add: machine_inv_def)
  have "ui_snapshot_step st n = Inr st'"
  proof (cases d)
    case 0
    with inv parent roots' stack show ?thesis
      by (cases st') (auto simp: ui_snapshot_step_def machine_inv_def st_def)
  next
    case (Suc k)
    then have k: "k < length (spine us)" using d by simp
    have "spine us ! k \<in> set (map un_stable_node_id nodes)"
      using spine_subset[of us] nth_mem[OF k] nodes by auto
    with inv parent roots' stack Suc rposition_distinct[OF distinct k] show ?thesis
      by (cases st') (auto simp: ui_snapshot_step_def machine_inv_def st_def Let_def)
  qed
  with inv_st show ?thesis by blast
qed

lemma machine_run:
  "res_fold ui_snapshot_step \<lparr>ps_seen = [], ps_stack = [], ps_roots = []\<rparr> nodes = Inr st
   \<longleftrightarrow> machine_inv nodes st"
proof (induction nodes arbitrary: st rule: rev_induct)
  case Nil
  show ?case by (cases st) (auto simp: machine_inv_def forest_Nil)
next
  case (snoc n nodes)
  show ?case
    unfolding res_fold_snoc_Inr snoc.IH
    using machine_step_sound machine_step_complete by blast
qed

text \<open>
  C8. \<open>UiSnapshot::validate\<close> accepts exactly the snapshots whose format version and context are
  valid, whose 1 to 10000 nodes are valid with pairwise distinct ids, and whose node list is the
  preorder of an ordered forest with the declared parents and exactly the declared roots.
\<close>

theorem ui_snapshot_validate_iff_preorder_forest:
  "ui_snapshot_validate s = Inr () \<longleftrightarrow>
     us_format_version s = UI_SNAPSHOT_FORMAT_VERSION \<and>
     ui_context_ref_validate (us_context s) = Inr () \<and>
     us_nodes s \<noteq> [] \<and> length (us_nodes s) \<le> MAX_UI_SNAPSHOT_NODES \<and>
     list_all (\<lambda>n. ui_node_validate n = Inr ()) (us_nodes s) \<and>
     distinct (map un_stable_node_id (us_nodes s)) \<and>
     (\<exists>ts. is_preorder_forest (us_root_stable_node_ids s) (us_nodes s) ts)"
proof -
  have *: "(\<exists>st. machine_inv (us_nodes s) st \<and> ps_roots st = us_root_stable_node_ids s) \<longleftrightarrow>
     list_all (\<lambda>n. ui_node_validate n = Inr ()) (us_nodes s) \<and>
     distinct (map un_stable_node_id (us_nodes s)) \<and>
     (\<exists>ts. is_preorder_forest (us_root_stable_node_ids s) (us_nodes s) ts)" (is "?L \<longleftrightarrow> ?R")
  proof
    assume ?R
    then obtain ts where "is_preorder_forest (us_root_stable_node_ids s) (us_nodes s) ts" by blast
    with \<open>?R\<close> show ?L
      by (intro exI[of _ "\<lparr>ps_seen = rev (map un_stable_node_id (us_nodes s)),
                           ps_stack = spine ts, ps_roots = us_root_stable_node_ids s\<rparr>"])
        (auto simp: machine_inv_def)
  qed (auto simp: machine_inv_def)
  have nonempty: "is_preorder_forest [] (us_nodes s) ts \<Longrightarrow> us_nodes s = []" for ts
    by (auto simp: is_preorder_forest_def)
  show ?thesis
    unfolding ui_snapshot_validate_def machine_run
    using * nonempty
    by (auto simp: res_bind_eq_Inr machine_run split: if_splits)
qed

end
