(* ===== verification/Wire_Events.thy ===== *)
theory Wire_Events
  imports Ui_Contract
begin

text \<open>
  The data of \<open>crates/protocol/src/action.rs\<close>, \<open>device.rs\<close> and \<open>event.rs\<close>: devices,
  observations, Action calls and results, verdicts, media streams and the events of a Session
  log, with the equality that \<open>derive(PartialEq)\<close> gives them. That equality is structural except
  where a double occurs, since NaN differs from itself.
\<close>

subsection \<open>Devices and observations\<close>

datatype platform =
    PlatformWeb | Android | Ios | HarmonyOs | MacOs | Windows | Linux | Rdp | Mock | Other string

record device_info =
  di_id :: device_id
  di_name :: string
  di_platform :: platform
  di_os_version :: "string option"
  di_connected :: bool

record viewport =
  vp_width :: nat
  vp_height :: nat
  vp_scale_factor :: f64

definition viewport_eq :: "viewport \<Rightarrow> viewport \<Rightarrow> bool" where
  "viewport_eq v w \<longleftrightarrow>
     vp_width v = vp_width w \<and> vp_height v = vp_height w \<and>
     f64_eq (vp_scale_factor v) (vp_scale_factor w)"

datatype screenshot_omission_reason = ScreenshotByPolicy | ScreenshotProtectedAction

record observation =
  ob_id :: uuid
  ob_device_id :: device_id
  ob_captured_at_ms :: nat
  ob_viewport :: viewport
  ob_screenshot :: "asset_ref option"
  ob_screenshot_omission :: "screenshot_omission_reason option"
  ob_ui_snapshot :: "ui_snapshot_ref option"
  ob_ui_snapshot_omission :: "ui_snapshot_omission_reason option"
  ob_metadata :: "(string \<times> json) list"

definition observation_asset_refs :: "observation \<Rightarrow> asset_ref list" where
  "observation_asset_refs o1 =
     (case ob_screenshot o1 of Some a \<Rightarrow> [a] | None \<Rightarrow> []) @
     (case ob_ui_snapshot o1 of Some s \<Rightarrow> [sr_evidence s] | None \<Rightarrow> [])"

definition ui_snapshot_state_is_valid :: "observation \<Rightarrow> bool" where
  "ui_snapshot_state_is_valid o1 \<longleftrightarrow>
     \<not> (ob_ui_snapshot o1 \<noteq> None \<and> ob_ui_snapshot_omission o1 \<noteq> None)"

definition observation_eq :: "observation \<Rightarrow> observation \<Rightarrow> bool" where
  "observation_eq a b \<longleftrightarrow>
     ob_id a = ob_id b \<and> ob_device_id a = ob_device_id b \<and>
     ob_captured_at_ms a = ob_captured_at_ms b \<and> viewport_eq (ob_viewport a) (ob_viewport b) \<and>
     ob_screenshot a = ob_screenshot b \<and> ob_screenshot_omission a = ob_screenshot_omission b \<and>
     ob_ui_snapshot a = ob_ui_snapshot b \<and> ob_ui_snapshot_omission a = ob_ui_snapshot_omission b \<and>
     ob_metadata a = ob_metadata b"

fun option_eq :: "('a \<Rightarrow> 'a \<Rightarrow> bool) \<Rightarrow> 'a option \<Rightarrow> 'a option \<Rightarrow> bool" where
  "option_eq eq None None = True"
| "option_eq eq (Some a) (Some b) = eq a b"
| "option_eq eq _ _ = False"

subsection \<open>Actions\<close>

datatype action_protection = Standard | Protected

record action_definition =
  ad_name :: string
  ad_description :: string
  ad_input_schema :: json
  ad_protection :: action_protection

record action_call =
  ac_id :: uuid
  ac_name :: string
  ac_arguments :: json

record recorded_action_call =
  rac_id :: uuid
  rac_name :: string
  rac_arguments :: json
  rac_arguments_redacted :: bool

definition from_action_call :: "action_call \<Rightarrow> action_protection option \<Rightarrow> recorded_action_call" where
  "from_action_call call protection =
     (let is_standard = (protection = Some Standard) in
      \<lparr>rac_id = ac_id call, rac_name = ac_name call,
       rac_arguments = (if is_standard then ac_arguments call else JNull),
       rac_arguments_redacted = (\<not> is_standard)\<rparr>)"

record device_execute_params =
  dp_id :: uuid
  dp_name :: string
  dp_arguments :: json
  dp_action_timeout_ms :: "nat option"

definition into_action_call :: "device_execute_params \<Rightarrow> action_call" where
  "into_action_call p = \<lparr>ac_id = dp_id p, ac_name = dp_name p, ac_arguments = dp_arguments p\<rparr>"

record action_result =
  rs_call_id :: uuid
  rs_started_at_ms :: nat
  rs_finished_at_ms :: nat
  rs_output :: json
  rs_before :: "observation option"
  rs_after :: "observation option"
  rs_evidence :: "asset_ref list"
  rs_execution :: "action_execution option"

definition action_result_asset_refs :: "action_result \<Rightarrow> asset_ref list" where
  "action_result_asset_refs r =
     rs_evidence r @
     (case rs_before r of Some o1 \<Rightarrow> observation_asset_refs o1 | None \<Rightarrow> []) @
     (case rs_after r of Some o1 \<Rightarrow> observation_asset_refs o1 | None \<Rightarrow> [])"

definition action_result_eq :: "action_result \<Rightarrow> action_result \<Rightarrow> bool" where
  "action_result_eq a b \<longleftrightarrow>
     rs_call_id a = rs_call_id b \<and> rs_started_at_ms a = rs_started_at_ms b \<and>
     rs_finished_at_ms a = rs_finished_at_ms b \<and> rs_output a = rs_output b \<and>
     option_eq observation_eq (rs_before a) (rs_before b) \<and>
     option_eq observation_eq (rs_after a) (rs_after b) \<and>
     rs_evidence a = rs_evidence b \<and> rs_execution a = rs_execution b"

subsection \<open>Verdicts\<close>

definition MAX_VERDICT_SUMMARY_LENGTH :: nat where
  "MAX_VERDICT_SUMMARY_LENGTH = 16 * 1024"

definition MAX_VERDICT_EVIDENCE_REFERENCES :: nat where
  "MAX_VERDICT_EVIDENCE_REFERENCES = 64"

datatype verdict_status = Pass | Fail | Unknown

record verdict =
  vd_status :: verdict_status
  vd_summary :: string
  vd_evidence :: "asset_ref list"

datatype verdict_validation_error =
    EmptySummary
  | SummaryTooLong nat nat
  | TooManyEvidenceReferences nat nat

definition verdict_validate :: "verdict \<Rightarrow> verdict_validation_error + unit" where
  "verdict_validate v =
     (if trim_is_empty (vd_summary v) then Inl EmptySummary
      else
        let summary_length = chars_count (vd_summary v) in
        if summary_length > MAX_VERDICT_SUMMARY_LENGTH
        then Inl (SummaryTooLong summary_length MAX_VERDICT_SUMMARY_LENGTH)
        else if length (vd_evidence v) > MAX_VERDICT_EVIDENCE_REFERENCES
        then Inl (TooManyEvidenceReferences (length (vd_evidence v)) MAX_VERDICT_EVIDENCE_REFERENCES)
        else Inr ())"

subsection \<open>Sessions, media streams and events\<close>

datatype session_state = Active | Ended

datatype session_outcome = Completed | Failed | Cancelled | Shutdown

record session_info =
  si_id :: session_id
  si_state :: session_state
  si_started_at_ms :: nat
  si_ended_at_ms :: "nat option"
  si_event_count :: event_sequence
  si_last_sequence :: event_sequence

datatype media_stream_kind = Screenshot | Video

record media_stream_info =
  ms_id :: media_stream_id
  ms_kind :: media_stream_kind
  ms_media_type :: string
  ms_viewport :: "viewport option"

definition media_stream_info_eq :: "media_stream_info \<Rightarrow> media_stream_info \<Rightarrow> bool" where
  "media_stream_info_eq a b \<longleftrightarrow>
     ms_id a = ms_id b \<and> ms_kind a = ms_kind b \<and> ms_media_type a = ms_media_type b \<and>
     option_eq viewport_eq (ms_viewport a) (ms_viewport b)"

record media_frame =
  mf_stream_id :: media_stream_id
  mf_frame_index :: event_sequence
  mf_key_frame :: bool
  mf_duration_ms :: "nat option"
  mf_evidence :: asset_ref

datatype action_outcome =
    ActionSucceeded action_result
  | ActionFailed error_info
  | ActionCancelled error_info
  | ActionTimedOut error_info nat

fun action_outcome_eq :: "action_outcome \<Rightarrow> action_outcome \<Rightarrow> bool" where
  "action_outcome_eq (ActionSucceeded a) (ActionSucceeded b) = action_result_eq a b"
| "action_outcome_eq (ActionFailed a) (ActionFailed b) = (a = b)"
| "action_outcome_eq (ActionCancelled a) (ActionCancelled b) = (a = b)"
| "action_outcome_eq (ActionTimedOut a m) (ActionTimedOut b n) = (a = b \<and> m = n)"
| "action_outcome_eq _ _ = False"

datatype test_event_payload =
    SessionStarted
  | SessionEnded session_outcome "string option"
  | ObservationCaptured observation
  | ActionStarted recorded_action_call
  | ActionCompleted uuid action_outcome
  | MediaStreamStarted media_stream_info
  | MediaFrameCaptured media_frame
  | MediaStreamEnded media_stream_id nat
  | VerdictRecorded verdict
  | ErrorEvent error_info

definition payload_eq :: "test_event_payload \<Rightarrow> test_event_payload \<Rightarrow> bool" where
  "payload_eq p q =
     (case p of
        SessionStarted \<Rightarrow> (case q of SessionStarted \<Rightarrow> True | _ \<Rightarrow> False)
      | SessionEnded a r \<Rightarrow> (case q of SessionEnded b s \<Rightarrow> a = b \<and> r = s | _ \<Rightarrow> False)
      | ObservationCaptured a \<Rightarrow> (case q of ObservationCaptured b \<Rightarrow> observation_eq a b | _ \<Rightarrow> False)
      | ActionStarted a \<Rightarrow> (case q of ActionStarted b \<Rightarrow> a = b | _ \<Rightarrow> False)
      | ActionCompleted i a \<Rightarrow>
          (case q of ActionCompleted j b \<Rightarrow> i = j \<and> action_outcome_eq a b | _ \<Rightarrow> False)
      | MediaStreamStarted a \<Rightarrow>
          (case q of MediaStreamStarted b \<Rightarrow> media_stream_info_eq a b | _ \<Rightarrow> False)
      | MediaFrameCaptured a \<Rightarrow> (case q of MediaFrameCaptured b \<Rightarrow> a = b | _ \<Rightarrow> False)
      | MediaStreamEnded a m \<Rightarrow> (case q of MediaStreamEnded b n \<Rightarrow> a = b \<and> m = n | _ \<Rightarrow> False)
      | VerdictRecorded a \<Rightarrow> (case q of VerdictRecorded b \<Rightarrow> a = b | _ \<Rightarrow> False)
      | ErrorEvent a \<Rightarrow> (case q of ErrorEvent b \<Rightarrow> a = b | _ \<Rightarrow> False))"

definition has_ui_fields :: "observation \<Rightarrow> bool" where
  "has_ui_fields o1 \<longleftrightarrow> ob_ui_snapshot o1 \<noteq> None \<or> ob_ui_snapshot_omission o1 \<noteq> None"

fun required_protocol_minor :: "test_event_payload \<Rightarrow> nat" where
  "required_protocol_minor (MediaStreamStarted _) = 4"
| "required_protocol_minor (MediaFrameCaptured _) = 4"
| "required_protocol_minor (MediaStreamEnded _ _) = 4"
| "required_protocol_minor (ObservationCaptured o1) = (if has_ui_fields o1 then 5 else 0)"
| "required_protocol_minor (ActionCompleted _ (ActionSucceeded r)) =
     (if rs_execution r \<noteq> None
         \<or> list_ex has_ui_fields
             ((case rs_before r of Some o1 \<Rightarrow> [o1] | None \<Rightarrow> []) @
              (case rs_after r of Some o1 \<Rightarrow> [o1] | None \<Rightarrow> []))
      then 5 else 0)"
| "required_protocol_minor _ = 0"

record test_event =
  te_event_id :: event_id
  te_session_id :: session_id
  te_sequence :: event_sequence
  te_request_id :: "rpc_id option"
  te_device_id :: "device_id option"
  te_at_ms :: nat
  te_payload :: test_event_payload

record session_export =
  sx_session :: session_info
  sx_events :: "test_event list"

subsection \<open>Lemmas on the derived equality\<close>

lemma viewport_eqD: "viewport_eq v w \<Longrightarrow> v = w"
  by (cases v; cases w) (simp add: viewport_eq_def f64_eq_iff)

lemma option_eqD: "option_eq eq a b \<Longrightarrow> (\<And>x y. eq x y \<Longrightarrow> x = y) \<Longrightarrow> a = b"
  by (cases a; cases b) auto

lemma observation_eqD: "observation_eq a b \<Longrightarrow> a = b"
  by (cases a; cases b) (simp add: observation_eq_def viewport_eqD)

lemma action_result_eqD: "action_result_eq a b \<Longrightarrow> a = b"
  by (cases a; cases b) (auto simp: action_result_eq_def dest: option_eqD observation_eqD)

lemma media_stream_info_eqD: "media_stream_info_eq a b \<Longrightarrow> a = b"
  by (cases a; cases b) (auto simp: media_stream_info_eq_def dest: option_eqD viewport_eqD)

lemma action_outcome_eqD: "action_outcome_eq a b \<Longrightarrow> a = b"
  by (cases "(a, b)" rule: action_outcome_eq.cases) (auto dest: action_result_eqD)

lemma payload_eqD: "payload_eq p q \<Longrightarrow> p = q"
  by (cases p)
    (simp_all add: payload_eq_def observation_eqD action_outcome_eqD media_stream_info_eqD
       split: test_event_payload.splits)

lemma payload_eq_media [simp]:
  "payload_eq (MediaFrameCaptured f) (MediaFrameCaptured f)"
  "payload_eq (MediaStreamEnded i n) (MediaStreamEnded i n)"
  by (simp_all add: payload_eq_def)

lemma viewport_eq_refl: "viewport_eq v v \<longleftrightarrow> vp_scale_factor v \<noteq> NaN"
  by (simp add: viewport_eq_def f64_eq_iff)

end
