(* ===== verification/Evidence.thy ===== *)
theory Evidence
  imports Wire_Events
begin

text \<open>
  The evidence layer of \<open>crates/core/src/evidence.rs\<close>: canonical SHA-256 digests and asset
  references, media types, the errors of an Evidence Store and their wire classification, and
  the Session-bound writer whose receipts are reconciled with what a Driver returns.

  The Evidence Store behind the writer is a trait: its \<open>put\<close> and \<open>attach\<close> are arguments of the
  writer's operations, over a store state of any type.
\<close>

definition SHA256_HEX_LENGTH :: nat where
  "SHA256_HEX_LENGTH = 64"

definition ASSET_ID_PREFIX :: string where
  "ASSET_ID_PREFIX = ''sha256:''"

definition ASSET_URI_PREFIX :: string where
  "ASSET_URI_PREFIX = ''devicerail://assets/sha256/''"

definition MAX_MEDIA_TYPE_LENGTH :: nat where
  "MAX_MEDIA_TYPE_LENGTH = 255"

type_synonym sha256_digest = string

datatype evidence_error =
    EvidenceUnavailable
  | EvidenceInvalidConfiguration string
  | EvidenceCorruptStore string
  | EvidenceInvalidReference string
  | EvidenceInvalidDigest string
  | EvidenceInvalidMediaType string
  | EvidenceEmptyContent
  | EvidenceDeclaredSizeMismatch nat nat
  | EvidenceDigestMismatch sha256_digest sha256_digest
  | EvidenceNotFound sha256_digest
  | EvidenceNotAttached session_id sha256_digest
  | EvidenceCorrupt sha256_digest sha256_digest
  | EvidenceCorruptMetadata sha256_digest string
  | EvidenceMediaTypeConflict sha256_digest string string
  | EvidenceUnsafePath string
  | EvidenceTooLarge nat nat
  | EvidenceReferenceLimit nat
  | EvidenceSessionClosed session_id
  | EvidenceStoreBusy
  | EvidenceUnsupportedStoreVersion nat
  | EvidenceIo string string
  | EvidenceInternal string

subsection \<open>Media types\<close>

definition valid_media_part :: "string \<Rightarrow> bool" where
  "valid_media_part part \<longleftrightarrow>
     part \<noteq> [] \<and>
     list_all (\<lambda>c. is_ascii_graphic c \<and> \<not> is_ascii_whitespace c \<and> c \<noteq> CHR ''/'') part"

definition validate_media_type :: "string \<Rightarrow> evidence_error + unit" where
  "validate_media_type media_type =
     (if length media_type > MAX_MEDIA_TYPE_LENGTH then Inl (EvidenceInvalidMediaType media_type)
      else
        case split_once CHR ''/'' media_type of
          None \<Rightarrow> Inl (EvidenceInvalidMediaType media_type)
        | Some (kind, subtype) \<Rightarrow>
            if valid_media_part kind \<and> valid_media_part subtype then Inr ()
            else Inl (EvidenceInvalidMediaType media_type))"

subsection \<open>Digests and asset references\<close>

definition is_lower_hex :: "char \<Rightarrow> bool" where
  "is_lower_hex c \<longleftrightarrow> is_ascii_digit c \<or> (97 \<le> byte_of c \<and> byte_of c \<le> 102)"

definition digest_parse :: "string \<Rightarrow> evidence_error + sha256_digest" where
  "digest_parse v =
     (if length v = SHA256_HEX_LENGTH \<and> list_all is_lower_hex v then Inr v
      else Inl (EvidenceInvalidDigest v))"

definition asset_id :: "sha256_digest \<Rightarrow> string" where
  "asset_id d = ASSET_ID_PREFIX @ d"

definition asset_uri :: "sha256_digest \<Rightarrow> string" where
  "asset_uri d = ASSET_URI_PREFIX @ d"

definition from_asset_ref :: "asset_ref \<Rightarrow> evidence_error + sha256_digest" where
  "from_asset_ref asset =
     res_bind (ok_or (ar_sha256 asset) (EvidenceInvalidReference ''sha256 is required'')) (\<lambda>raw_digest.
     res_bind (res_map_err (\<lambda>_. EvidenceInvalidReference ''sha256 is not canonical lowercase hex'')
                 (digest_parse raw_digest)) (\<lambda>digest.
       if ar_id asset \<noteq> asset_id digest
       then Inl (EvidenceInvalidReference ''id does not match sha256'')
       else if ar_uri asset \<noteq> asset_uri digest
       then Inl (EvidenceInvalidReference ''uri is not the canonical DeviceRail asset URI'')
       else res_bind (validate_media_type (ar_media_type asset)) (\<lambda>_. Inr digest)))"

record evidence_metadata =
  em_digest :: sha256_digest
  em_media_type :: string
  em_byte_length :: nat
  em_created_at_ms :: nat
  em_reference_count :: nat

definition evidence_metadata_new ::
  "sha256_digest \<Rightarrow> string \<Rightarrow> nat \<Rightarrow> nat \<Rightarrow> nat \<Rightarrow> evidence_error + evidence_metadata" where
  "evidence_metadata_new digest media_type byte_length created_at_ms reference_count =
     res_bind (validate_media_type media_type) (\<lambda>_.
       Inr \<lparr>em_digest = digest, em_media_type = media_type, em_byte_length = byte_length,
            em_created_at_ms = created_at_ms, em_reference_count = reference_count\<rparr>)"

record put_evidence =
  pe_session_id :: session_id
  pe_media_type :: string
  pe_expected_sha256 :: "sha256_digest option"
  pe_declared_size_bytes :: "nat option"

definition put_evidence_new :: "session_id \<Rightarrow> string \<Rightarrow> evidence_error + put_evidence" where
  "put_evidence_new session_id media_type =
     res_bind (validate_media_type media_type) (\<lambda>_.
       Inr \<lparr>pe_session_id = session_id, pe_media_type = media_type,
            pe_expected_sha256 = None, pe_declared_size_bytes = None\<rparr>)"

definition with_expected_sha256 :: "sha256_digest \<Rightarrow> put_evidence \<Rightarrow> put_evidence" where
  "with_expected_sha256 digest p = p\<lparr>pe_expected_sha256 := Some digest\<rparr>"

definition with_declared_size_bytes :: "nat \<Rightarrow> put_evidence \<Rightarrow> put_evidence" where
  "with_declared_size_bytes size_bytes p = p\<lparr>pe_declared_size_bytes := Some size_bytes\<rparr>"

record stored_evidence =
  st_metadata :: evidence_metadata
  st_deduplicated :: bool

definition stored_asset_ref :: "stored_evidence \<Rightarrow> asset_ref" where
  "stored_asset_ref s =
     (let digest = em_digest (st_metadata s) in
      \<lparr>ar_id = asset_id digest, ar_media_type = em_media_type (st_metadata s),
       ar_uri = asset_uri digest, ar_sha256 = Some digest\<rparr>)"

record gc_policy =
  gp_unreferenced_before_ms :: nat
  gp_max_assets :: "nat option"
  gp_max_bytes :: "nat option"
  gp_dry_run :: bool

definition gc_policy_dry_run :: "nat \<Rightarrow> gc_policy" where
  "gc_policy_dry_run before =
     \<lparr>gp_unreferenced_before_ms = before, gp_max_assets = None, gp_max_bytes = None, gp_dry_run = True\<rparr>"

definition gc_policy_delete :: "nat \<Rightarrow> gc_policy" where
  "gc_policy_delete before =
     \<lparr>gp_unreferenced_before_ms = before, gp_max_assets = None, gp_max_bytes = None, gp_dry_run = False\<rparr>"

subsection \<open>Wire classification of errors\<close>

text \<open>\<open>json!\<close> objects are built by insertion into a \<open>BTreeMap\<close>; \<open>uuid_str\<close> renders a UUID.\<close>

definition json_object :: "(string \<times> json) list \<Rightarrow> json" where
  "json_object kvs = JObject (fold (\<lambda>(k, v). bt_insert k v) kvs [])"

definition json_u64 :: "nat \<Rightarrow> json" where
  "json_u64 n = JNumber (PosInt n)"

definition evidence_error_class ::
  "(uuid \<Rightarrow> string) \<Rightarrow> evidence_error \<Rightarrow> string \<times> string \<times> bool \<times> json option" where
  "evidence_error_class uuid_str e =
     (case e of
        EvidenceUnavailable \<Rightarrow>
          (''evidence_store_unavailable'', ''evidence store is not configured for this runtime'', False, None)
      | EvidenceInvalidConfiguration _ \<Rightarrow>
          (''invalid_evidence_store_configuration'', ''evidence store configuration is invalid'', False, None)
      | EvidenceCorruptStore _ \<Rightarrow> (''evidence_corrupt'', ''evidence store is corrupt'', False, None)
      | EvidenceInvalidReference reason \<Rightarrow>
          (''invalid_evidence_reference'', ''evidence reference is invalid'', False,
           Some (json_object [(''reason'', JString reason)]))
      | EvidenceInvalidDigest v \<Rightarrow>
          (''invalid_evidence_digest'', ''evidence digest is invalid'', False,
           Some (json_object [(''digest'', JString v)]))
      | EvidenceInvalidMediaType media_type \<Rightarrow>
          (''invalid_evidence_media_type'', ''evidence media type is invalid'', False,
           Some (json_object [(''mediaType'', JString media_type)]))
      | EvidenceEmptyContent \<Rightarrow> (''empty_evidence'', ''evidence content is empty'', False, None)
      | EvidenceDeclaredSizeMismatch declared actual \<Rightarrow>
          (''evidence_size_mismatch'', ''evidence size does not match its declaration'', False,
           Some (json_object [(''declaredBytes'', json_u64 declared), (''actualBytes'', json_u64 actual)]))
      | EvidenceDigestMismatch expected actual \<Rightarrow>
          (''evidence_digest_mismatch'', ''evidence digest does not match its declaration'', False,
           Some (json_object [(''expected'', JString expected), (''actual'', JString actual)]))
      | EvidenceNotFound digest \<Rightarrow>
          (''evidence_not_found'', ''evidence was not found'', False,
           Some (json_object [(''digest'', JString digest)]))
      | EvidenceNotAttached session_id digest \<Rightarrow>
          (''evidence_not_attached'', ''evidence is not attached to this session'', False,
           Some (json_object [(''sessionId'', JString (uuid_str session_id)), (''digest'', JString digest)]))
      | EvidenceCorrupt expected actual \<Rightarrow>
          (''evidence_corrupt'', ''evidence content is corrupt'', False,
           Some (json_object [(''expected'', JString expected), (''actual'', JString actual)]))
      | EvidenceCorruptMetadata digest _ \<Rightarrow>
          (''evidence_corrupt'', ''evidence metadata is corrupt'', False,
           Some (json_object [(''digest'', JString digest)]))
      | EvidenceMediaTypeConflict digest existing requested \<Rightarrow>
          (''evidence_media_type_conflict'', ''evidence media type conflicts with stored metadata'', False,
           Some (json_object [(''digest'', JString digest), (''existing'', JString existing),
                              (''requested'', JString requested)]))
      | EvidenceUnsafePath _ \<Rightarrow>
          (''unsafe_evidence_path'', ''evidence storage path is unsafe'', False, None)
      | EvidenceTooLarge actual maximum \<Rightarrow>
          (''evidence_too_large'', ''evidence exceeds the configured size limit'', False,
           Some (json_object [(''actualBytes'', json_u64 actual), (''maximumBytes'', json_u64 maximum)]))
      | EvidenceReferenceLimit maximum \<Rightarrow>
          (''evidence_reference_limit'', ''session evidence reference limit exceeded'', False,
           Some (json_object [(''maximum'', json_u64 maximum)]))
      | EvidenceSessionClosed session_id \<Rightarrow>
          (''evidence_session_closed'', ''evidence session is already closed'', False,
           Some (json_object [(''sessionId'', JString (uuid_str session_id))]))
      | EvidenceStoreBusy \<Rightarrow> (''evidence_store_busy'', ''evidence store is busy'', True, None)
      | EvidenceUnsupportedStoreVersion version \<Rightarrow>
          (''unsupported_evidence_store_version'', ''evidence store version is unsupported'', False,
           Some (json_object [(''version'', json_u64 version)]))
      | EvidenceIo _ _ \<Rightarrow> (''evidence_io_error'', ''evidence store I/O failed'', True, None)
      | EvidenceInternal _ \<Rightarrow> (''evidence_store_error'', ''evidence store failed'', True, None))"

definition evidence_error_info :: "(uuid \<Rightarrow> string) \<Rightarrow> evidence_error \<Rightarrow> error_info" where
  "evidence_error_info uuid_str e =
     (case evidence_error_class uuid_str e of
        (code, message, retryable, details) \<Rightarrow>
          \<lparr>ei_code = code, ei_message = message, ei_retryable = retryable, ei_details = details\<rparr>)"

subsection \<open>The Session-bound writer\<close>

text \<open>
  A receipt holds the four fields of an \<open>AssetRef\<close>; the ledger is a set of receipts, kept as a
  list without duplicates. A store operation maps the store's state to a result and a new state.
\<close>

record session_evidence_writer =
  sw_session_id :: session_id
  sw_receipts :: "asset_ref list"

type_synonym ('i, 's) store_put = "put_evidence \<Rightarrow> 'i \<Rightarrow> 's \<Rightarrow> (evidence_error + stored_evidence) \<times> 's"
type_synonym 's store_attach = "session_id \<Rightarrow> asset_ref \<Rightarrow> 's \<Rightarrow> (evidence_error + stored_evidence) \<times> 's"

definition evidence_writer_new :: "session_id \<Rightarrow> session_evidence_writer" where
  "evidence_writer_new session_id = \<lparr>sw_session_id = session_id, sw_receipts = []\<rparr>"

definition writer_record :: "stored_evidence \<Rightarrow> session_evidence_writer \<Rightarrow> session_evidence_writer" where
  "writer_record stored w = w\<lparr>sw_receipts := List.insert (stored_asset_ref stored) (sw_receipts w)\<rparr>"

definition writer_put ::
  "('i, 's) store_put \<Rightarrow> string \<Rightarrow> 'i \<Rightarrow> session_evidence_writer \<Rightarrow> 's \<Rightarrow>
   (evidence_error + stored_evidence) \<times> session_evidence_writer \<times> 's" where
  "writer_put put media_type input w s =
     (case put_evidence_new (sw_session_id w) media_type of
        Inl e \<Rightarrow> (Inl e, w, s)
      | Inr request \<Rightarrow>
          (case put request input s of
             (Inl e, s') \<Rightarrow> (Inl e, w, s')
           | (Inr stored, s') \<Rightarrow> (Inr stored, writer_record stored w, s')))"

definition writer_put_with_declared_size ::
  "('i, 's) store_put \<Rightarrow> string \<Rightarrow> nat \<Rightarrow> 'i \<Rightarrow> session_evidence_writer \<Rightarrow> 's \<Rightarrow>
   (evidence_error + stored_evidence) \<times> session_evidence_writer \<times> 's" where
  "writer_put_with_declared_size put media_type size_bytes input w s =
     (case put_evidence_new (sw_session_id w) media_type of
        Inl e \<Rightarrow> (Inl e, w, s)
      | Inr request \<Rightarrow>
          (case put (with_declared_size_bytes size_bytes request) input s of
             (Inl e, s') \<Rightarrow> (Inl e, w, s')
           | (Inr stored, s') \<Rightarrow> (Inr stored, writer_record stored w, s')))"

text \<open>
  \<open>serde_json::to_vec\<close> and the rendering of a contract error are arguments of the UI path.
\<close>

definition encode_ui_snapshot ::
  "(ui_contract_error \<Rightarrow> string) \<Rightarrow> (ui_snapshot \<Rightarrow> string + string) \<Rightarrow> ui_snapshot \<Rightarrow>
   evidence_error + string" where
  "encode_ui_snapshot show_error to_vec snapshot =
     res_bind (res_map_err (\<lambda>e. EvidenceInvalidReference (show_error e)) (ui_snapshot_validate snapshot)) (\<lambda>_.
     res_bind (res_map_err (\<lambda>e. EvidenceInternal (''serialize UI snapshot: '' @ e)) (to_vec snapshot)) (\<lambda>bytes.
       let actual = length bytes in
       if actual = 0 \<or> actual > MAX_UI_SNAPSHOT_BYTES
       then Inl (EvidenceTooLarge actual MAX_UI_SNAPSHOT_BYTES)
       else Inr bytes))"

definition writer_put_ui_snapshot ::
  "(ui_contract_error \<Rightarrow> string) \<Rightarrow> (ui_snapshot \<Rightarrow> string + string) \<Rightarrow> (string, 's) store_put \<Rightarrow>
   ui_snapshot \<Rightarrow> session_evidence_writer \<Rightarrow> 's \<Rightarrow>
   (evidence_error + stored_evidence \<times> nat) \<times> session_evidence_writer \<times> 's" where
  "writer_put_ui_snapshot show_error to_vec put snapshot w s =
     (case encode_ui_snapshot show_error to_vec snapshot of
        Inl e \<Rightarrow> (Inl e, w, s)
      | Inr bytes \<Rightarrow>
          (case writer_put_with_declared_size put UI_SNAPSHOT_MEDIA_TYPE (length bytes) bytes w s of
             (Inl e, w', s') \<Rightarrow> (Inl e, w', s')
           | (Inr stored, w', s') \<Rightarrow> (Inr (stored, length bytes), w', s')))"

definition writer_attach ::
  "'s store_attach \<Rightarrow> asset_ref \<Rightarrow> session_evidence_writer \<Rightarrow> 's \<Rightarrow>
   (evidence_error + stored_evidence) \<times> session_evidence_writer \<times> 's" where
  "writer_attach attach_asset asset w s =
     (case attach_asset (sw_session_id w) asset s of
        (Inl e, s') \<Rightarrow> (Inl e, w, s')
      | (Inr stored, s') \<Rightarrow> (Inr stored, writer_record stored w, s'))"

definition receipts_match :: "asset_ref list \<Rightarrow> session_evidence_writer \<Rightarrow> bool" where
  "receipts_match returned w \<longleftrightarrow>
     list_all (\<lambda>a. a \<in> set (sw_receipts w)) returned \<and>
     list_all (\<lambda>a. a \<in> set returned) (sw_receipts w)"

text \<open>The store of a runtime that has none: every operation fails and changes nothing.\<close>

definition unavailable_put :: "('i, 's) store_put" where
  "unavailable_put request input s = (Inl EvidenceUnavailable, s)"

definition unavailable_attach :: "'s store_attach" where
  "unavailable_attach session_id asset s = (Inl EvidenceUnavailable, s)"

definition unavailable_verify_session_reference ::
  "session_id \<Rightarrow> asset_ref \<Rightarrow> 's \<Rightarrow> (evidence_error + evidence_metadata) \<times> 's" where
  "unavailable_verify_session_reference session_id asset s = (Inl EvidenceUnavailable, s)"

subsection \<open>Lemmas\<close>

lemma validate_media_type_iff:
  "validate_media_type m = Inr () \<longleftrightarrow>
     length m \<le> MAX_MEDIA_TYPE_LENGTH \<and>
     (\<exists>kind subtype. m = kind @ CHR ''/'' # subtype \<and> valid_media_part kind \<and> valid_media_part subtype)"
proof -
  have no_slash: "valid_media_part part \<Longrightarrow> CHR ''/'' \<notin> set part" for part
    by (auto simp: valid_media_part_def list_all_iff)
  show ?thesis
  proof (cases "split_once CHR ''/'' m")
    case None
    then have "CHR ''/'' \<notin> set m" by (simp add: split_once_None)
    with None show ?thesis by (auto simp: validate_media_type_def)
  next
    case (Some ks)
    then obtain kind subtype where ks: "ks = (kind, subtype)" and m: "m = kind @ CHR ''/'' # subtype"
      and kind: "CHR ''/'' \<notin> set kind"
      by (cases ks) (auto simp: split_once_Some)
    have unique: "kind' = kind \<and> subtype' = subtype"
      if "m = kind' @ CHR ''/'' # subtype'" "valid_media_part kind'" for kind' subtype'
      using that Some ks no_slash split_once_Some by (metis option.inject prod.inject)
    have "validate_media_type m = Inr () \<longleftrightarrow>
            length m \<le> MAX_MEDIA_TYPE_LENGTH \<and> valid_media_part kind \<and> valid_media_part subtype"
      by (simp add: validate_media_type_def Some ks)
    with m unique show ?thesis by blast
  qed
qed

lemma digest_parse_eq_Inr:
  "digest_parse v = Inr d \<longleftrightarrow> d = v \<and> length v = SHA256_HEX_LENGTH \<and> list_all is_lower_hex v"
  by (auto simp: digest_parse_def)

lemma put_evidence_new_is_ok: "is_ok (put_evidence_new s m) \<longleftrightarrow> validate_media_type m = Inr ()"
  by (auto simp: put_evidence_new_def is_ok_iff res_bind_eq_Inr)

lemma writer_record_receipts [simp]:
  "set (sw_receipts (writer_record stored w)) = insert (stored_asset_ref stored) (set (sw_receipts w))"
  "sw_session_id (writer_record stored w) = sw_session_id w"
  by (simp_all add: writer_record_def)

lemma receipts_match_iff: "receipts_match returned w \<longleftrightarrow> set returned = set (sw_receipts w)"
  by (auto simp: receipts_match_def list_all_iff)

lemma evidence_error_info_fixed_text:
  "ei_message (evidence_error_info u (EvidenceIo a b)) = ei_message (evidence_error_info u' (EvidenceIo a' b'))"
  "ei_details (evidence_error_info u (EvidenceUnsafePath path)) = None"
  by (simp_all add: evidence_error_info_def evidence_error_class_def)

subsection \<open>Canonical references\<close>

text \<open>
  C15. \<open>Sha256Digest::from_asset_ref\<close> accepts exactly the canonical references: it returns \<open>d\<close>
  when \<open>d\<close> is 64 lowercase hexadecimal digits, the media type is valid, and the id, the URI and
  the recorded digest of the reference are the ones \<open>StoredEvidence::asset_ref\<close> derives from \<open>d\<close>.
\<close>

theorem from_asset_ref_iff_canonical:
  "from_asset_ref a = Inr d \<longleftrightarrow>
     length d = SHA256_HEX_LENGTH \<and> list_all is_lower_hex d \<and>
     validate_media_type (ar_media_type a) = Inr () \<and>
     a = stored_asset_ref \<lparr>st_metadata = \<lparr>em_digest = d, em_media_type = ar_media_type a,
           em_byte_length = n, em_created_at_ms = t, em_reference_count = c\<rparr>, st_deduplicated = b\<rparr>"
proof -
  have "from_asset_ref a = Inr d \<longleftrightarrow>
     length d = SHA256_HEX_LENGTH \<and> list_all is_lower_hex d \<and>
     validate_media_type (ar_media_type a) = Inr () \<and>
     ar_sha256 a = Some d \<and> ar_id a = asset_id d \<and> ar_uri a = asset_uri d"
    by (cases "ar_sha256 a")
      (auto simp: from_asset_ref_def res_bind_eq_Inr res_map_err_def digest_parse_def split: if_splits)
  then show ?thesis
    by (cases a) (auto simp: stored_asset_ref_def Let_def)
qed

text \<open>
  Every call a Driver can make on the writer during one operation, in order, with the evidence
  each successful call stored.
\<close>

datatype 'i writer_call = CallPut string 'i | CallPutSized string nat 'i | CallAttach asset_ref

fun writer_run ::
  "('i, 's) store_put \<Rightarrow> 's store_attach \<Rightarrow> 'i writer_call list \<Rightarrow> session_evidence_writer \<Rightarrow> 's \<Rightarrow>
   stored_evidence list \<times> session_evidence_writer \<times> 's" where
  "writer_run put att [] w s = ([], w, s)"
| "writer_run put att (c # cs) w s =
     (case (case c of
              CallPut m i \<Rightarrow> writer_put put m i w s
            | CallPutSized m n i \<Rightarrow> writer_put_with_declared_size put m n i w s
            | CallAttach a \<Rightarrow> writer_attach att a w s) of
        (r, w', s') \<Rightarrow>
          (case writer_run put att cs w' s' of
             (issued, w'', s'') \<Rightarrow> (case r of Inl _ \<Rightarrow> issued | Inr stored \<Rightarrow> stored # issued, w'', s'')))"

lemma writer_call_receipts:
  "writer_put put m i w s = (r, w', s') \<Longrightarrow>
     w' = (case r of Inl _ \<Rightarrow> w | Inr stored \<Rightarrow> writer_record stored w)"
  "writer_put_with_declared_size put m n i w s = (r, w', s') \<Longrightarrow>
     w' = (case r of Inl _ \<Rightarrow> w | Inr stored \<Rightarrow> writer_record stored w)"
  "writer_attach att a w s = (r, w', s') \<Longrightarrow>
     w' = (case r of Inl _ \<Rightarrow> w | Inr stored \<Rightarrow> writer_record stored w)"
  by (auto simp: writer_put_def writer_put_with_declared_size_def writer_attach_def
      split: sum.splits prod.splits)

lemma writer_run_receipts:
  "writer_run put att calls w s = (issued, w', s') \<Longrightarrow>
   set (sw_receipts w') = set (sw_receipts w) \<union> stored_asset_ref ` set issued"
proof (induction calls arbitrary: w s issued w' s')
  case (Cons c cs)
  obtain r w1 s1 where call: "(case c of
              CallPut m i \<Rightarrow> writer_put put m i w s
            | CallPutSized m n i \<Rightarrow> writer_put_with_declared_size put m n i w s
            | CallAttach a \<Rightarrow> writer_attach att a w s) = (r, w1, s1)"
    by (metis prod_cases3)
  obtain rest w2 s2 where rest: "writer_run put att cs w1 s1 = (rest, w2, s2)"
    by (metis prod_cases3)
  have w1: "w1 = (case r of Inl _ \<Rightarrow> w | Inr stored \<Rightarrow> writer_record stored w)"
    using call by (cases c) (auto dest: writer_call_receipts)
  have "w' = w2" and "issued = (case r of Inl _ \<Rightarrow> rest | Inr stored \<Rightarrow> stored # rest)"
    using Cons.prems by (simp_all only: writer_run.simps call rest prod.case prod.inject)
  with Cons.IH[OF rest] w1 show ?case
    by (cases r) auto
qed simp

text \<open>
  Whatever store is behind the writer and whatever calls a Driver makes, \<open>receipts_match\<close>
  accepts a list of returned references exactly when, as a set, they are the references of the
  successful \<open>put\<close> and \<open>attach\<close> calls of this operation: nothing forged and nothing withheld.
\<close>

lemma receipts_match_exact:
  "case writer_run put att calls (evidence_writer_new sid) s of
     (issued, w, s') \<Rightarrow>
       receipts_match returned w \<longleftrightarrow> set returned = stored_asset_ref ` set issued"
proof -
  obtain issued w s' where run: "writer_run put att calls (evidence_writer_new sid) s = (issued, w, s')"
    by (metis prod_cases3)
  from writer_run_receipts[OF run] show ?thesis
    by (simp add: run receipts_match_iff) (simp add: evidence_writer_new_def)
qed

end
