(* ===== verification/Event_Stream.thy ===== *)
theory Event_Stream
  imports Wire_Events
begin

text \<open>
  Event subscriptions, \<open>crates/core/src/event_stream.rs\<close>: the limits of the stream hub, its
  errors, terminals and signals, and \<open>EventSubscription\<close>, the reader that replays a snapshot,
  follows the live tail and ends with one terminal.

  The tail is a receiver of \<open>tokio::sync::broadcast\<close>. What \<open>try_recv\<close> and \<open>recv\<close> return is an
  argument of \<open>subscription_next\<close>; \<open>recv\<close> is only consulted where the code awaits it. A failed
  \<open>expect\<close> is the value \<open>Panicked\<close>.
\<close>

definition MAX_EVENT_STREAM_REPLAY_EVENTS :: nat where
  "MAX_EVENT_STREAM_REPLAY_EVENTS = 100000"

definition MAX_EVENT_STREAM_TAIL_EVENTS :: nat where
  "MAX_EVENT_STREAM_TAIL_EVENTS = 4096"

definition MAX_EVENT_STREAM_SUBSCRIBERS_PER_SESSION :: nat where
  "MAX_EVENT_STREAM_SUBSCRIBERS_PER_SESSION = 128"

record event_stream_config =
  ec_max_replay_events :: nat
  ec_tail_capacity :: nat
  ec_max_subscribers_per_session :: nat

datatype event_stream_error =
    StreamInvalidConfig string nat nat
  | StreamSessionNotFound session_id
  | StreamSessionDeleted session_id
  | StreamCursorAhead session_id event_sequence event_sequence
  | StreamReplayLimitExceeded session_id nat nat
  | StreamTooManySubscribers session_id nat
  | StreamStoreShutdown
  | StreamInternal string

definition validate_limit :: "string \<Rightarrow> nat \<Rightarrow> nat \<Rightarrow> event_stream_error + unit" where
  "validate_limit field v maximum =
     (if v = 0 \<or> v > maximum then Inl (StreamInvalidConfig field v maximum) else Inr ())"

definition event_stream_config_new :: "nat \<Rightarrow> nat \<Rightarrow> nat \<Rightarrow> event_stream_error + event_stream_config" where
  "event_stream_config_new max_replay_events tail_capacity max_subscribers =
     res_bind (validate_limit ''maxReplayEvents'' max_replay_events MAX_EVENT_STREAM_REPLAY_EVENTS) (\<lambda>_.
     res_bind (validate_limit ''tailCapacity'' tail_capacity MAX_EVENT_STREAM_TAIL_EVENTS) (\<lambda>_.
     res_bind (validate_limit ''maxSubscribersPerSession'' max_subscribers
                 MAX_EVENT_STREAM_SUBSCRIBERS_PER_SESSION) (\<lambda>_.
       Inr \<lparr>ec_max_replay_events = max_replay_events, ec_tail_capacity = tail_capacity,
            ec_max_subscribers_per_session = max_subscribers\<rparr>)))"

definition event_stream_config_default :: event_stream_config where
  "event_stream_config_default =
     \<lparr>ec_max_replay_events = MAX_EVENT_STREAM_REPLAY_EVENTS,
      ec_tail_capacity = MAX_EVENT_STREAM_TAIL_EVENTS,
      ec_max_subscribers_per_session = MAX_EVENT_STREAM_SUBSCRIBERS_PER_SESSION\<rparr>"

datatype event_stream_terminal =
    TerminalSessionEnded event_sequence
  | TerminalSessionDeleted event_sequence
  | TerminalTailLagged "event_sequence option" nat
  | TerminalStoreShutdown
  | TerminalSessionMismatch session_id session_id
  | TerminalSequenceGap nat event_sequence

datatype event_stream_item = ItemEvent test_event | ItemTerminal event_stream_terminal

datatype event_stream_signal =
    SignalEvent test_event
  | SignalSessionDeleted session_id event_sequence
  | SignalStoreShutdown

record event_subscription =
  sub_session_id :: session_id
  sub_snapshot :: "test_event list"
  sub_tail :: bool
  sub_last_delivered :: "event_sequence option"
  sub_replay_through :: event_sequence
  sub_session_state :: session_state
  sub_known_ended :: "event_sequence option"
  sub_done :: bool

definition event_subscription_new ::
  "session_id \<Rightarrow> test_event list \<Rightarrow> event_sequence option \<Rightarrow> event_sequence \<Rightarrow> session_state \<Rightarrow>
   event_subscription" where
  "event_subscription_new session_id snapshot after replay_through session_state =
     \<lparr>sub_session_id = session_id, sub_snapshot = snapshot, sub_tail = True,
      sub_last_delivered = after, sub_replay_through = replay_through,
      sub_session_state = session_state,
      sub_known_ended = (if session_state = Ended then Some replay_through else None),
      sub_done = False\<rparr>"

definition finish :: "event_stream_terminal \<Rightarrow> event_subscription \<Rightarrow> event_stream_item \<times> event_subscription" where
  "finish terminal s = (ItemTerminal terminal, s\<lparr>sub_done := True, sub_snapshot := [], sub_tail := False\<rparr>)"

definition is_session_ended :: "test_event_payload \<Rightarrow> bool" where
  "is_session_ended p = (case p of SessionEnded _ _ \<Rightarrow> True | _ \<Rightarrow> False)"

definition validate_event :: "test_event \<Rightarrow> event_subscription \<Rightarrow> event_stream_item \<times> event_subscription" where
  "validate_event event s =
     (if te_session_id event \<noteq> sub_session_id s
      then finish (TerminalSessionMismatch (sub_session_id s) (te_session_id event)) s
      else
        let expected = (case sub_last_delivered s of
                          None \<Rightarrow> FIRST
                        | Some sequence \<Rightarrow> saturating_add_u64 sequence 1) in
        if te_sequence event \<noteq> expected
        then finish (TerminalSequenceGap expected (te_sequence event)) s
        else
          let s1 = s\<lparr>sub_last_delivered := Some (te_sequence event)\<rparr>;
              s2 = (if is_session_ended (te_payload event)
                    then s1\<lparr>sub_known_ended := Some (te_sequence event)\<rparr> else s1)
          in (ItemEvent event, s2))"

definition handle_signal ::
  "event_stream_signal \<Rightarrow> event_subscription \<Rightarrow> event_stream_item \<times> event_subscription" where
  "handle_signal signal s =
     (case signal of
        SignalEvent event \<Rightarrow> validate_event event s
      | SignalSessionDeleted session_id last_sequence \<Rightarrow>
          if session_id \<noteq> sub_session_id s
          then finish (TerminalSessionMismatch (sub_session_id s) session_id) s
          else finish (TerminalSessionDeleted last_sequence) s
      | SignalStoreShutdown \<Rightarrow> finish TerminalStoreShutdown s)"

datatype try_recv_result = TryOk event_stream_signal | TryLagged nat | TryClosed | TryEmpty

datatype recv_result = RecvOk event_stream_signal | RecvLagged nat | RecvClosed

datatype next_result = Panicked | Returned "event_stream_item option"

definition returned :: "event_stream_item \<times> event_subscription \<Rightarrow> next_result \<times> event_subscription" where
  "returned r = (Returned (Some (fst r)), snd r)"

definition subscription_next ::
  "try_recv_result \<Rightarrow> recv_result \<Rightarrow> event_subscription \<Rightarrow> next_result \<times> event_subscription" where
  "subscription_next try_recv recv s =
     (if sub_done s then (Returned None, s)
      else
        case sub_snapshot s of
          event # rest \<Rightarrow> returned (validate_event event (s\<lparr>sub_snapshot := rest\<rparr>))
        | [] \<Rightarrow>
            if \<not> sub_tail s then (Panicked, s)
            else
              (case try_recv of
                 TryOk signal \<Rightarrow> returned (handle_signal signal s)
               | TryLagged missed \<Rightarrow>
                   returned (finish (TerminalTailLagged (sub_last_delivered s) missed) s)
               | TryClosed \<Rightarrow> returned (finish TerminalStoreShutdown s)
               | TryEmpty \<Rightarrow>
                   (case sub_known_ended s of
                      Some last_sequence \<Rightarrow> returned (finish (TerminalSessionEnded last_sequence) s)
                    | None \<Rightarrow>
                        (case recv of
                           RecvOk signal \<Rightarrow> returned (handle_signal signal s)
                         | RecvLagged missed \<Rightarrow>
                             returned (finish (TerminalTailLagged (sub_last_delivered s) missed) s)
                         | RecvClosed \<Rightarrow> returned (finish TerminalStoreShutdown s)))))"

text \<open>
  A run of a subscription: one \<open>next\<close> per pair of receive results, until it returns \<open>None\<close>.
\<close>

fun run_calls :: "(try_recv_result \<times> recv_result) list \<Rightarrow> event_subscription \<Rightarrow>
    next_result list \<times> event_subscription" where
  "run_calls [] s = ([], s)"
| "run_calls ((t, r) # rs) s =
     (case subscription_next t r s of
        (item, s') \<Rightarrow> (case run_calls rs s' of (items, s'') \<Rightarrow> (item # items, s'')))"

text \<open>
  A run against a receiver that holds the signals published since the subscription, in order:
  a signal is taken when a call reaches the tail, and a call that would wait ends the run.
\<close>

fun consume :: "nat \<Rightarrow> event_stream_signal list \<Rightarrow> event_subscription \<Rightarrow> event_stream_item list" where
  "consume 0 signals s = []"
| "consume (Suc n) signals s =
     (case (case signals of [] \<Rightarrow> TryEmpty | signal # _ \<Rightarrow> TryOk signal) of
        t \<Rightarrow>
          if \<not> sub_done s \<and> sub_snapshot s = [] \<and> signals = [] \<and> sub_known_ended s = None then []
          else
            (case subscription_next t RecvClosed s of
               (Returned (Some item), s') \<Rightarrow>
                 item # consume n (if sub_snapshot s = [] then drop 1 signals else signals) s'
             | _ \<Rightarrow> []))"

subsection \<open>The invariant of a subscription\<close>

definition sub_inv :: "event_subscription \<Rightarrow> bool" where
  "sub_inv s \<longleftrightarrow> (sub_done s \<longrightarrow> sub_snapshot s = []) \<and> (sub_tail s \<longleftrightarrow> \<not> sub_done s)"

lemma sub_inv_new [simp]: "sub_inv (event_subscription_new i snap a r st)"
  by (simp add: sub_inv_def event_subscription_new_def)

lemma finish_simps [simp]:
  "fst (finish t s) = ItemTerminal t"
  "sub_done (snd (finish t s))" "sub_snapshot (snd (finish t s)) = []" "\<not> sub_tail (snd (finish t s))"
  "sub_inv (snd (finish t s))"
  by (simp_all add: finish_def sub_inv_def)

lemma validate_event_done:
  "\<not> sub_done s \<Longrightarrow> sub_done (snd (validate_event e s)) \<longleftrightarrow> (\<exists>t. fst (validate_event e s) = ItemTerminal t)"
  by (auto simp: validate_event_def Let_def finish_def)

lemma validate_event_inv: "sub_inv s \<Longrightarrow> sub_inv (snd (validate_event e s))"
  by (auto simp: validate_event_def Let_def sub_inv_def finish_def)

lemma handle_signal_done:
  "\<not> sub_done s \<Longrightarrow> sub_done (snd (handle_signal g s)) \<longleftrightarrow> (\<exists>t. fst (handle_signal g s) = ItemTerminal t)"
  by (cases g) (auto simp: handle_signal_def validate_event_done finish_def)

lemma handle_signal_inv: "sub_inv s \<Longrightarrow> sub_inv (snd (handle_signal g s))"
  by (cases g) (auto simp: handle_signal_def validate_event_inv)

lemma subscription_next_inv:
  "sub_inv s \<Longrightarrow> subscription_next t r s = (x, s') \<Longrightarrow> sub_inv s' \<and> x \<noteq> Panicked"
  unfolding subscription_next_def returned_def
  by (auto simp: sub_inv_def validate_event_inv[unfolded sub_inv_def]
      handle_signal_inv[unfolded sub_inv_def] finish_def
      split: if_splits list.splits try_recv_result.splits option.splits recv_result.splits)

lemma subscription_next_done:
  assumes "sub_inv s" "\<not> sub_done s" "subscription_next t r s = (x, s')"
  shows "\<exists>item. x = Returned (Some item) \<and> (sub_done s' \<longleftrightarrow> (\<exists>u. item = ItemTerminal u))"
proof -
  have v: "sub_done (snd (validate_event e (s\<lparr>sub_snapshot := z\<rparr>))) \<longleftrightarrow>
             (\<exists>u. fst (validate_event e (s\<lparr>sub_snapshot := z\<rparr>)) = ItemTerminal u)" for e z
    by (rule validate_event_done) (simp add: assms)
  have tail: "sub_tail s" using assms by (simp add: sub_inv_def)
  show ?thesis
    using assms(3) tail v handle_signal_done[OF assms(2)] unfolding subscription_next_def returned_def
    by (auto simp: assms(2) split: list.splits try_recv_result.splits option.splits recv_result.splits)
qed

text \<open>
  C12. For every sequence of receive results, a subscription never panics, returns events up to
  at most one terminal, and after that terminal only \<open>None\<close>: the items are some events, then one
  terminal, then nothing.
\<close>

theorem subscription_single_terminal:
  "\<exists>events rest. fst (run_calls rs (event_subscription_new i snap a n st)) =
       map (Returned \<circ> Some \<circ> ItemEvent) events @ rest \<and>
     (rest = [] \<or> (\<exists>t k. rest = Returned (Some (ItemTerminal t)) # replicate k (Returned None)))"
proof -
  have finished: "fst (run_calls rs s) = replicate (length rs) (Returned None)" if "sub_done s" for rs s
    using that by (induction rs) (auto simp: subscription_next_def split: prod.splits)
  have "sub_inv s \<Longrightarrow> \<not> sub_done s \<Longrightarrow>
     \<exists>events rest. fst (run_calls rs s) = map (Returned \<circ> Some \<circ> ItemEvent) events @ rest \<and>
     (rest = [] \<or> (\<exists>t k. rest = Returned (Some (ItemTerminal t)) # replicate k (Returned None)))" for s
  proof (induction rs arbitrary: s)
    case Nil
    then show ?case by simp
  next
    case (Cons tr rs)
    obtain t r where tr: "tr = (t, r)" by (cases tr)
    obtain x s' where step: "subscription_next t r s = (x, s')" by fastforce
    from subscription_next_done[OF Cons.prems step] obtain item where x: "x = Returned (Some item)"
      and item: "sub_done s' \<longleftrightarrow> (\<exists>u. item = ItemTerminal u)" by blast
    have run: "fst (run_calls (tr # rs) s) = x # fst (run_calls rs s')"
      by (simp add: tr step split: prod.splits)
    show ?case
    proof (cases item)
      case (ItemEvent e)
      with item have "\<not> sub_done s'" by simp
      moreover have "sub_inv s'" using subscription_next_inv[OF Cons.prems(1) step] by simp
      ultimately obtain events rest where
        "fst (run_calls rs s') = map (Returned \<circ> Some \<circ> ItemEvent) events @ rest"
        "rest = [] \<or> (\<exists>t k. rest = Returned (Some (ItemTerminal t)) # replicate k (Returned None))"
        using Cons.IH by blast
      then show ?thesis unfolding run x ItemEvent
        by (intro exI[of _ "e # events"] exI[of _ rest]) simp
    next
      case (ItemTerminal u)
      with item have "fst (run_calls rs s') = replicate (length rs) (Returned None)"
        by (intro finished) simp
      then show ?thesis unfolding run x ItemTerminal
        by (intro exI[of _ "[]"]
            exI[of _ "Returned (Some (ItemTerminal u)) # replicate (length rs) (Returned None)"]) auto
    qed
  qed
  then show ?thesis by (simp add: event_subscription_new_def sub_inv_def)
qed

subsection \<open>Delivery of a contiguous suffix\<close>

fun contiguous :: "session_id \<Rightarrow> nat \<Rightarrow> test_event list \<Rightarrow> bool" where
  "contiguous sid n [] = True"
| "contiguous sid n (e # es) =
     (te_session_id e = sid \<and> te_sequence e = Suc n \<and> Suc n \<le> MAX_SAFE_INTEGER \<and>
      contiguous sid (Suc n) es)"

lemma contiguous_append:
  "contiguous sid n (xs @ ys) \<longleftrightarrow> contiguous sid n xs \<and> contiguous sid (n + length xs) ys"
  by (induction xs arbitrary: n) auto

lemma contiguous_drop: "contiguous sid n xs \<Longrightarrow> k \<le> length xs \<Longrightarrow> contiguous sid (n + k) (drop k xs)"
  by (metis append_take_drop_id contiguous_append length_take min.absorb2)

definition position :: "event_subscription \<Rightarrow> nat" where
  "position s = (case sub_last_delivered s of None \<Rightarrow> 0 | Some n \<Rightarrow> n)"

definition ended_after :: "test_event list \<Rightarrow> event_sequence option \<Rightarrow> event_sequence option" where
  "ended_after es k = fold (\<lambda>e k. if is_session_ended (te_payload e) then Some (te_sequence e) else k) es k"

text \<open>A subscription that is waiting at the live tail.\<close>

definition at_tail :: "session_id \<Rightarrow> nat \<Rightarrow> event_sequence option \<Rightarrow> event_subscription \<Rightarrow> bool" where
  "at_tail sid n k s \<longleftrightarrow> \<not> sub_done s \<and> sub_tail s \<and> sub_session_id s = sid \<and> position s = n \<and>
     sub_known_ended s = k"

lemma expected_position:
  "position s < MAX_SAFE_INTEGER \<Longrightarrow>
   (case sub_last_delivered s of None \<Rightarrow> FIRST | Some n \<Rightarrow> saturating_add_u64 n 1) = Suc (position s)"
  using MAX_SAFE_INTEGER_less_U64_MAX
  by (auto simp: position_def FIRST_def saturating_add_u64_def split: option.splits)

lemma validate_event_in_order:
  assumes "at_tail sid n k s" "contiguous sid n (e # es)"
  shows "\<exists>s'. validate_event e s = (ItemEvent e, s') \<and> at_tail sid (Suc n) (ended_after [e] k) s' \<and>
           sub_snapshot s' = sub_snapshot s"
  using assms expected_position[of s]
  by (auto simp: validate_event_def at_tail_def Let_def ended_after_def position_def)

lemma consume_snapshot:
  assumes "at_tail sid n k s" "sub_snapshot s = es" "contiguous sid n es"
  shows "\<exists>s'. consume (length es + m) signals s = map ItemEvent es @ consume m signals s' \<and>
           at_tail sid (n + length es) (ended_after es k) s' \<and> sub_snapshot s' = []"
  using assms
proof (induction es arbitrary: n k s)
  case Nil
  then show ?case by (intro exI[of _ s]) (simp add: ended_after_def)
next
  case (Cons e es)
  let ?s = "s\<lparr>sub_snapshot := es\<rparr>"
  have "at_tail sid n k ?s" using Cons.prems by (simp add: at_tail_def position_def)
  from validate_event_in_order[OF this Cons.prems(3)] obtain s1 where
    v: "validate_event e ?s = (ItemEvent e, s1)" and s1: "at_tail sid (Suc n) (ended_after [e] k) s1"
    and snap: "sub_snapshot s1 = es" by auto
  have "subscription_next t RecvClosed s = (Returned (Some (ItemEvent e)), s1)" for t
    using Cons.prems v by (simp add: subscription_next_def at_tail_def returned_def)
  then have step: "consume (length (e # es) + m) signals s =
                     ItemEvent e # consume (length es + m) signals s1"
    using Cons.prems by simp
  from Cons.IH[OF s1 snap] Cons.prems(3) obtain s' where
    "consume (length es + m) signals s1 = map ItemEvent es @ consume m signals s'"
    "at_tail sid (Suc n + length es) (ended_after es (ended_after [e] k)) s'" "sub_snapshot s' = []"
    by auto
  with step show ?case by (intro exI[of _ s']) (auto simp: ended_after_def)
qed

lemma consume_tail:
  assumes "at_tail sid n k s" "sub_snapshot s = []" "contiguous sid n es"
  shows "\<exists>s'. consume (length es + m) (map SignalEvent es @ later) s = map ItemEvent es @ consume m later s' \<and>
           at_tail sid (n + length es) (ended_after es k) s' \<and> sub_snapshot s' = []"
  using assms
proof (induction es arbitrary: n k s)
  case Nil
  then show ?case by (intro exI[of _ s]) (simp add: ended_after_def)
next
  case (Cons e es)
  from validate_event_in_order[OF Cons.prems(1,3)] obtain s1 where
    v: "validate_event e s = (ItemEvent e, s1)" and s1: "at_tail sid (Suc n) (ended_after [e] k) s1"
    and snap: "sub_snapshot s1 = []" using Cons.prems(2) by auto
  have "subscription_next (TryOk (SignalEvent e)) RecvClosed s = (Returned (Some (ItemEvent e)), s1)"
    using Cons.prems v by (simp add: subscription_next_def at_tail_def returned_def handle_signal_def)
  then have step: "consume (length (e # es) + m) (map SignalEvent (e # es) @ later) s =
                     ItemEvent e # consume (length es + m) (map SignalEvent es @ later) s1"
    using Cons.prems by simp
  from Cons.IH[OF s1 snap] Cons.prems(3) obtain s' where
    "consume (length es + m) (map SignalEvent es @ later) s1 = map ItemEvent es @ consume m later s'"
    "at_tail sid (Suc n + length es) (ended_after es (ended_after [e] k)) s'" "sub_snapshot s' = []"
    by auto
  with step show ?case by (intro exI[of _ s']) (auto simp: ended_after_def)
qed

lemma consume_at_end:
  assumes "at_tail sid n k s" "sub_snapshot s = []"
  shows "consume (Suc (Suc m)) [] s = (case k of None \<Rightarrow> [] | Some l \<Rightarrow> [ItemTerminal (TerminalSessionEnded l)])"
    and "consume (Suc (Suc m)) [SignalStoreShutdown] s = [ItemTerminal TerminalStoreShutdown]"
    and "consume (Suc (Suc m)) [SignalSessionDeleted sid l] s = [ItemTerminal (TerminalSessionDeleted l)]"
  using assms
  by (auto simp: subscription_next_def at_tail_def returned_def handle_signal_def finish_def
      split: option.splits)

end
