(* ===== verification/Event_Store.thy ===== *)
theory Event_Store
  imports Evidence Event_Stream
begin

text \<open>
  The append-only Session event store, \<open>crates/core/src/event_store.rs\<close> with the commands of
  \<open>session.rs\<close>: its state, every operation of \<open>MemoryEventStore\<close>, and the errors.

  Each operation holds the per-Session lock from its last check to its last write, and takes
  that lock before it lets go of the map lock, so an operation is one step on the whole store.
  Ids drawn at random are arguments: \<open>event_id\<close> for a fresh event and \<open>draws\<close>, the successive
  values of \<open>ObservationLease::new\<close>, for the loop that looks for an unused lease.

  The broadcast channel of a Session is the list of the signals sent on it. A subscription made
  when \<open>n\<close> signals were sent receives the signals after the first \<open>n\<close>.
\<close>

subsection \<open>State\<close>

definition MAX_EVENTS_LIST_PAGE_SIZE :: nat where
  "MAX_EVENTS_LIST_PAGE_SIZE = 1000"

type_synonym observation_lease = uuid

datatype event_store_error =
    StoreSessionAlreadyExists session_id
  | StoreSessionNotFound session_id
  | StoreSessionEnded session_id
  | StoreSessionActive session_id
  | StoreActionsInFlight session_id nat
  | StoreObservationsInFlight session_id nat
  | StoreInvalidObservationLease session_id uuid
  | StoreLifecycleEventReserved
  | StoreDuplicateActionCall uuid
  | StoreActionNotStarted uuid
  | StoreActionCorrelationMismatch uuid
  | StoreActionResultMismatch uuid
  | StoreDuplicateMediaStream media_stream_id
  | StoreInvalidMediaStream
  | StoreMediaStreamNotActive media_stream_id
  | StoreMediaFrameOutOfOrder
  | StoreMediaFrameMismatch
  | StoreMediaFrameCountMismatch
  | StoreMediaStreamsInFlight session_id nat
  | StoreSequenceExhausted session_id
  | StoreCursorAhead session_id event_sequence event_sequence
  | StoreInvalidPageLimit nat nat
  | StoreShuttingDown
  | StoreTimestampOutOfRange
  | StoreInternal string

record action_correlation =
  co_request_id :: "rpc_id option"
  co_device_id :: "device_id option"

record media_stream_state =
  mm_media_type :: string
  mm_next_frame_index :: nat

record session_log =
  sl_info :: session_info
  sl_events :: "test_event list"
  sl_stream_tail :: "event_stream_signal list"
  sl_seen_calls :: "uuid list"
  sl_in_flight :: "(uuid \<times> action_correlation) list"
  sl_in_flight_observations :: "observation_lease list"
  sl_seen_media_streams :: "media_stream_id list"
  sl_media_streams :: "(media_stream_id \<times> media_stream_state) list"

record observation_lease_state =
  ol_session_id :: session_id
  ol_released :: bool

record memory_event_store =
  es_sessions :: "(session_id \<times> session_log) list"
  es_used_session_ids :: "session_id list"
  es_observation_leases :: "(observation_lease \<times> observation_lease_state) list"
  es_stream_shutdown :: bool
  es_stream_config :: event_stream_config

definition with_event_stream_config :: "event_stream_config \<Rightarrow> memory_event_store" where
  "with_event_stream_config config =
     \<lparr>es_sessions = [], es_used_session_ids = [], es_observation_leases = [],
      es_stream_shutdown = False, es_stream_config = config\<rparr>"

record start_session_command =
  ss_session_id :: session_id
  ss_request_id :: "rpc_id option"
  ss_device_id :: "device_id option"
  ss_at_ms :: nat

record end_session_command =
  en_session_id :: session_id
  en_request_id :: "rpc_id option"
  en_device_id :: "device_id option"
  en_at_ms :: nat
  en_outcome :: session_outcome
  en_reason :: "string option"

record pending_event =
  pv_session_id :: session_id
  pv_request_id :: "rpc_id option"
  pv_device_id :: "device_id option"
  pv_at_ms :: nat
  pv_payload :: test_event_payload

subsection \<open>Helpers of the operations\<close>

definition get_log :: "session_id \<Rightarrow> memory_event_store \<Rightarrow> session_log option" where
  "get_log sid st = map_of (es_sessions st) sid"

definition put_log :: "session_id \<Rightarrow> session_log \<Rightarrow> memory_event_store \<Rightarrow> memory_event_store" where
  "put_log sid slog st = st\<lparr>es_sessions := bt_insert sid slog (es_sessions st)\<rparr>"

definition ensure_timestamp :: "nat \<Rightarrow> event_store_error + unit" where
  "ensure_timestamp at_ms =
     (if at_ms \<le> MAX_SAFE_INTEGER then Inr () else Inl StoreTimestampOutOfRange)"

definition next_sequence :: "session_log \<Rightarrow> event_store_error + event_sequence" where
  "next_sequence slog =
     ok_or (checked_next (si_last_sequence (sl_info slog))) (StoreSequenceExhausted (si_id (sl_info slog)))"

definition update_info_after_append :: "event_sequence \<Rightarrow> session_log \<Rightarrow> session_log" where
  "update_info_after_append sequence slog =
     slog\<lparr>sl_info := (sl_info slog)\<lparr>si_event_count := sequence, si_last_sequence := sequence\<rparr>\<rparr>"

definition publish :: "event_stream_signal \<Rightarrow> session_log \<Rightarrow> session_log" where
  "publish signal slog = slog\<lparr>sl_stream_tail := sl_stream_tail slog @ [signal]\<rparr>"

definition publish_event :: "test_event \<Rightarrow> session_log \<Rightarrow> session_log" where
  "publish_event event slog = publish (SignalEvent event) slog"

definition exact_media_retry :: "session_log \<Rightarrow> pending_event \<Rightarrow> test_event option" where
  "exact_media_retry slog pending =
     find (\<lambda>event.
             te_request_id event = pv_request_id pending
             \<and> te_device_id event = pv_device_id pending
             \<and> te_at_ms event = pv_at_ms pending
             \<and> payload_eq (te_payload event) (pv_payload pending))
       (rev (sl_events slog))"

definition export_page_range ::
  "(uuid \<Rightarrow> string) \<Rightarrow> session_info \<Rightarrow> nat \<Rightarrow> event_sequence option \<Rightarrow> nat \<Rightarrow>
   event_store_error + nat \<times> nat" where
  "export_page_range uuid_str session event_count after limit =
     (let maximum = MAX_EVENTS_LIST_PAGE_SIZE in
      if \<not> (1 \<le> limit \<and> limit \<le> maximum) then Inl (StoreInvalidPageLimit limit maximum)
      else if si_state session \<noteq> Ended then Inl (StoreSessionActive (si_id session))
      else if (case after of Some a \<Rightarrow> a > si_last_sequence session | None \<Rightarrow> False)
      then Inl (StoreCursorAhead (si_id session) (the after) (si_last_sequence session))
      else
        res_bind (ok_or (usize_try_from (si_event_count session))
                    (StoreInternal (''session '' @ uuid_str (si_id session) @
                       '' event count does not fit this platform''))) (\<lambda>declared_count.
          if declared_count \<noteq> event_count \<or> si_event_count session \<noteq> si_last_sequence session
          then Inl (StoreInternal (''session '' @ uuid_str (si_id session) @
                       '' metadata does not match its append-only log''))
          else
            res_bind (case after of
                        None \<Rightarrow> Inr 0
                      | Some sequence \<Rightarrow>
                          ok_or (usize_try_from sequence)
                            (StoreInternal (''session '' @ uuid_str (si_id session) @
                               '' export cursor does not fit this platform''))) (\<lambda>start.
              Inr (start, min (saturating_add_u64 start limit) event_count))))"

subsection \<open>Session lifecycle\<close>

definition start_session ::
  "event_id \<Rightarrow> start_session_command \<Rightarrow> memory_event_store \<Rightarrow>
   (event_store_error + session_info) \<times> memory_event_store" where
  "start_session event_id command st =
     (case ensure_timestamp (ss_at_ms command) of
        Inl e \<Rightarrow> (Inl e, st)
      | Inr _ \<Rightarrow>
          if es_stream_shutdown st then (Inl StoreShuttingDown, st)
          else if ss_session_id command \<in> set (es_used_session_ids st)
          then (Inl (StoreSessionAlreadyExists (ss_session_id command)), st)
          else
            let info = \<lparr>si_id = ss_session_id command, si_state = Active,
                        si_started_at_ms = ss_at_ms command, si_ended_at_ms = None,
                        si_event_count = FIRST, si_last_sequence = FIRST\<rparr>;
                event = \<lparr>te_event_id = event_id, te_session_id = ss_session_id command,
                         te_sequence = FIRST, te_request_id = ss_request_id command,
                         te_device_id = ss_device_id command, te_at_ms = ss_at_ms command,
                         te_payload = SessionStarted\<rparr>;
                slog = \<lparr>sl_info = info, sl_events = [event], sl_stream_tail = [],
                       sl_seen_calls = [], sl_in_flight = [], sl_in_flight_observations = [],
                       sl_seen_media_streams = [], sl_media_streams = []\<rparr>
            in (Inr info,
                put_log (ss_session_id command) slog
                  (st\<lparr>es_used_session_ids := ss_session_id command # es_used_session_ids st\<rparr>)))"

text \<open>
  \<open>reserve_observation\<close> draws leases until one is unused; \<open>None\<close> is the run in which the draws
  given are all in use, so the loop has not ended.
\<close>

definition reserve_observation ::
  "observation_lease list \<Rightarrow> session_id \<Rightarrow> memory_event_store \<Rightarrow>
   ((event_store_error + observation_lease) \<times> memory_event_store) option" where
  "reserve_observation draws sid st =
     (if es_stream_shutdown st then Some (Inl StoreShuttingDown, st)
      else
        case get_log sid st of
          None \<Rightarrow> Some (Inl (StoreSessionNotFound sid), st)
        | Some slog \<Rightarrow>
            if si_state (sl_info slog) = Ended then Some (Inl (StoreSessionEnded sid), st)
            else
              (case find (\<lambda>l. map_of (es_observation_leases st) l = None) draws of
                 None \<Rightarrow> None
               | Some lease \<Rightarrow>
                   let slog' = slog\<lparr>sl_in_flight_observations :=
                                    List.insert lease (sl_in_flight_observations slog)\<rparr>;
                       st' = put_log sid slog' st
                   in Some (Inr lease,
                        st'\<lparr>es_observation_leases :=
                              hm_insert lease \<lparr>ol_session_id = sid, ol_released = False\<rparr>
                                (es_observation_leases st')\<rparr>)))"

definition release_observation ::
  "session_id \<Rightarrow> observation_lease \<Rightarrow> memory_event_store \<Rightarrow>
   (event_store_error + unit) \<times> memory_event_store" where
  "release_observation sid lease st =
     (case map_of (es_observation_leases st) lease of
        None \<Rightarrow> (Inl (StoreInvalidObservationLease sid lease), st)
      | Some lease_state \<Rightarrow>
          if ol_session_id lease_state \<noteq> sid
          then (Inl (StoreInvalidObservationLease sid lease), st)
          else if ol_released lease_state then (Inr (), st)
          else
            (case get_log sid st of
               None \<Rightarrow> (Inl (StoreInternal ''active observation lease has no Session log''), st)
             | Some slog \<Rightarrow>
                 if lease \<notin> set (sl_in_flight_observations slog)
                 then (Inl (StoreInternal
                        ''active observation lease is missing from Session bookkeeping''), st)
                 else
                   let slog' = slog\<lparr>sl_in_flight_observations :=
                                    removeAll lease (sl_in_flight_observations slog)\<rparr>
                   in (Inr (),
                       (put_log sid slog' st)\<lparr>es_observation_leases :=
                          hm_insert lease (lease_state\<lparr>ol_released := True\<rparr>)
                            (es_observation_leases st)\<rparr>)))"

subsection \<open>Appending\<close>

datatype event_transition =
    TransitionNone
  | TransitionActionStarted uuid action_correlation
  | TransitionActionCompleted uuid
  | TransitionMediaStarted media_stream_id string
  | TransitionMediaFrame media_stream_id
  | TransitionMediaEnded media_stream_id

text \<open>
  The checks on one payload: \<open>Inl\<close> an error, \<open>Inr (Inl e)\<close> the early return of an event that is
  already in the slog, \<open>Inr (Inr t)\<close> the bookkeeping to do after the append.
\<close>

definition viewport_is_bad :: "viewport \<Rightarrow> bool" where
  "viewport_is_bad v \<longleftrightarrow>
     vp_width v = 0 \<or> vp_height v = 0 \<or> \<not> is_finite (vp_scale_factor v) \<or> f64_le_zero (vp_scale_factor v)"

definition retry_or :: "session_log \<Rightarrow> pending_event \<Rightarrow> event_store_error \<Rightarrow>
    event_store_error + (test_event + event_transition)" where
  "retry_or slog pending e =
     (case exact_media_retry slog pending of
        Some existing \<Rightarrow> Inr (Inl existing)
      | None \<Rightarrow> Inl e)"

definition append_transition ::
  "session_log \<Rightarrow> pending_event \<Rightarrow> event_store_error + (test_event + event_transition)" where
  "append_transition slog pending =
     (case pv_payload pending of
        ActionStarted call \<Rightarrow>
          if rac_id call \<in> set (sl_seen_calls slog) then Inl (StoreDuplicateActionCall (rac_id call))
          else Inr (Inr (TransitionActionStarted (rac_id call)
                 \<lparr>co_request_id = pv_request_id pending, co_device_id = pv_device_id pending\<rparr>))
      | ActionCompleted call_id outcome \<Rightarrow>
          (case map_of (sl_in_flight slog) call_id of
             None \<Rightarrow> Inl (StoreActionNotStarted call_id)
           | Some correlation \<Rightarrow>
               if co_request_id correlation \<noteq> pv_request_id pending
                  \<or> co_device_id correlation \<noteq> pv_device_id pending
               then Inl (StoreActionCorrelationMismatch call_id)
               else if (case outcome of ActionSucceeded result \<Rightarrow> rs_call_id result \<noteq> call_id | _ \<Rightarrow> False)
               then Inl (StoreActionResultMismatch call_id)
               else Inr (Inr (TransitionActionCompleted call_id)))
      | MediaStreamStarted stream \<Rightarrow>
          if ms_id stream \<in> set (sl_seen_media_streams slog)
          then (if (case map_of (sl_media_streams slog) (ms_id stream) of
                      Some active \<Rightarrow> mm_next_frame_index active = 1
                    | None \<Rightarrow> False)
                then retry_or slog pending (StoreDuplicateMediaStream (ms_id stream))
                else Inl (StoreDuplicateMediaStream (ms_id stream)))
          else if \<not> is_ok (put_evidence_new (si_id (sl_info slog)) (ms_media_type stream))
                  \<or> (case ms_viewport stream of Some v \<Rightarrow> viewport_is_bad v | None \<Rightarrow> False)
          then Inl StoreInvalidMediaStream
          else Inr (Inr (TransitionMediaStarted (ms_id stream) (ms_media_type stream)))
      | MediaFrameCaptured frame \<Rightarrow>
          (case map_of (sl_media_streams slog) (mf_stream_id frame) of
             None \<Rightarrow> retry_or slog pending (StoreMediaStreamNotActive (mf_stream_id frame))
           | Some stream \<Rightarrow>
               if mf_frame_index frame \<noteq> mm_next_frame_index stream
               then (if mf_frame_index frame < mm_next_frame_index stream
                     then retry_or slog pending StoreMediaFrameOutOfOrder
                     else Inl StoreMediaFrameOutOfOrder)
               else if ar_media_type (mf_evidence frame) \<noteq> mm_media_type stream
                       \<or> \<not> is_ok (from_asset_ref (mf_evidence frame))
                       \<or> (case mf_duration_ms frame of Some v \<Rightarrow> v > MAX_SAFE_INTEGER | None \<Rightarrow> False)
               then Inl StoreMediaFrameMismatch
               else Inr (Inr (TransitionMediaFrame (mf_stream_id frame))))
      | MediaStreamEnded stream_id frame_count \<Rightarrow>
          (case map_of (sl_media_streams slog) stream_id of
             None \<Rightarrow> retry_or slog pending (StoreMediaStreamNotActive stream_id)
           | Some stream \<Rightarrow>
               if frame_count \<noteq> wrapping_sub_u64 (mm_next_frame_index stream) 1
               then Inl StoreMediaFrameCountMismatch
               else Inr (Inr (TransitionMediaEnded stream_id)))
      | _ \<Rightarrow> Inr (Inr TransitionNone))"

definition apply_transition :: "event_transition \<Rightarrow> session_log \<Rightarrow> session_log" where
  "apply_transition transition slog =
     (case transition of
        TransitionNone \<Rightarrow> slog
      | TransitionActionStarted call_id correlation \<Rightarrow>
          slog\<lparr>sl_seen_calls := List.insert call_id (sl_seen_calls slog),
              sl_in_flight := hm_insert call_id correlation (sl_in_flight slog)\<rparr>
      | TransitionActionCompleted call_id \<Rightarrow>
          slog\<lparr>sl_in_flight := hm_remove call_id (sl_in_flight slog)\<rparr>
      | TransitionMediaStarted stream_id media_type \<Rightarrow>
          slog\<lparr>sl_seen_media_streams := List.insert stream_id (sl_seen_media_streams slog),
              sl_media_streams :=
                hm_insert stream_id \<lparr>mm_media_type = media_type, mm_next_frame_index = 1\<rparr>
                  (sl_media_streams slog)\<rparr>
      | TransitionMediaFrame stream_id \<Rightarrow>
          (case map_of (sl_media_streams slog) stream_id of
             None \<Rightarrow> slog
           | Some stream \<Rightarrow>
               slog\<lparr>sl_media_streams :=
                     hm_insert stream_id
                       (stream\<lparr>mm_next_frame_index := wrapping_add_u64 (mm_next_frame_index stream) 1\<rparr>)
                       (sl_media_streams slog)\<rparr>)
      | TransitionMediaEnded stream_id \<Rightarrow>
          slog\<lparr>sl_media_streams := hm_remove stream_id (sl_media_streams slog)\<rparr>)"

definition is_lifecycle_payload :: "test_event_payload \<Rightarrow> bool" where
  "is_lifecycle_payload p = (case p of SessionStarted \<Rightarrow> True | SessionEnded _ _ \<Rightarrow> True | _ \<Rightarrow> False)"

definition pending_to_event :: "event_id \<Rightarrow> event_sequence \<Rightarrow> pending_event \<Rightarrow> test_event" where
  "pending_to_event event_id sequence pending =
     \<lparr>te_event_id = event_id, te_session_id = pv_session_id pending, te_sequence = sequence,
      te_request_id = pv_request_id pending, te_device_id = pv_device_id pending,
      te_at_ms = pv_at_ms pending, te_payload = pv_payload pending\<rparr>"

definition push_event :: "test_event \<Rightarrow> session_log \<Rightarrow> session_log" where
  "push_event event slog = slog\<lparr>sl_events := sl_events slog @ [event]\<rparr>"

text \<open>The part of \<open>append\<close> after the last check of the Session, with its lock held.\<close>

definition append_locked ::
  "event_id \<Rightarrow> pending_event \<Rightarrow> session_log \<Rightarrow> memory_event_store \<Rightarrow>
   (event_store_error + test_event) \<times> memory_event_store" where
  "append_locked event_id pending slog st =
     (case next_sequence slog of
        Inl e \<Rightarrow> (Inl e, st)
      | Inr sequence \<Rightarrow>
          (case append_transition slog pending of
             Inl e \<Rightarrow> (Inl e, st)
           | Inr (Inl existing) \<Rightarrow> (Inr existing, st)
           | Inr (Inr transition) \<Rightarrow>
               let event = pending_to_event event_id sequence pending;
                   log1 = push_event event slog;
                   log2 = update_info_after_append sequence log1;
                   log3 = apply_transition transition log2;
                   log4 = publish_event event log3
               in (Inr event, put_log (pv_session_id pending) log4 st)))"

definition append_event ::
  "event_id \<Rightarrow> pending_event \<Rightarrow> memory_event_store \<Rightarrow>
   (event_store_error + test_event) \<times> memory_event_store" where
  "append_event event_id pending st =
     (case ensure_timestamp (pv_at_ms pending) of
        Inl e \<Rightarrow> (Inl e, st)
      | Inr _ \<Rightarrow>
          if is_lifecycle_payload (pv_payload pending) then (Inl StoreLifecycleEventReserved, st)
          else if es_stream_shutdown st then (Inl StoreShuttingDown, st)
          else
            (case get_log (pv_session_id pending) st of
               None \<Rightarrow> (Inl (StoreSessionNotFound (pv_session_id pending)), st)
             | Some slog \<Rightarrow>
                 if si_state (sl_info slog) = Ended
                 then (Inl (StoreSessionEnded (pv_session_id pending)), st)
                 else append_locked event_id pending slog st))"

text \<open>The event that ends a Session and the log after it.\<close>

definition end_event :: "event_id \<Rightarrow> event_sequence \<Rightarrow> end_session_command \<Rightarrow> test_event" where
  "end_event event_id sequence command =
     \<lparr>te_event_id = event_id, te_session_id = en_session_id command, te_sequence = sequence,
      te_request_id = en_request_id command, te_device_id = en_device_id command,
      te_at_ms = en_at_ms command,
      te_payload = SessionEnded (en_outcome command) (en_reason command)\<rparr>"

definition end_locked ::
  "event_id \<Rightarrow> event_sequence \<Rightarrow> end_session_command \<Rightarrow> session_log \<Rightarrow> session_log" where
  "end_locked event_id sequence command slog =
     (let event = end_event event_id sequence command;
          log1 = push_event event slog;
          log2 = log1\<lparr>sl_info := (sl_info log1)\<lparr>si_state := Ended,
                        si_ended_at_ms := Some (en_at_ms command)\<rparr>\<rparr>;
          log3 = update_info_after_append sequence log2
      in publish_event event log3)"

definition end_session ::
  "event_id \<Rightarrow> end_session_command \<Rightarrow> memory_event_store \<Rightarrow>
   (event_store_error + session_info) \<times> memory_event_store" where
  "end_session event_id command st =
     (let sid = en_session_id command in
      case ensure_timestamp (en_at_ms command) of
        Inl e \<Rightarrow> (Inl e, st)
      | Inr _ \<Rightarrow>
          if es_stream_shutdown st then (Inl StoreShuttingDown, st)
          else
            (case get_log sid st of
               None \<Rightarrow> (Inl (StoreSessionNotFound sid), st)
             | Some slog \<Rightarrow>
                 if si_state (sl_info slog) = Ended then (Inl (StoreSessionEnded sid), st)
                 else if sl_in_flight_observations slog \<noteq> []
                 then (Inl (StoreObservationsInFlight sid (length (sl_in_flight_observations slog))), st)
                 else if sl_in_flight slog \<noteq> []
                 then (Inl (StoreActionsInFlight sid (length (sl_in_flight slog))), st)
                 else if sl_media_streams slog \<noteq> []
                 then (Inl (StoreMediaStreamsInFlight sid (length (sl_media_streams slog))), st)
                 else
                   (case next_sequence slog of
                      Inl e \<Rightarrow> (Inl e, st)
                    | Inr sequence \<Rightarrow>
                        let slog' = end_locked event_id sequence command slog
                        in (Inr (sl_info slog'), put_log sid slog' st))))"

definition delete_ended ::
  "session_id \<Rightarrow> memory_event_store \<Rightarrow> (event_store_error + unit) \<times> memory_event_store" where
  "delete_ended sid st =
     (case get_log sid st of
        None \<Rightarrow> (Inl (StoreSessionNotFound sid), st)
      | Some slog \<Rightarrow>
          if si_state (sl_info slog) = Active then (Inl (StoreSessionActive sid), st)
          else (Inr (),
                st\<lparr>es_sessions := hm_remove sid (es_sessions st),
                   es_observation_leases :=
                     filter (\<lambda>(_, lease). ol_session_id lease \<noteq> sid) (es_observation_leases st)\<rparr>))"

text \<open>
  The signal a deletion sends before the log is dropped, for the subscribers that still hold a
  receiver of its channel.
\<close>

definition delete_signal :: "session_id \<Rightarrow> session_log \<Rightarrow> event_stream_signal" where
  "delete_signal sid slog = SignalSessionDeleted sid (si_last_sequence (sl_info slog))"

definition begin_stream_shutdown :: "memory_event_store \<Rightarrow> bool \<times> memory_event_store" where
  "begin_stream_shutdown st =
     (if es_stream_shutdown st then (False, st)
      else (True,
            st\<lparr>es_stream_shutdown := True,
               es_sessions := map (\<lambda>(sid, slog). (sid, publish SignalStoreShutdown slog)) (es_sessions st)\<rparr>))"

subsection \<open>Reading\<close>

definition list_after ::
  "session_id \<Rightarrow> event_sequence option \<Rightarrow> memory_event_store \<Rightarrow> event_store_error + test_event list" where
  "list_after sid after st =
     res_bind (ok_or (get_log sid st) (StoreSessionNotFound sid)) (\<lambda>slog.
       let start = (case usize_try_from (case after of None \<Rightarrow> 0 | Some a \<Rightarrow> a) of
                      Some n \<Rightarrow> n | None \<Rightarrow> U64_MAX)
       in Inr (drop start (sl_events slog)))"

definition list_page ::
  "session_id \<Rightarrow> event_sequence option \<Rightarrow> nat \<Rightarrow> memory_event_store \<Rightarrow>
   event_store_error + test_event list" where
  "list_page sid after limit st =
     res_bind (ok_or (get_log sid st) (StoreSessionNotFound sid)) (\<lambda>slog.
       let start = (case usize_try_from (case after of None \<Rightarrow> 0 | Some a \<Rightarrow> a) of
                      Some n \<Rightarrow> n | None \<Rightarrow> U64_MAX)
       in Inr (take limit (drop start (sl_events slog))))"

text \<open>The default method of the trait, for stores that do not override \<open>list_page\<close>.\<close>

definition list_page_default ::
  "(session_id \<Rightarrow> event_sequence option \<Rightarrow> 's \<Rightarrow> event_store_error + test_event list) \<Rightarrow>
   session_id \<Rightarrow> event_sequence option \<Rightarrow> nat \<Rightarrow> 's \<Rightarrow> event_store_error + test_event list" where
  "list_page_default list_after_of sid after limit st =
     res_bind (list_after_of sid after st) (\<lambda>events. Inr (take limit events))"

definition list_sessions :: "memory_event_store \<Rightarrow> session_info list" where
  "list_sessions st = map (\<lambda>(_, slog). sl_info slog) (es_sessions st)"

definition export_session :: "session_id \<Rightarrow> memory_event_store \<Rightarrow> event_store_error + session_export" where
  "export_session sid st =
     res_bind (ok_or (get_log sid st) (StoreSessionNotFound sid)) (\<lambda>slog.
       Inr \<lparr>sx_session = sl_info slog, sx_events = sl_events slog\<rparr>)"

text \<open>
  Slicing \<open>events[range]\<close> panics when the bounds is not within the vector; \<open>None\<close> is that panic.
\<close>

definition slice :: "'a list \<Rightarrow> nat \<times> nat \<Rightarrow> 'a list option" where
  "slice xs bounds =
     (case bounds of (a, b) \<Rightarrow> if a \<le> b \<and> b \<le> length xs then Some (drop a (take b xs)) else None)"

definition export_session_page ::
  "(uuid \<Rightarrow> string) \<Rightarrow> session_id \<Rightarrow> event_sequence option \<Rightarrow> nat \<Rightarrow> memory_event_store \<Rightarrow>
   (event_store_error + session_info \<times> test_event list) option" where
  "export_session_page uuid_str sid after limit st =
     (case get_log sid st of
        None \<Rightarrow> Some (Inl (StoreSessionNotFound sid))
      | Some slog \<Rightarrow>
          (case export_page_range uuid_str (sl_info slog) (length (sl_events slog)) after limit of
             Inl e \<Rightarrow> Some (Inl e)
           | Inr bounds \<Rightarrow>
               (case slice (sl_events slog) bounds of
                  None \<Rightarrow> None
                | Some events \<Rightarrow> Some (Inr (sl_info slog, events)))))"

definition event_observations :: "test_event_payload \<Rightarrow> observation list" where
  "event_observations p =
     (case p of
        ObservationCaptured o1 \<Rightarrow> [o1]
      | ActionCompleted _ (ActionSucceeded result) \<Rightarrow>
          (case rs_before result of Some b \<Rightarrow> [b] | None \<Rightarrow> []) @
          (case rs_after result of Some a \<Rightarrow> [a] | None \<Rightarrow> [])
      | _ \<Rightarrow> [])"

definition observation_by_id ::
  "(uuid \<Rightarrow> string) \<Rightarrow> session_id \<Rightarrow> uuid \<Rightarrow> memory_event_store \<Rightarrow>
   event_store_error + observation option" where
  "observation_by_id uuid_str sid observation_id st =
     res_bind (ok_or (get_log sid st) (StoreSessionNotFound sid)) (\<lambda>slog.
       res_fold (\<lambda>matched o1.
           if ob_id o1 \<noteq> observation_id then Inr matched
           else if matched \<noteq> None
           then Inl (StoreInternal (''session '' @ uuid_str sid @ '' contains a duplicate observation id''))
           else Inr (Some o1))
         None (concat (map (event_observations \<circ> te_payload) (sl_events slog))))"

definition event_asset_refs :: "test_event_payload \<Rightarrow> asset_ref list" where
  "event_asset_refs p =
     (case p of
        ObservationCaptured o1 \<Rightarrow> observation_asset_refs o1
      | ActionCompleted _ (ActionSucceeded result) \<Rightarrow> action_result_asset_refs result
      | MediaFrameCaptured frame \<Rightarrow> [mf_evidence frame]
      | VerdictRecorded v \<Rightarrow> vd_evidence v
      | _ \<Rightarrow> [])"

fun remove_reachable :: "test_event list \<Rightarrow> asset_ref list \<Rightarrow> asset_ref list option" where
  "remove_reachable [] missing = Some missing"
| "remove_reachable (event # events) missing =
     (let missing' = filter (\<lambda>a. a \<notin> set (event_asset_refs (te_payload event))) missing in
      if missing' = [] then None else remove_reachable events missing')"

definition first_unreachable_asset_reference ::
  "session_id \<Rightarrow> asset_ref list \<Rightarrow> memory_event_store \<Rightarrow> event_store_error + asset_ref option" where
  "first_unreachable_asset_reference sid assets st =
     res_bind (ok_or (get_log sid st) (StoreSessionNotFound sid)) (\<lambda>slog.
       case remove_reachable (sl_events slog) (remdups assets) of
         None \<Rightarrow> Inr None
       | Some missing \<Rightarrow> Inr (find (\<lambda>a. a \<in> set missing) assets))"

text \<open>
  \<open>receivers\<close> is the receiver count of the Session's channel. Reserving memory for the snapshot
  is assumed to succeed.
\<close>

definition subscribe_after ::
  "(uuid \<Rightarrow> string) \<Rightarrow> nat \<Rightarrow> session_id \<Rightarrow> event_sequence option \<Rightarrow> memory_event_store \<Rightarrow>
   event_stream_error + event_subscription" where
  "subscribe_after uuid_str receivers sid after st =
     (if es_stream_shutdown st then Inl StreamStoreShutdown
      else
        case get_log sid st of
          None \<Rightarrow>
            if sid \<in> set (es_used_session_ids st) then Inl (StreamSessionDeleted sid)
            else Inl (StreamSessionNotFound sid)
        | Some slog \<Rightarrow>
            if (case after of Some a \<Rightarrow> a > si_last_sequence (sl_info slog) | None \<Rightarrow> False)
            then Inl (StreamCursorAhead sid (the after) (si_last_sequence (sl_info slog)))
            else
              res_bind (ok_or (usize_try_from (si_last_sequence (sl_info slog)))
                          (StreamInternal (''session '' @ uuid_str sid @
                             '' event count does not fit this platform''))) (\<lambda>event_count.
                if event_count \<noteq> length (sl_events slog)
                then Inl (StreamInternal (''session '' @ uuid_str sid @
                             '' event count does not match its append-only log''))
                else
                  let has_terminal_event =
                    (sl_events slog \<noteq> [] \<and> is_session_ended (te_payload (last (sl_events slog))))
                  in
                  if has_terminal_event \<noteq> (si_state (sl_info slog) = Ended)
                  then Inl (StreamInternal (''session '' @ uuid_str sid @
                             '' state does not match its terminal event''))
                  else
                    res_bind (case after of
                                None \<Rightarrow> Inr 0
                              | Some sequence \<Rightarrow>
                                  ok_or (usize_try_from sequence)
                                    (StreamInternal (''session '' @ uuid_str sid @
                                       '' cursor does not fit this platform''))) (\<lambda>start.
                      if start > length (sl_events slog)
                      then Inl (StreamInternal (''session '' @ uuid_str sid @
                                  '' cursor is inconsistent with its log''))
                      else
                        let requested = length (sl_events slog) - start in
                        if requested > ec_max_replay_events (es_stream_config st)
                        then Inl (StreamReplayLimitExceeded sid requested
                                    (ec_max_replay_events (es_stream_config st)))
                        else if receivers \<ge> ec_max_subscribers_per_session (es_stream_config st)
                        then Inl (StreamTooManySubscribers sid
                                    (ec_max_subscribers_per_session (es_stream_config st)))
                        else
                          Inr (event_subscription_new sid (drop start (sl_events slog)) after
                                 (si_last_sequence (sl_info slog)) (si_state (sl_info slog))))))"

end
