(* ===== verification/Session_Log.thy ===== *)
theory Session_Log
  imports Event_Store
begin

text \<open>
  The specification of a Session log and the invariant of the event store.

  \<open>legal_log\<close> is the contract of one log, stated on its events alone: the first event starts the
  Session, sequence numbers count from 1, an Action completes once and after its start with the
  same correlation, the frames of a media stream are numbered from 1 in order, and nothing
  follows the end of the Session. \<open>store_inv\<close> says that every log of the store is legal and that
  the store's bookkeeping is what replaying the log gives. Every operation keeps it.
\<close>

named_theorems log_views \<open>the views of a log with one more event\<close>

subsection \<open>Views of a log\<close>

definition correlation_of :: "test_event \<Rightarrow> action_correlation" where
  "correlation_of e = \<lparr>co_request_id = te_request_id e, co_device_id = te_device_id e\<rparr>"

definition started_calls :: "test_event list \<Rightarrow> uuid list" where
  "started_calls es = concat (map (\<lambda>e. case te_payload e of ActionStarted c \<Rightarrow> [rac_id c] | _ \<Rightarrow> []) es)"

definition completed_calls :: "test_event list \<Rightarrow> uuid list" where
  "completed_calls es = concat (map (\<lambda>e. case te_payload e of ActionCompleted i _ \<Rightarrow> [i] | _ \<Rightarrow> []) es)"

definition started_streams :: "test_event list \<Rightarrow> media_stream_id list" where
  "started_streams es = concat (map (\<lambda>e. case te_payload e of MediaStreamStarted m \<Rightarrow> [ms_id m] | _ \<Rightarrow> []) es)"

definition call_step :: "test_event \<Rightarrow> (uuid \<rightharpoonup> action_correlation) \<Rightarrow> (uuid \<rightharpoonup> action_correlation)" where
  "call_step e m =
     (case te_payload e of
        ActionStarted c \<Rightarrow> m(rac_id c \<mapsto> correlation_of e)
      | ActionCompleted i _ \<Rightarrow> m(i := None)
      | _ \<Rightarrow> m)"

definition open_calls :: "test_event list \<Rightarrow> (uuid \<rightharpoonup> action_correlation)" where
  "open_calls es = fold call_step es Map.empty"

definition stream_step ::
  "test_event \<Rightarrow> (media_stream_id \<rightharpoonup> media_stream_state) \<Rightarrow> (media_stream_id \<rightharpoonup> media_stream_state)" where
  "stream_step e m =
     (case te_payload e of
        MediaStreamStarted s \<Rightarrow>
          m(ms_id s \<mapsto> \<lparr>mm_media_type = ms_media_type s, mm_next_frame_index = 1\<rparr>)
      | MediaFrameCaptured f \<Rightarrow>
          (case m (mf_stream_id f) of
             None \<Rightarrow> m
           | Some s \<Rightarrow> m(mf_stream_id f \<mapsto> s\<lparr>mm_next_frame_index := Suc (mm_next_frame_index s)\<rparr>))
      | MediaStreamEnded i _ \<Rightarrow> m(i := None)
      | _ \<Rightarrow> m)"

definition open_streams :: "test_event list \<Rightarrow> (media_stream_id \<rightharpoonup> media_stream_state)" where
  "open_streams es = fold stream_step es Map.empty"

definition log_ended :: "test_event list \<Rightarrow> bool" where
  "log_ended es \<longleftrightarrow> es \<noteq> [] \<and> is_session_ended (te_payload (last es))"

lemma started_calls_snoc [log_views]:
  "started_calls (es @ [e]) =
     started_calls es @ (case te_payload e of ActionStarted c \<Rightarrow> [rac_id c] | _ \<Rightarrow> [])"
  by (simp add: started_calls_def)

lemma completed_calls_snoc [log_views]:
  "completed_calls (es @ [e]) =
     completed_calls es @ (case te_payload e of ActionCompleted i _ \<Rightarrow> [i] | _ \<Rightarrow> [])"
  by (simp add: completed_calls_def)

lemma started_streams_snoc [log_views]:
  "started_streams (es @ [e]) =
     started_streams es @ (case te_payload e of MediaStreamStarted m \<Rightarrow> [ms_id m] | _ \<Rightarrow> [])"
  by (simp add: started_streams_def)

lemma open_calls_snoc [log_views]: "open_calls (es @ [e]) = call_step e (open_calls es)"
  by (simp add: open_calls_def)

lemma open_streams_snoc [log_views]: "open_streams (es @ [e]) = stream_step e (open_streams es)"
  by (simp add: open_streams_def)

lemma log_ended_snoc [log_views]: "log_ended (es @ [e]) \<longleftrightarrow> is_session_ended (te_payload e)"
  by (simp add: log_ended_def)

subsection \<open>Legal logs\<close>

definition legal_event :: "test_event list \<Rightarrow> test_event \<Rightarrow> bool" where
  "legal_event es e =
     (case te_payload e of
        SessionStarted \<Rightarrow> False
      | SessionEnded _ _ \<Rightarrow> open_calls es = Map.empty \<and> open_streams es = Map.empty
      | ActionStarted c \<Rightarrow> rac_id c \<notin> set (started_calls es)
      | ActionCompleted i out \<Rightarrow>
          open_calls es i = Some (correlation_of e) \<and>
          (\<forall>r. out = ActionSucceeded r \<longrightarrow> rs_call_id r = i)
      | MediaStreamStarted s \<Rightarrow>
          ms_id s \<notin> set (started_streams es) \<and> validate_media_type (ms_media_type s) = Inr () \<and>
          (\<forall>v. ms_viewport s = Some v \<longrightarrow> \<not> viewport_is_bad v)
      | MediaFrameCaptured f \<Rightarrow>
          (\<exists>s. open_streams es (mf_stream_id f) = Some s \<and>
               mf_frame_index f = mm_next_frame_index s \<and>
               ar_media_type (mf_evidence f) = mm_media_type s) \<and>
          is_ok (from_asset_ref (mf_evidence f)) \<and>
          (\<forall>d. mf_duration_ms f = Some d \<longrightarrow> d \<le> MAX_SAFE_INTEGER)
      | MediaStreamEnded i n \<Rightarrow> (\<exists>s. open_streams es i = Some s \<and> Suc n = mm_next_frame_index s)
      | _ \<Rightarrow> True)"

inductive legal_log :: "session_id \<Rightarrow> test_event list \<Rightarrow> bool" for sid where
  started: "te_payload e = SessionStarted \<Longrightarrow> te_session_id e = sid \<Longrightarrow> te_sequence e = 1 \<Longrightarrow>
            te_at_ms e \<le> MAX_SAFE_INTEGER \<Longrightarrow> legal_log sid [e]"
| appended: "legal_log sid es \<Longrightarrow> \<not> log_ended es \<Longrightarrow> te_session_id e = sid \<Longrightarrow>
             te_sequence e = Suc (length es) \<Longrightarrow> Suc (length es) \<le> MAX_SAFE_INTEGER \<Longrightarrow>
             te_at_ms e \<le> MAX_SAFE_INTEGER \<Longrightarrow> legal_event es e \<Longrightarrow> legal_log sid (es @ [e])"

inductive_cases legal_log_NilE [elim!]: "legal_log sid []"

lemma legal_log_snocD:
  assumes "legal_log sid (es @ [e])" "es \<noteq> []"
  shows "legal_log sid es" "\<not> log_ended es" "te_session_id e = sid" "te_sequence e = Suc (length es)"
    "Suc (length es) \<le> MAX_SAFE_INTEGER" "te_at_ms e \<le> MAX_SAFE_INTEGER" "legal_event es e"
  using assms by (auto elim: legal_log.cases)

lemma legal_log_not_Nil: "legal_log sid es \<Longrightarrow> es \<noteq> []"
  by (auto elim: legal_log.cases)

lemma legal_log_length: "legal_log sid es \<Longrightarrow> 1 \<le> length es \<and> length es \<le> MAX_SAFE_INTEGER"
  by (induction rule: legal_log.induct) (auto simp: MAX_SAFE_INTEGER_def)

lemma legal_log_contiguous: "legal_log sid es \<Longrightarrow> contiguous sid 0 es"
  by (induction rule: legal_log.induct) (auto simp: contiguous_append MAX_SAFE_INTEGER_def)

lemma legal_log_started: "legal_log sid es \<Longrightarrow> te_payload (hd es) = SessionStarted"
  by (induction rule: legal_log.induct) (auto simp: hd_append dest: legal_log_not_Nil)

lemma legal_log_times: "legal_log sid es \<Longrightarrow> e \<in> set es \<Longrightarrow> te_at_ms e \<le> MAX_SAFE_INTEGER"
  by (induction rule: legal_log.induct) auto

lemma legal_log_open_streams:
  "legal_log sid es \<Longrightarrow> open_streams es i = Some s \<Longrightarrow>
   1 \<le> mm_next_frame_index s \<and> mm_next_frame_index s \<le> length es"
proof (induction arbitrary: i s rule: legal_log.induct)
  case (started e)
  then show ?case by (simp add: open_streams_def stream_step_def)
next
  case (appended es e)
  have *: "1 \<le> mm_next_frame_index s' \<and> mm_next_frame_index s' \<le> length es"
    if "open_streams es j = Some s'" for j s'
    using appended.IH that by blast
  from appended.prems appended.hyps(1) * show ?case
    by (auto simp: log_views stream_step_def dest: legal_log_length
        split: test_event_payload.splits option.splits if_splits)
       (fastforce dest: * legal_log_length)+
qed

lemma legal_log_calls:
  "legal_log sid es \<Longrightarrow> distinct (started_calls es) \<and> distinct (completed_calls es) \<and>
     dom (open_calls es) = set (started_calls es) - set (completed_calls es) \<and>
     set (completed_calls es) \<subseteq> set (started_calls es)"
proof (induction rule: legal_log.induct)
  case (started e)
  then show ?case by (simp add: started_calls_def completed_calls_def open_calls_def call_step_def)
next
  case (appended es e)
  have "open_calls es i = None" if "i \<in> set (completed_calls es)" for i
    using appended.IH that by blast
  moreover have "i \<in> set (started_calls es)" if "open_calls es i = Some c" for i c
    using appended.IH that by blast
  ultimately show ?case using appended.IH appended.hyps
    by (cases "te_payload e") (auto simp: log_views call_step_def legal_event_def dom_def)
qed

subsection \<open>The invariant of the store\<close>

definition log_inv :: "session_id \<Rightarrow> session_log \<Rightarrow> bool" where
  "log_inv sid slog \<longleftrightarrow>
     si_id (sl_info slog) = sid \<and> legal_log sid (sl_events slog) \<and>
     si_last_sequence (sl_info slog) = length (sl_events slog) \<and>
     si_event_count (sl_info slog) = length (sl_events slog) \<and>
     (si_state (sl_info slog) = Ended \<longleftrightarrow> log_ended (sl_events slog)) \<and>
     si_started_at_ms (sl_info slog) = te_at_ms (hd (sl_events slog)) \<and>
     si_ended_at_ms (sl_info slog) =
       (if log_ended (sl_events slog) then Some (te_at_ms (last (sl_events slog))) else None) \<and>
     set (sl_seen_calls slog) = set (started_calls (sl_events slog)) \<and>
     map_of (sl_in_flight slog) = open_calls (sl_events slog) \<and> hm_wf (sl_in_flight slog) \<and>
     set (sl_seen_media_streams slog) = set (started_streams (sl_events slog)) \<and>
     map_of (sl_media_streams slog) = open_streams (sl_events slog) \<and> hm_wf (sl_media_streams slog)"

definition obs_inv :: "session_log \<Rightarrow> bool" where
  "obs_inv slog \<longleftrightarrow>
     distinct (sl_in_flight_observations slog) \<and>
     (log_ended (sl_events slog) \<longrightarrow> sl_in_flight_observations slog = [])"

definition tail_inv :: "bool \<Rightarrow> session_log \<Rightarrow> bool" where
  "tail_inv shutdown slog \<longleftrightarrow>
     sl_stream_tail slog =
       map SignalEvent (tl (sl_events slog)) @ (if shutdown then [SignalStoreShutdown] else [])"

definition lease_inv :: "memory_event_store \<Rightarrow> bool" where
  "lease_inv st \<longleftrightarrow>
     (\<forall>lease ls. map_of (es_observation_leases st) lease = Some ls \<longrightarrow>
        (\<exists>slog. get_log (ol_session_id ls) st = Some slog \<and>
                (lease \<in> set (sl_in_flight_observations slog) \<longleftrightarrow> \<not> ol_released ls))) \<and>
     (\<forall>sid slog lease. get_log sid st = Some slog \<and> lease \<in> set (sl_in_flight_observations slog) \<longrightarrow>
        (\<exists>ls. map_of (es_observation_leases st) lease = Some ls \<and> ol_session_id ls = sid))"

definition store_inv :: "memory_event_store \<Rightarrow> bool" where
  "store_inv st \<longleftrightarrow>
     bt_wf (es_sessions st) \<and> hm_wf (es_observation_leases st) \<and>
     fst ` set (es_sessions st) \<subseteq> set (es_used_session_ids st) \<and> distinct (es_used_session_ids st) \<and>
     (\<forall>sid slog. get_log sid st = Some slog \<longrightarrow>
        log_inv sid slog \<and> obs_inv slog \<and> tail_inv (es_stream_shutdown st) slog) \<and>
     lease_inv st"

lemma get_log_put_log [simp]: "get_log sid (put_log sid' slog st) = (if sid = sid' then Some slog else get_log sid st)"
  by (simp add: get_log_def put_log_def)

lemma put_log_simps [simp]:
  "es_used_session_ids (put_log sid slog st) = es_used_session_ids st"
  "es_observation_leases (put_log sid slog st) = es_observation_leases st"
  "es_stream_shutdown (put_log sid slog st) = es_stream_shutdown st"
  "es_stream_config (put_log sid slog st) = es_stream_config st"
  "fst ` set (es_sessions (put_log sid slog st)) = insert sid (fst ` set (es_sessions st))"
  by (simp_all add: put_log_def)

lemma get_log_used: "store_inv st \<Longrightarrow> get_log sid st = Some slog \<Longrightarrow> sid \<in> set (es_used_session_ids st)"
  by (force simp: store_inv_def get_log_def dest: map_of_SomeD)

lemma get_log_eq_None: "get_log sid st = None \<longleftrightarrow> sid \<notin> fst ` set (es_sessions st)"
  by (simp add: get_log_def map_of_eq_None_iff)

lemma store_inv_new [simp]: "store_inv (with_event_stream_config config)"
  by (simp add: store_inv_def with_event_stream_config_def bt_wf_def hm_wf_def get_log_def lease_inv_def)

text \<open>Replacing the log of one Session by a log with the same observation bookkeeping.\<close>

lemma store_inv_put_log:
  assumes inv: "store_inv st" and get: "get_log sid st = Some slog"
    and new: "log_inv sid slog'" "obs_inv slog'" "tail_inv (es_stream_shutdown st) slog'"
    and same: "sl_in_flight_observations slog' = sl_in_flight_observations slog"
  shows "store_inv (put_log sid slog' st)"
proof -
  have "lease_inv (put_log sid slog' st)"
    using inv get same unfolding store_inv_def lease_inv_def
    by (auto split: if_splits) (metis (no_types, lifting) option.inject)+
  moreover have "sid \<in> set (es_used_session_ids st)" using inv get by (rule get_log_used)
  ultimately show ?thesis
    using inv new by (auto simp: store_inv_def put_log_def bt_wf_insert get_log_def)
qed

subsection \<open>Starting a Session\<close>

definition started_log :: "event_id \<Rightarrow> start_session_command \<Rightarrow> session_log" where
  "started_log eid c =
     \<lparr>sl_info = \<lparr>si_id = ss_session_id c, si_state = Active, si_started_at_ms = ss_at_ms c,
                si_ended_at_ms = None, si_event_count = 1, si_last_sequence = 1\<rparr>,
      sl_events = [\<lparr>te_event_id = eid, te_session_id = ss_session_id c, te_sequence = 1,
                    te_request_id = ss_request_id c, te_device_id = ss_device_id c,
                    te_at_ms = ss_at_ms c, te_payload = SessionStarted\<rparr>],
      sl_stream_tail = [], sl_seen_calls = [], sl_in_flight = [], sl_in_flight_observations = [],
      sl_seen_media_streams = [], sl_media_streams = []\<rparr>"

lemma start_session_cases:
  obtains (error) e where "start_session eid c st = (Inl e, st)"
  | (new) "start_session eid c st =
        (Inr (sl_info (started_log eid c)), put_log (ss_session_id c) (started_log eid c)
           (st\<lparr>es_used_session_ids := ss_session_id c # es_used_session_ids st\<rparr>))"
      "ss_at_ms c \<le> MAX_SAFE_INTEGER" "\<not> es_stream_shutdown st"
      "ss_session_id c \<notin> set (es_used_session_ids st)"
proof (cases "ss_at_ms c \<le> MAX_SAFE_INTEGER \<and> \<not> es_stream_shutdown st \<and>
              ss_session_id c \<notin> set (es_used_session_ids st)")
  case True
  then show ?thesis
    by (intro new) (simp_all add: start_session_def ensure_timestamp_def Let_def started_log_def FIRST_def)
next
  case False
  then have "\<exists>e. start_session eid c st = (Inl e, st)"
    by (auto simp: start_session_def ensure_timestamp_def)
  with error show ?thesis by blast
qed

lemma started_log_inv:
  "ss_at_ms c \<le> MAX_SAFE_INTEGER \<Longrightarrow> log_inv (ss_session_id c) (started_log eid c)"
  "obs_inv (started_log eid c)" "tail_inv False (started_log eid c)"
  "sl_in_flight_observations (started_log eid c) = []"
  by (simp_all add: log_inv_def obs_inv_def tail_inv_def started_log_def log_ended_def
      is_session_ended_def hm_wf_def started_calls_def started_streams_def open_calls_def
      open_streams_def call_step_def stream_step_def legal_log.started)

lemma start_session_inv: "store_inv st \<Longrightarrow> start_session eid c st = (r, st') \<Longrightarrow> store_inv st'"
proof (cases rule: start_session_cases[of eid c st])
  case new
  assume inv: "store_inv st" and start: "start_session eid c st = (r, st')"
  have none: "get_log (ss_session_id c) st = None"
    using inv new(4) by (auto simp: get_log_eq_None store_inv_def)
  have st': "st' = put_log (ss_session_id c) (started_log eid c)
      (st\<lparr>es_used_session_ids := ss_session_id c # es_used_session_ids st\<rparr>)"
    using start new(1) by simp
  have get: "get_log sid (st\<lparr>es_used_session_ids := u\<rparr>) = get_log sid st" for sid u
    by (simp add: get_log_def)
  have "lease_inv st'"
    using inv none started_log_inv(4) unfolding store_inv_def lease_inv_def st'
    by (auto simp: get split: if_splits) (metis option.distinct(1))
  with inv started_log_inv(1)[OF new(2)] started_log_inv(2,3) new(3,4) show "store_inv st'"
    by (auto simp: store_inv_def st' put_log_def bt_wf_insert get_log_def)
qed auto

subsection \<open>Appending an event\<close>

lemma append_transition_legal:
  assumes inv: "log_inv sid slog" and tr: "append_transition slog p = Inr (Inr t)"
    and life: "\<not> is_lifecycle_payload (pv_payload p)"
  shows "legal_event (sl_events slog) (pending_to_event eid n p)"
proof -
  have streams: "map_of (sl_media_streams slog) = open_streams (sl_events slog)"
    and calls: "map_of (sl_in_flight slog) = open_calls (sl_events slog)"
    and seen: "set (sl_seen_calls slog) = set (started_calls (sl_events slog))"
      "set (sl_seen_media_streams slog) = set (started_streams (sl_events slog))"
    using inv by (simp_all add: log_inv_def)
  have legal: "legal_log sid (sl_events slog)" using inv by (simp add: log_inv_def)
  show ?thesis
  proof (cases "pv_payload p")
    case (ActionCompleted i out)
    with tr show ?thesis
      by (auto simp: append_transition_def legal_event_def pending_to_event_def correlation_of_def calls
          split: option.splits if_splits action_outcome.splits)
  next
    case (MediaStreamEnded i k)
    with tr obtain s where "open_streams (sl_events slog) i = Some s"
      "k = wrapping_sub_u64 (mm_next_frame_index s) 1"
      by (auto simp: append_transition_def streams retry_or_def split: option.splits if_splits)
    moreover from legal_log_open_streams[OF legal this(1)] have "1 \<le> mm_next_frame_index s" by simp
    ultimately show ?thesis using MediaStreamEnded
      by (simp add: legal_event_def pending_to_event_def)
  qed (use tr life in \<open>auto simp: append_transition_def legal_event_def pending_to_event_def
        streams seen retry_or_def put_evidence_new_is_ok is_lifecycle_payload_def
        split: option.splits if_splits\<close>)
qed

lemma append_transition_views:
  fixes eid n
  assumes inv: "log_inv sid slog" and tr: "append_transition slog p = Inr (Inr t)"
  defines "e \<equiv> pending_to_event eid n p"
  defines "slog' \<equiv> apply_transition t slog"
  shows "set (sl_seen_calls slog') = set (started_calls (sl_events slog @ [e]))"
    "map_of (sl_in_flight slog') = open_calls (sl_events slog @ [e])"
    "set (sl_seen_media_streams slog') = set (started_streams (sl_events slog @ [e]))"
    "map_of (sl_media_streams slog') = open_streams (sl_events slog @ [e])"
    "hm_wf (sl_in_flight slog')" "hm_wf (sl_media_streams slog')"
proof -
  have streams: "map_of (sl_media_streams slog) = open_streams (sl_events slog)"
    and calls: "map_of (sl_in_flight slog) = open_calls (sl_events slog)"
    and seen: "set (sl_seen_calls slog) = set (started_calls (sl_events slog))"
      "set (sl_seen_media_streams slog) = set (started_streams (sl_events slog))"
    and wf: "hm_wf (sl_in_flight slog)" "hm_wf (sl_media_streams slog)"
    and legal: "legal_log sid (sl_events slog)"
    using inv by (simp_all add: log_inv_def)
  have next_frame: "wrapping_add_u64 (mm_next_frame_index s) (Suc 0) = Suc (mm_next_frame_index s)"
    if "open_streams (sl_events slog) i = Some s" for i s
    using legal_log_open_streams[OF legal that] legal_log_length[OF legal] MAX_SAFE_INTEGER_less_U64_MAX
    by (subst wrapping_add_u64_small) auto
  have payload: "te_payload e = pv_payload p" "correlation_of e =
      \<lparr>co_request_id = pv_request_id p, co_device_id = pv_device_id p\<rparr>"
    by (simp_all add: e_def pending_to_event_def correlation_of_def)
  note facts = streams calls seen wf next_frame payload
  from tr show "set (sl_seen_calls slog') = set (started_calls (sl_events slog @ [e]))"
    by (cases "pv_payload p")
      (auto simp: append_transition_def retry_or_def apply_transition_def slog'_def log_views facts
        split: option.splits if_splits)
  from tr show "map_of (sl_in_flight slog') = open_calls (sl_events slog @ [e])"
    by (cases "pv_payload p")
      (auto simp: append_transition_def retry_or_def apply_transition_def slog'_def log_views facts
        call_step_def map_laws split: option.splits if_splits)
  from tr show "set (sl_seen_media_streams slog') = set (started_streams (sl_events slog @ [e]))"
    by (cases "pv_payload p")
      (auto simp: append_transition_def retry_or_def apply_transition_def slog'_def log_views facts
        split: option.splits if_splits)
  from tr show "map_of (sl_media_streams slog') = open_streams (sl_events slog @ [e])"
    by (cases "pv_payload p")
      (auto simp: append_transition_def retry_or_def apply_transition_def slog'_def log_views facts
        stream_step_def map_laws split: option.splits if_splits)
  from tr show "hm_wf (sl_in_flight slog')"
    by (cases "pv_payload p")
      (auto simp: append_transition_def retry_or_def apply_transition_def slog'_def facts
        split: option.splits if_splits)
  from tr show "hm_wf (sl_media_streams slog')"
    by (cases "pv_payload p")
      (auto simp: append_transition_def retry_or_def apply_transition_def slog'_def facts
        split: option.splits if_splits)
qed

lemma apply_transition_frame [simp]:
  "sl_info (apply_transition t slog) = sl_info slog"
  "sl_events (apply_transition t slog) = sl_events slog"
  "sl_stream_tail (apply_transition t slog) = sl_stream_tail slog"
  "sl_in_flight_observations (apply_transition t slog) = sl_in_flight_observations slog"
  by (cases t; simp add: apply_transition_def split: option.split)+

lemma apply_transition_book:
  "sl_seen_calls (apply_transition t (slog\<lparr>sl_events := es, sl_info := i\<rparr>)) = sl_seen_calls (apply_transition t slog)"
  "sl_in_flight (apply_transition t (slog\<lparr>sl_events := es, sl_info := i\<rparr>)) = sl_in_flight (apply_transition t slog)"
  "sl_seen_media_streams (apply_transition t (slog\<lparr>sl_events := es, sl_info := i\<rparr>)) =
     sl_seen_media_streams (apply_transition t slog)"
  "sl_media_streams (apply_transition t (slog\<lparr>sl_events := es, sl_info := i\<rparr>)) =
     sl_media_streams (apply_transition t slog)"
  by (cases t; simp add: apply_transition_def split: option.split)+

text \<open>What a successful append did, for the proofs about it.\<close>

definition appended_log :: "event_id \<Rightarrow> pending_event \<Rightarrow> event_transition \<Rightarrow> session_log \<Rightarrow> session_log" where
  "appended_log eid p t slog =
     (let n = Suc (length (sl_events slog)); e = pending_to_event eid n p in
      publish_event e (apply_transition t (update_info_after_append n (push_event e slog))))"

lemma append_event_cases:
  assumes inv: "store_inv st" and app: "append_event eid p st = (r, st')"
  obtains (error) e where "r = Inl e" "st' = st"
  | (retry) slog e where "r = Inr e" "st' = st" "get_log (pv_session_id p) st = Some slog"
      "si_state (sl_info slog) = Active" "append_transition slog p = Inr (Inl e)"
  | (new) slog t where "r = Inr (pending_to_event eid (Suc (length (sl_events slog))) p)"
      "get_log (pv_session_id p) st = Some slog" "si_state (sl_info slog) = Active"
      "append_transition slog p = Inr (Inr t)" "\<not> is_lifecycle_payload (pv_payload p)"
      "pv_at_ms p \<le> MAX_SAFE_INTEGER" "Suc (length (sl_events slog)) \<le> MAX_SAFE_INTEGER"
      "\<not> es_stream_shutdown st" "st' = put_log (pv_session_id p) (appended_log eid p t slog) st"
proof -
  have log: "si_last_sequence (sl_info slog) = length (sl_events slog)"
    if "get_log (pv_session_id p) st = Some slog" for slog
    using inv that by (simp add: store_inv_def log_inv_def)
  show thesis
  proof (cases "get_log (pv_session_id p) st")
    case None
    then have "\<exists>e. r = Inl e \<and> st' = st"
      using app by (auto simp: append_event_def split: if_splits sum.splits)
    with error show ?thesis by blast
  next
    case (Some slog)
    show ?thesis
    proof (cases "pv_at_ms p \<le> MAX_SAFE_INTEGER \<and> \<not> is_lifecycle_payload (pv_payload p) \<and>
                  \<not> es_stream_shutdown st \<and> si_state (sl_info slog) = Active")
      case False
      then have "\<exists>e. r = Inl e \<and> st' = st" using app Some
        by (cases "si_state (sl_info slog)")
          (auto simp: append_event_def ensure_timestamp_def split: if_splits)
      with error show ?thesis by blast
    next
      case True
      then have run: "append_locked eid p slog st = (r, st')"
        using app Some by (simp add: append_event_def ensure_timestamp_def)
      show ?thesis
      proof (cases "next_sequence slog")
        case (Inl e)
        then show ?thesis using run by (intro error[of e]) (simp_all add: append_locked_def)
      next
        case (Inr n)
        then have n: "n = Suc (length (sl_events slog))" "Suc (length (sl_events slog)) \<le> MAX_SAFE_INTEGER"
          using log[OF Some] by (auto simp: next_sequence_def ok_or_eq_Inr checked_next_eq_Some)
        consider (e) e where "append_transition slog p = Inl e"
          | (old) e where "append_transition slog p = Inr (Inl e)"
          | (fresh) t where "append_transition slog p = Inr (Inr t)"
          by (metis sum.exhaust)
        then show ?thesis
        proof cases
          case e
          then show ?thesis using run Inr by (intro error[of e]) (simp_all add: append_locked_def)
        next
          case old
          then show ?thesis using run Inr True Some
            by (intro retry[of e slog]) (simp_all add: append_locked_def)
        next
          case fresh
          then show ?thesis using run Inr True n Some
            by (intro new[of slog t]) (simp_all add: append_locked_def appended_log_def Let_def)
        qed
      qed
    qed
  qed
qed

lemma appended_log_fields [simp]:
  "sl_events (appended_log eid p t slog) =
     sl_events slog @ [pending_to_event eid (Suc (length (sl_events slog))) p]"
  "sl_in_flight_observations (appended_log eid p t slog) = sl_in_flight_observations slog"
  "sl_stream_tail (appended_log eid p t slog) = sl_stream_tail slog @
     [SignalEvent (pending_to_event eid (Suc (length (sl_events slog))) p)]"
  by (simp_all add: appended_log_def Let_def publish_event_def publish_def push_event_def
      update_info_after_append_def)

lemma appended_log_inv:
  assumes inv: "log_inv (pv_session_id p) slog" "si_state (sl_info slog) = Active"
    and tr: "append_transition slog p = Inr (Inr t)"
    and ok: "\<not> is_lifecycle_payload (pv_payload p)" "pv_at_ms p \<le> MAX_SAFE_INTEGER"
      "Suc (length (sl_events slog)) \<le> MAX_SAFE_INTEGER"
  shows "log_inv (pv_session_id p) (appended_log eid p t slog)"
proof -
  let ?n = "Suc (length (sl_events slog))"
  let ?e = "pending_to_event eid ?n p"
  have "legal_log (pv_session_id p) (sl_events slog @ [?e])"
    using inv ok append_transition_legal[OF inv(1) tr ok(1)]
    by (intro legal_log.appended) (auto simp: log_inv_def pending_to_event_def)
  moreover have "\<not> log_ended (sl_events slog @ [?e])"
    using ok(1) by (auto simp: log_views pending_to_event_def is_session_ended_def
        is_lifecycle_payload_def split: test_event_payload.splits)
  moreover have "sl_events slog \<noteq> []" using inv legal_log_not_Nil by (auto simp: log_inv_def)
  ultimately show ?thesis
    using inv append_transition_views[OF inv(1) tr]
    by (auto simp: log_inv_def appended_log_def Let_def publish_event_def publish_def
        push_event_def update_info_after_append_def apply_transition_book)
qed

lemma append_event_inv:
  assumes inv: "store_inv st" and app: "append_event eid p st = (r, st')"
  shows "store_inv st'"
  using inv app
proof (cases rule: append_event_cases)
  case (new slog t)
  have log: "log_inv (pv_session_id p) slog" "obs_inv slog" "tail_inv False slog"
    using inv new by (auto simp: store_inv_def)
  have ne: "sl_events slog \<noteq> []" using log legal_log_not_Nil by (auto simp: log_inv_def)
  have "log_inv (pv_session_id p) (appended_log eid p t slog)"
    using appended_log_inv[OF log(1)] new by blast
  moreover have "obs_inv (appended_log eid p t slog)"
    using log(2) new by (auto simp: obs_inv_def log_views pending_to_event_def
        is_session_ended_def is_lifecycle_payload_def split: test_event_payload.splits)
  moreover have "tail_inv (es_stream_shutdown st) (appended_log eid p t slog)"
    using log(3) ne new by (simp add: tail_inv_def)
  ultimately show ?thesis
    unfolding new by (rule store_inv_put_log[OF inv new(2)]) simp
qed (use inv in auto)

end
