(* ===== verification/Store_Runs.thy ===== *)
theory Store_Runs
  imports Session_Log
begin

text \<open>
  Runs of the event store: the remaining operations keep \<open>store_inv\<close>, the step relation over all
  operations, the states reachable from a new store, and what the trait \<open>SessionEventStore\<close>
  promises of them.
\<close>

subsection \<open>Ending a Session\<close>

definition ended_log :: "event_id \<Rightarrow> end_session_command \<Rightarrow> session_log \<Rightarrow> session_log" where
  "ended_log eid c slog = end_locked eid (Suc (length (sl_events slog))) c slog"

text \<open>The error \<open>end_session\<close> returns, in the order the code checks; \<open>None\<close> when it succeeds.\<close>

definition end_session_error :: "end_session_command \<Rightarrow> memory_event_store \<Rightarrow> event_store_error option" where
  "end_session_error c st =
     (let sid = en_session_id c in
      if en_at_ms c > MAX_SAFE_INTEGER then Some StoreTimestampOutOfRange
      else if es_stream_shutdown st then Some StoreShuttingDown
      else
        case get_log sid st of
          None \<Rightarrow> Some (StoreSessionNotFound sid)
        | Some slog \<Rightarrow>
            if log_ended (sl_events slog) then Some (StoreSessionEnded sid)
            else if sl_in_flight_observations slog \<noteq> []
            then Some (StoreObservationsInFlight sid (length (sl_in_flight_observations slog)))
            else if dom (open_calls (sl_events slog)) \<noteq> {}
            then Some (StoreActionsInFlight sid (card (dom (open_calls (sl_events slog)))))
            else if dom (open_streams (sl_events slog)) \<noteq> {}
            then Some (StoreMediaStreamsInFlight sid (card (dom (open_streams (sl_events slog)))))
            else if length (sl_events slog) \<ge> MAX_SAFE_INTEGER then Some (StoreSequenceExhausted sid)
            else None)"

lemma hm_wf_length: "hm_wf m \<Longrightarrow> length m = card (dom (map_of m))"
  unfolding hm_wf_def dom_map_of_conv_image_fst using distinct_card[of "map fst m"] by simp

lemma hm_Nil_iff: "m = [] \<longleftrightarrow> dom (map_of m) = {}"
  by (cases m) auto

lemma end_session_eq:
  assumes inv: "store_inv st"
  shows "end_session eid c st =
    (case end_session_error c st of
       Some e \<Rightarrow> (Inl e, st)
     | None \<Rightarrow>
         (case get_log (en_session_id c) st of
            None \<Rightarrow> (Inl (StoreSessionNotFound (en_session_id c)), st)
          | Some slog \<Rightarrow> (Inr (sl_info (ended_log eid c slog)),
                          put_log (en_session_id c) (ended_log eid c slog) st)))"
proof (cases "get_log (en_session_id c) st")
  case None
  then show ?thesis by (simp add: end_session_def end_session_error_def ensure_timestamp_def Let_def)
next
  case (Some slog)
  then have log: "log_inv (en_session_id c) slog" using inv by (simp add: store_inv_def)
  have flight: "sl_in_flight slog = [] \<longleftrightarrow> dom (open_calls (sl_events slog)) = {}"
    "length (sl_in_flight slog) = card (dom (open_calls (sl_events slog)))"
    "sl_media_streams slog = [] \<longleftrightarrow> dom (open_streams (sl_events slog)) = {}"
    "length (sl_media_streams slog) = card (dom (open_streams (sl_events slog)))"
    using log by (auto simp: log_inv_def hm_Nil_iff hm_wf_length)
  have "next_sequence slog = (if length (sl_events slog) \<ge> MAX_SAFE_INTEGER
      then Inl (StoreSequenceExhausted (en_session_id c)) else Inr (Suc (length (sl_events slog))))"
    using log by (simp add: next_sequence_def log_inv_def checked_next_if)
  moreover have "si_state (sl_info slog) = Ended \<longleftrightarrow> log_ended (sl_events slog)"
    using log by (simp add: log_inv_def)
  ultimately show ?thesis using Some flight
    by (simp add: end_session_def end_session_error_def ensure_timestamp_def ended_log_def Let_def)
qed

lemma ended_log_fields [simp]:
  "sl_events (ended_log eid c slog) =
     sl_events slog @ [end_event eid (Suc (length (sl_events slog))) c]"
  "sl_in_flight_observations (ended_log eid c slog) = sl_in_flight_observations slog"
  "sl_stream_tail (ended_log eid c slog) = sl_stream_tail slog @
     [SignalEvent (end_event eid (Suc (length (sl_events slog))) c)]"
  "si_state (sl_info (ended_log eid c slog)) = Ended"
  by (simp_all add: ended_log_def end_locked_def Let_def publish_event_def publish_def push_event_def
      update_info_after_append_def)

lemma ended_log_inv:
  assumes log: "log_inv (en_session_id c) slog" "\<not> log_ended (sl_events slog)"
    and ok: "open_calls (sl_events slog) = Map.empty" "open_streams (sl_events slog) = Map.empty"
      "en_at_ms c \<le> MAX_SAFE_INTEGER" "length (sl_events slog) < MAX_SAFE_INTEGER"
  shows "log_inv (en_session_id c) (ended_log eid c slog)"
proof -
  let ?e = "end_event eid (Suc (length (sl_events slog))) c"
  have legal: "legal_log (en_session_id c) (sl_events slog @ [?e])"
    using log ok by (intro legal_log.appended) (auto simp: log_inv_def end_event_def legal_event_def)
  have ne: "sl_events slog \<noteq> []" using log legal_log_not_Nil by (auto simp: log_inv_def)
  have views: "started_calls (sl_events slog @ [?e]) = started_calls (sl_events slog)"
    "started_streams (sl_events slog @ [?e]) = started_streams (sl_events slog)"
    "open_calls (sl_events slog @ [?e]) = open_calls (sl_events slog)"
    "open_streams (sl_events slog @ [?e]) = open_streams (sl_events slog)"
    "log_ended (sl_events slog @ [?e])"
    by (simp_all add: log_views end_event_def call_step_def stream_step_def is_session_ended_def)
  show ?thesis
    using log legal ne
    by (simp add: log_inv_def ended_log_def end_locked_def Let_def publish_event_def publish_def
        push_event_def update_info_after_append_def views) (simp add: end_event_def)
qed

lemma end_session_error_None:
  assumes "end_session_error c st = None"
  obtains slog where "get_log (en_session_id c) st = Some slog" "en_at_ms c \<le> MAX_SAFE_INTEGER"
    "\<not> es_stream_shutdown st" "\<not> log_ended (sl_events slog)" "sl_in_flight_observations slog = []"
    "open_calls (sl_events slog) = Map.empty" "open_streams (sl_events slog) = Map.empty"
    "length (sl_events slog) < MAX_SAFE_INTEGER"
  using assms by (auto simp: end_session_error_def Let_def split: if_splits option.splits)

lemma end_session_inv:
  assumes inv: "store_inv st" and run: "end_session eid c st = (r, st')"
  shows "store_inv st'"
proof (cases "end_session_error c st")
  case None
  then obtain slog where facts: "get_log (en_session_id c) st = Some slog"
    "en_at_ms c \<le> MAX_SAFE_INTEGER" "\<not> es_stream_shutdown st" "\<not> log_ended (sl_events slog)"
    "sl_in_flight_observations slog = []" "open_calls (sl_events slog) = Map.empty"
    "open_streams (sl_events slog) = Map.empty" "length (sl_events slog) < MAX_SAFE_INTEGER"
    by (rule end_session_error_None)
  have log: "log_inv (en_session_id c) slog" "tail_inv False slog"
    using inv facts by (auto simp: store_inv_def)
  have ne: "sl_events slog \<noteq> []" using log legal_log_not_Nil by (auto simp: log_inv_def)
  have st': "st' = put_log (en_session_id c) (ended_log eid c slog) st"
    using run None facts(1) by (simp add: end_session_eq[OF inv])
  show ?thesis unfolding st'
    using ended_log_inv[OF log(1)] facts log(2) ne
    by (intro store_inv_put_log[OF inv facts(1)]) (auto simp: obs_inv_def tail_inv_def)
qed (use inv run in \<open>simp add: end_session_eq\<close>)

subsection \<open>Observation leases\<close>

lemma log_inv_obs [simp]:
  "log_inv sid (slog\<lparr>sl_in_flight_observations := x\<rparr>) \<longleftrightarrow> log_inv sid slog"
  "tail_inv b (slog\<lparr>sl_in_flight_observations := x\<rparr>) \<longleftrightarrow> tail_inv b slog"
  by (simp_all add: log_inv_def tail_inv_def)

lemma get_log_leases [simp]: "get_log sid (st\<lparr>es_observation_leases := x\<rparr>) = get_log sid st"
  by (simp add: get_log_def)

lemma reserve_observation_cases:
  assumes "reserve_observation draws sid st = Some (r, st')"
  obtains (error) e where "r = Inl e" "st' = st"
  | (new) slog lease where "r = Inr lease" "get_log sid st = Some slog" "\<not> es_stream_shutdown st"
      "si_state (sl_info slog) \<noteq> Ended" "lease \<in> set draws"
      "map_of (es_observation_leases st) lease = None"
      "st' = (put_log sid (slog\<lparr>sl_in_flight_observations :=
                List.insert lease (sl_in_flight_observations slog)\<rparr>) st)
              \<lparr>es_observation_leases := hm_insert lease \<lparr>ol_session_id = sid, ol_released = False\<rparr>
                 (es_observation_leases st)\<rparr>"
proof -
  consider "\<exists>e. r = Inl e \<and> st' = st" | slog where "get_log sid st = Some slog" "\<not> es_stream_shutdown st"
      "si_state (sl_info slog) \<noteq> Ended"
    using assms by (cases "get_log sid st") (auto simp: reserve_observation_def split: if_splits)
  then show thesis
  proof cases
    case 1
    with error show ?thesis by blast
  next
    case (2 slog)
    with assms obtain lease where find: "find (\<lambda>l. map_of (es_observation_leases st) l = None) draws = Some lease"
      by (cases "find (\<lambda>l. map_of (es_observation_leases st) l = None) draws")
        (simp_all add: reserve_observation_def)
    then have "lease \<in> set draws" "map_of (es_observation_leases st) lease = None"
      by (auto simp: find_Some_iff)
    with 2 find assms show ?thesis
      by (intro new[of lease slog]) (simp_all add: reserve_observation_def Let_def)
  qed
qed

lemma reserve_observation_inv:
  assumes inv: "store_inv st" and run: "reserve_observation draws sid st = Some (r, st')"
  shows "store_inv st'"
  using run
proof (cases rule: reserve_observation_cases)
  case (new slog lease)
  have unused: "lease \<notin> set (sl_in_flight_observations sl)" if "get_log i st = Some sl" for i sl
    using inv new(6) that by (force simp: store_inv_def lease_inv_def)
  have log: "log_inv sid slog" "obs_inv slog" "tail_inv False slog"
    using inv new by (auto simp: store_inv_def)
  have "obs_inv (slog\<lparr>sl_in_flight_observations := List.insert lease (sl_in_flight_observations slog)\<rparr>)"
    using log new(4) by (simp add: obs_inv_def log_inv_def)
  moreover have "lease_inv st'"
    using inv new(2,6) unused unfolding store_inv_def lease_inv_def new(7)
    by (auto simp: map_of_update_fun split: if_splits) (metis option.inject)+
  moreover have "sid \<in> set (es_used_session_ids st)" using inv new(2) by (rule get_log_used)
  ultimately show ?thesis
    using inv log new(3) by (auto simp: store_inv_def new(7) put_log_def bt_wf_insert get_log_def)
qed (use inv in auto)

lemma release_observation_cases:
  assumes inv: "store_inv st" and run: "release_observation sid lease st = (r, st')"
  obtains (error) "r = Inl (StoreInvalidObservationLease sid lease)" "st' = st"
      "\<nexists>ls. map_of (es_observation_leases st) lease = Some ls \<and> ol_session_id ls = sid"
  | (again) ls where "r = Inr ()" "st' = st" "map_of (es_observation_leases st) lease = Some ls"
      "ol_session_id ls = sid" "ol_released ls"
  | (new) slog ls where "r = Inr ()" "get_log sid st = Some slog"
      "map_of (es_observation_leases st) lease = Some ls" "ol_session_id ls = sid" "\<not> ol_released ls"
      "st' = (put_log sid (slog\<lparr>sl_in_flight_observations :=
                removeAll lease (sl_in_flight_observations slog)\<rparr>) st)
              \<lparr>es_observation_leases := hm_insert lease (ls\<lparr>ol_released := True\<rparr>) (es_observation_leases st)\<rparr>"
proof (cases "map_of (es_observation_leases st) lease")
  case None
  with run error show ?thesis by (simp add: release_observation_def)
next
  case (Some ls)
  have "lease_inv st" using inv by (simp add: store_inv_def)
  with Some obtain slog where slog: "get_log (ol_session_id ls) st = Some slog"
    "lease \<in> set (sl_in_flight_observations slog) \<longleftrightarrow> \<not> ol_released ls"
    unfolding lease_inv_def by blast
  show ?thesis
  proof (cases "ol_session_id ls = sid")
    case False
    with run Some error show ?thesis by (simp add: release_observation_def)
  next
    case True
    show ?thesis
    proof (cases "ol_released ls")
      case released: True
      with run Some True again show ?thesis by (simp add: release_observation_def)
    next
      case False
      with run Some True slog show ?thesis
        by (intro new[of slog ls]) (auto simp: release_observation_def)
    qed
  qed
qed

lemma release_observation_inv:
  assumes inv: "store_inv st" and run: "release_observation sid lease st = (r, st')"
  shows "store_inv st'"
  using inv run
proof (cases rule: release_observation_cases)
  case (new slog ls)
  have log: "log_inv sid slog" "obs_inv slog" "tail_inv (es_stream_shutdown st) slog"
    using inv new by (auto simp: store_inv_def)
  have "obs_inv (slog\<lparr>sl_in_flight_observations := removeAll lease (sl_in_flight_observations slog)\<rparr>)"
    using log by (auto simp: obs_inv_def distinct_removeAll)
  moreover have "lease_inv st'"
    using inv new(2-5) unfolding store_inv_def lease_inv_def new(6)
    by (auto simp: map_of_update_fun split: if_splits) (metis option.inject)+
  moreover have "sid \<in> set (es_used_session_ids st)" using inv new(2) by (rule get_log_used)
  ultimately show ?thesis
    using inv log by (auto simp: store_inv_def new(6) put_log_def bt_wf_insert get_log_def)
qed (use inv in auto)

subsection \<open>Deletion and shutdown\<close>

lemma map_of_filter_lease:
  "hm_wf m \<Longrightarrow> map_of (filter (\<lambda>(_, l). P l) m) k =
     (case map_of m k of Some l \<Rightarrow> if P l then Some l else None | None \<Rightarrow> None)"
proof (induction m)
  case (Cons kv m)
  then show ?case
    by (cases kv) (auto simp: hm_wf_def map_of_eq_None_iff split: option.splits dest: map_of_SomeD)
qed simp

lemma delete_ended_cases:
  assumes run: "delete_ended sid st = (r, st')"
  obtains (error) e where "r = Inl e" "st' = st"
  | (gone) slog where "r = Inr ()" "get_log sid st = Some slog" "si_state (sl_info slog) = Ended"
      "st' = st\<lparr>es_sessions := hm_remove sid (es_sessions st),
                es_observation_leases :=
                  filter (\<lambda>(_, lease). ol_session_id lease \<noteq> sid) (es_observation_leases st)\<rparr>"
proof (cases "get_log sid st")
  case None
  with run show ?thesis by (intro error[of "StoreSessionNotFound sid"]) (simp_all add: delete_ended_def)
next
  case (Some slog)
  show ?thesis
  proof (cases "si_state (sl_info slog)")
    case Active
    with run Some show ?thesis
      by (intro error[of "StoreSessionActive sid"]) (simp_all add: delete_ended_def)
  next
    case Ended
    with run Some show ?thesis by (intro gone[of slog]) (simp_all add: delete_ended_def)
  qed
qed

lemma delete_ended_inv:
  assumes inv: "store_inv st" and run: "delete_ended sid st = (r, st')"
  shows "store_inv st'"
  using run
proof (cases rule: delete_ended_cases)
  case (gone slog)
  have get: "get_log i st' = (if i = sid then None else get_log i st)" for i
    by (simp add: gone(4) get_log_def map_of_delete_fun)
  have wf: "hm_wf (es_observation_leases st)" using inv by (simp add: store_inv_def)
  have leases: "map_of (es_observation_leases st') l =
      (case map_of (es_observation_leases st) l of
         Some ls \<Rightarrow> if ol_session_id ls \<noteq> sid then Some ls else None | None \<Rightarrow> None)" for l
    unfolding gone(4) using map_of_filter_lease[OF wf, of "\<lambda>ls. ol_session_id ls \<noteq> sid"] by simp
  have inner: "lease_inv st" using inv by (simp add: store_inv_def)
  have "lease_inv st'"
    unfolding lease_inv_def
  proof (intro conjI allI impI)
    fix lease ls assume "map_of (es_observation_leases st') lease = Some ls"
    then have "map_of (es_observation_leases st) lease = Some ls" "ol_session_id ls \<noteq> sid"
      by (auto simp: leases split: option.splits if_splits)
    then show "\<exists>slog. get_log (ol_session_id ls) st' = Some slog \<and>
        (lease \<in> set (sl_in_flight_observations slog) \<longleftrightarrow> \<not> ol_released ls)"
      using inner unfolding lease_inv_def get by simp
  next
    fix i slog lease
    assume asm: "get_log i st' = Some slog \<and> lease \<in> set (sl_in_flight_observations slog)"
    then have "i \<noteq> sid" "get_log i st = Some slog" by (auto simp: get split: if_splits)
    with asm inner obtain ls where "map_of (es_observation_leases st) lease = Some ls" "ol_session_id ls = i"
      unfolding lease_inv_def by blast
    with \<open>i \<noteq> sid\<close> show "\<exists>ls. map_of (es_observation_leases st') lease = Some ls \<and> ol_session_id ls = i"
      by (simp add: leases)
  qed
  moreover have "hm_wf (es_observation_leases st')"
    using wf unfolding gone(4) hm_wf_def by (simp add: distinct_map_filter)
  moreover have "bt_wf (es_sessions st')"
    using inv by (simp add: gone(4) store_inv_def bt_wf_remove)
  moreover have "fst ` set (es_sessions st') \<subseteq> set (es_used_session_ids st')"
    "distinct (es_used_session_ids st')"
    using inv by (auto simp: gone(4) store_inv_def AList.delete_eq)
  moreover have "es_stream_shutdown st' = es_stream_shutdown st" by (simp add: gone(4))
  ultimately show ?thesis
    using inv unfolding store_inv_def get by auto
qed (use inv in auto)

lemma lease_inv_same_obs:
  assumes inv: "lease_inv st" and leases: "es_observation_leases st' = es_observation_leases st"
    and obs: "\<And>sid. map_option sl_in_flight_observations (get_log sid st') =
                     map_option sl_in_flight_observations (get_log sid st)"
  shows "lease_inv st'"
  unfolding lease_inv_def leases
proof (intro conjI allI impI)
  fix lease ls assume "map_of (es_observation_leases st) lease = Some ls"
  with inv obtain slog where "get_log (ol_session_id ls) st = Some slog"
    "lease \<in> set (sl_in_flight_observations slog) \<longleftrightarrow> \<not> ol_released ls"
    unfolding lease_inv_def by blast
  with obs[of "ol_session_id ls"] show "\<exists>slog. get_log (ol_session_id ls) st' = Some slog \<and>
      (lease \<in> set (sl_in_flight_observations slog) \<longleftrightarrow> \<not> ol_released ls)"
    by auto
next
  fix i slog lease
  assume "get_log i st' = Some slog \<and> lease \<in> set (sl_in_flight_observations slog)"
  with obs[of i] obtain slog' where "get_log i st = Some slog'"
    "lease \<in> set (sl_in_flight_observations slog')" by (cases "get_log i st") auto
  with inv show "\<exists>ls. map_of (es_observation_leases st) lease = Some ls \<and> ol_session_id ls = i"
    unfolding lease_inv_def by blast
qed

lemma get_log_shutdown:
  "get_log sid (snd (begin_stream_shutdown st)) =
     (if es_stream_shutdown st then get_log sid st
      else map_option (publish SignalStoreShutdown) (get_log sid st))"
  by (simp add: begin_stream_shutdown_def get_log_def map_of_map)

lemma publish_inv:
  "log_inv sid (publish g slog) \<longleftrightarrow> log_inv sid slog" "obs_inv (publish g slog) \<longleftrightarrow> obs_inv slog"
  "tail_inv False slog \<Longrightarrow> tail_inv True (publish SignalStoreShutdown slog)"
  "sl_in_flight_observations (publish g slog) = sl_in_flight_observations slog"
  by (simp_all add: publish_def log_inv_def obs_inv_def tail_inv_def)

lemma begin_stream_shutdown_inv:
  assumes inv: "store_inv st" shows "store_inv (snd (begin_stream_shutdown st))"
proof (cases "es_stream_shutdown st")
  case False
  define st' where "st' = snd (begin_stream_shutdown st)"
  have get: "get_log sid st' = map_option (publish SignalStoreShutdown) (get_log sid st)" for sid
    using False by (simp add: get_log_shutdown st'_def)
  have keys: "map fst (es_sessions st') = map fst (es_sessions st)"
    using False by (simp add: begin_stream_shutdown_def case_prod_unfold comp_def st'_def)
  have same: "es_observation_leases st' = es_observation_leases st" "es_stream_shutdown st'"
    "es_used_session_ids st' = es_used_session_ids st"
    using False by (simp_all add: begin_stream_shutdown_def st'_def)
  have "lease_inv st'"
  proof (rule lease_inv_same_obs)
    show "lease_inv st" using inv by (simp add: store_inv_def)
    show "map_option sl_in_flight_observations (get_log sid st') =
          map_option sl_in_flight_observations (get_log sid st)" for sid
      by (cases "get_log sid st") (simp_all add: get publish_inv)
  qed (rule same)
  moreover have "fst ` set (es_sessions st') = fst ` set (es_sessions st)"
    using keys by (metis list.set_map)
  moreover have "log_inv sid slog \<and> obs_inv slog \<and> tail_inv (es_stream_shutdown st') slog"
    if "get_log sid st' = Some slog" for sid slog
    using that inv False same by (auto simp: get store_inv_def publish_inv)
  ultimately have "store_inv st'"
    using inv same keys by (simp add: store_inv_def bt_wf_def)
  then show ?thesis by (simp add: st'_def)
qed (simp add: begin_stream_shutdown_def inv)

subsection \<open>Steps and reachable stores\<close>

inductive store_step :: "memory_event_store \<Rightarrow> memory_event_store \<Rightarrow> bool" where
  step_start: "start_session eid c st = (r1, st') \<Longrightarrow> store_step st st'"
| step_reserve: "reserve_observation draws sid st = Some (r2, st') \<Longrightarrow> store_step st st'"
| step_release: "release_observation sid lease st = (r3, st') \<Longrightarrow> store_step st st'"
| step_append: "append_event eid p st = (r4, st') \<Longrightarrow> store_step st st'"
| step_end: "end_session eid ce st = (r5, st') \<Longrightarrow> store_step st st'"
| step_delete: "delete_ended sid st = (r6, st') \<Longrightarrow> store_step st st'"
| step_shutdown: "begin_stream_shutdown st = (b, st') \<Longrightarrow> store_step st st'"

inductive store_steps :: "memory_event_store \<Rightarrow> memory_event_store \<Rightarrow> bool" where
  steps_refl: "store_steps st st"
| steps_step: "store_steps st st' \<Longrightarrow> store_step st' st'' \<Longrightarrow> store_steps st st''"

definition store_reachable :: "memory_event_store \<Rightarrow> bool" where
  "store_reachable st \<longleftrightarrow> (\<exists>config. store_steps (with_event_stream_config config) st)"

lemma store_step_inv: "store_step st st' \<Longrightarrow> store_inv st \<Longrightarrow> store_inv st'"
proof (induction rule: store_step.induct)
  case (step_shutdown st b st')
  then show ?case using begin_stream_shutdown_inv[of st] by simp
qed (auto intro: start_session_inv reserve_observation_inv release_observation_inv append_event_inv
      end_session_inv delete_ended_inv)

lemma store_steps_inv: "store_steps st st' \<Longrightarrow> store_inv st \<Longrightarrow> store_inv st'"
  by (induction rule: store_steps.induct) (auto intro: store_step_inv)

lemma store_reachable_inv: "store_reachable st \<Longrightarrow> store_inv st"
  by (auto simp: store_reachable_def intro: store_steps_inv)

lemma store_steps_trans: "store_steps st st' \<Longrightarrow> store_steps st' st'' \<Longrightarrow> store_steps st st''"
  by (rotate_tac, induction rule: store_steps.induct) (auto intro: steps_step)

lemma store_reachable_step: "store_reachable st \<Longrightarrow> store_step st st' \<Longrightarrow> store_reachable st'"
  by (auto simp: store_reachable_def intro: steps_step)

lemma store_reachable_steps: "store_reachable st \<Longrightarrow> store_steps st st' \<Longrightarrow> store_reachable st'"
  by (auto simp: store_reachable_def intro: store_steps_trans)

subsection \<open>What one step does to one log\<close>

text \<open>
  A step extends the log of a Session, removes it, or leaves it; it never changes an event that
  is already there, and an id that was used keeps its tombstone.
\<close>

lemma store_step_log:
  assumes "store_step st st'" "store_inv st" "get_log sid st = Some slog"
  shows "get_log sid st' = None \<or>
    (\<exists>slog' new. get_log sid st' = Some slog' \<and> sl_events slog' = sl_events slog @ new)"
  using assms
proof (induction rule: store_step.induct)
  case (step_start eid c st r1 st')
  show ?case
  proof (cases rule: start_session_cases[of eid c st])
    case new
    moreover from this have "sid \<noteq> ss_session_id c" using get_log_used[of st sid slog] step_start by auto
    ultimately show ?thesis using step_start by (simp add: get_log_def put_log_def)
  qed (use step_start in simp)
next
  case (step_reserve draws sid' st r2 st')
  from step_reserve(1) show ?case
    by (cases rule: reserve_observation_cases) (use step_reserve in auto)
next
  case (step_release sid' lease st r3 st')
  from step_release(2,1) show ?case
    by (cases rule: release_observation_cases) (use step_release in auto)
next
  case (step_append eid p st r4 st')
  from step_append(2,1) show ?case
    by (cases rule: append_event_cases) (use step_append in auto)
next
  case (step_end eid ce st r5 st')
  then show ?case
    by (cases "sid = en_session_id ce") (auto simp: end_session_eq split: option.splits)
next
  case (step_delete sid' st r6 st')
  from step_delete(1) show ?case
    by (cases rule: delete_ended_cases)
      (use step_delete in \<open>auto simp: get_log_def map_of_delete_fun\<close>)
next
  case (step_shutdown st b st')
  have "get_log sid st' = (if es_stream_shutdown st then get_log sid st
      else map_option (publish SignalStoreShutdown) (get_log sid st))"
    using get_log_shutdown[of sid st] step_shutdown(1) by simp
  then show ?case using step_shutdown(3) by (auto simp: publish_def)
qed

lemma store_step_used:
  assumes "store_step st st'" "store_inv st"
  shows "set (es_used_session_ids st) \<subseteq> set (es_used_session_ids st') \<and>
    (sid \<in> set (es_used_session_ids st) \<longrightarrow> get_log sid st = None \<longrightarrow> get_log sid st' = None)"
  using assms
proof (induction rule: store_step.induct)
  case (step_start eid c st r1 st')
  then show ?case
    by (cases rule: start_session_cases[of eid c st]) (auto simp: get_log_def put_log_def)
next
  case (step_reserve draws sid' st r2 st')
  from step_reserve(1) show ?case
    by (cases rule: reserve_observation_cases) (use step_reserve in auto)
next
  case (step_release sid' lease st r3 st')
  from step_release(2,1) show ?case
    by (cases rule: release_observation_cases) (use step_release in auto)
next
  case (step_append eid p st r4 st')
  from step_append(2,1) show ?case
    by (cases rule: append_event_cases) (use step_append in auto)
next
  case (step_end eid ce st r5 st')
  then show ?case
    by (auto simp: end_session_eq split: option.splits)
next
  case (step_delete sid' st r6 st')
  from step_delete(1) show ?case
    by (cases rule: delete_ended_cases)
      (use step_delete in \<open>auto simp: get_log_def map_of_delete_fun\<close>)
next
  case (step_shutdown st b st')
  have "get_log sid st' = (if es_stream_shutdown st then get_log sid st
      else map_option (publish SignalStoreShutdown) (get_log sid st))"
    using get_log_shutdown[of sid st] step_shutdown(1) by simp
  then show ?case using step_shutdown(1) by (auto simp: begin_stream_shutdown_def split: if_splits)
qed

lemma store_steps_used:
  assumes "store_steps st st'" "store_inv st"
  shows "set (es_used_session_ids st) \<subseteq> set (es_used_session_ids st') \<and>
    (sid \<in> set (es_used_session_ids st) \<longrightarrow> get_log sid st = None \<longrightarrow> get_log sid st' = None)"
  using assms
proof (induction rule: store_steps.induct)
  case (steps_step st st' st'')
  from steps_step.hyps(1) steps_step.prems have "store_inv st'" by (rule store_steps_inv)
  from store_step_used[OF steps_step.hyps(2) this, of sid] steps_step.IH[OF steps_step.prems]
  show ?case by auto
qed simp

lemma store_steps_log:
  assumes "store_steps st st'" "store_inv st" "get_log sid st = Some slog" "get_log sid st' = Some slog'"
  shows "\<exists>new. sl_events slog' = sl_events slog @ new"
  using assms
proof (induction arbitrary: slog' rule: store_steps.induct)
  case (steps_step st st1 st2)
  have inv: "store_inv st1" using steps_step.hyps(1) steps_step.prems(1) by (rule store_steps_inv)
  have used: "sid \<in> set (es_used_session_ids st1)"
    using store_steps_used[OF steps_step.hyps(1) steps_step.prems(1), of sid]
      get_log_used[OF steps_step.prems(1,2)] by blast
  obtain slog1 where slog1: "get_log sid st1 = Some slog1"
    using store_step_used[OF steps_step.hyps(2) inv, of sid] used steps_step.prems(3)
    by (cases "get_log sid st1") auto
  from steps_step.IH[OF steps_step.prems(1,2) slog1] store_step_log[OF steps_step.hyps(2) inv slog1]
    steps_step.prems(3)
  show ?case by auto
qed simp

end
