(* ===== verification/Store_Properties.thy ===== *)
theory Store_Properties
  imports Store_Runs
begin

text \<open>
  The properties of the event store over all its runs: legality of every log, append-only
  history, exactly-once Actions, single-use Session ids, the conditions for ending a Session,
  idempotent media retries and observation leases. The example stores at the start are runs on
  which the properties are evaluated.
\<close>

subsection \<open>Example runs\<close>

definition example_start :: start_session_command where
  "example_start = \<lparr>ss_session_id = 1, ss_request_id = None, ss_device_id = Some ''mock-1'', ss_at_ms = 10\<rparr>"

definition example_pending :: "test_event_payload \<Rightarrow> pending_event" where
  "example_pending payload =
     \<lparr>pv_session_id = 1, pv_request_id = Some (RpcNumber 5), pv_device_id = Some ''mock-1'',
      pv_at_ms = 20, pv_payload = payload\<rparr>"

definition example_end :: end_session_command where
  "example_end = \<lparr>en_session_id = 1, en_request_id = None, en_device_id = None, en_at_ms = 30,
                  en_outcome = Completed, en_reason = None\<rparr>"

definition example_call :: recorded_action_call where
  "example_call = \<lparr>rac_id = 7, rac_name = ''tap'', rac_arguments = JNull, rac_arguments_redacted = False\<rparr>"

definition example_failure :: error_info where
  "example_failure = \<lparr>ei_code = ''x'', ei_message = ''y'', ei_retryable = False, ei_details = None\<rparr>"

definition example_asset :: asset_ref where
  "example_asset =
     (let d = replicate 64 CHR ''a'' in
      \<lparr>ar_id = asset_id d, ar_media_type = ''image/png'', ar_uri = asset_uri d, ar_sha256 = Some d\<rparr>)"

definition example_stream :: media_stream_info where
  "example_stream = \<lparr>ms_id = 9, ms_kind = Screenshot, ms_media_type = ''image/png'', ms_viewport = None\<rparr>"

definition example_frame :: media_frame where
  "example_frame = \<lparr>mf_stream_id = 9, mf_frame_index = 1, mf_key_frame = False, mf_duration_ms = None,
                    mf_evidence = example_asset\<rparr>"

definition empty_store :: memory_event_store where
  "empty_store = with_event_stream_config event_stream_config_default"

definition active_store :: memory_event_store where
  "active_store = snd (start_session 100 example_start empty_store)"

definition busy_store :: memory_event_store where
  "busy_store = snd (append_event 101 (example_pending (ActionStarted example_call)) active_store)"

definition idle_store :: memory_event_store where
  "idle_store = snd (append_event 102
     (example_pending (ActionCompleted 7 (ActionFailed example_failure))) busy_store)"

definition finished_store :: memory_event_store where
  "finished_store = snd (end_session 103 example_end idle_store)"

definition deleted_store :: memory_event_store where
  "deleted_store = snd (delete_ended 1 finished_store)"

definition stream_store :: memory_event_store where
  "stream_store = snd (append_event 104 (example_pending (MediaStreamStarted example_stream)) active_store)"

definition frame_store :: memory_event_store where
  "frame_store = snd (append_event 105 (example_pending (MediaFrameCaptured example_frame)) stream_store)"

lemma example_reachable:
  "store_reachable empty_store" "store_reachable active_store" "store_reachable busy_store"
  "store_reachable idle_store" "store_reachable finished_store" "store_reachable deleted_store"
  "store_reachable stream_store" "store_reachable frame_store"
proof -
  show 0: "store_reachable empty_store"
    by (auto simp: store_reachable_def empty_store_def intro: steps_refl)
  show 1: "store_reachable active_store"
    unfolding active_store_def by (rule store_reachable_step[OF 0 step_start[OF surjective_pairing]])
  show 2: "store_reachable busy_store"
    unfolding busy_store_def by (rule store_reachable_step[OF 1 step_append[OF surjective_pairing]])
  show 3: "store_reachable idle_store"
    unfolding idle_store_def by (rule store_reachable_step[OF 2 step_append[OF surjective_pairing]])
  show 4: "store_reachable finished_store"
    unfolding finished_store_def by (rule store_reachable_step[OF 3 step_end[OF surjective_pairing]])
  show "store_reachable deleted_store"
    unfolding deleted_store_def by (rule store_reachable_step[OF 4 step_delete[OF surjective_pairing]])
  show 5: "store_reachable stream_store"
    unfolding stream_store_def by (rule store_reachable_step[OF 1 step_append[OF surjective_pairing]])
  show "store_reachable frame_store"
    unfolding frame_store_def by (rule store_reachable_step[OF 5 step_append[OF surjective_pairing]])
qed

lemma example_steps: "store_steps active_store finished_store" "store_steps active_store deleted_store"
proof -
  have 2: "store_steps active_store busy_store"
    unfolding busy_store_def by (rule steps_step[OF steps_refl step_append[OF surjective_pairing]])
  have 3: "store_steps active_store idle_store"
    unfolding idle_store_def by (rule steps_step[OF 2 step_append[OF surjective_pairing]])
  show 4: "store_steps active_store finished_store"
    unfolding finished_store_def by (rule steps_step[OF 3 step_end[OF surjective_pairing]])
  show "store_steps active_store deleted_store"
    unfolding deleted_store_def by (rule steps_step[OF 4 step_delete[OF surjective_pairing]])
qed

lemmas example_defs =
  example_start_def example_pending_def example_end_def example_call_def example_failure_def
  example_stream_def example_frame_def

lemmas store_eval =
  start_session_def append_event_def append_locked_def append_transition_def apply_transition_def
  end_session_def end_locked_def end_event_def delete_ended_def ensure_timestamp_def
  next_sequence_def checked_next_if update_info_after_append_def publish_event_def publish_def
  push_event_def pending_to_event_def is_lifecycle_payload_def get_log_def put_log_def Let_def
  with_event_stream_config_def MAX_SAFE_INTEGER_def FIRST_def

lemma active_store_eq:
  "active_store =
     \<lparr>es_sessions = [(1, \<lparr>sl_info = \<lparr>si_id = 1, si_state = Active, si_started_at_ms = 10,
          si_ended_at_ms = None, si_event_count = 1, si_last_sequence = 1\<rparr>,
        sl_events = [\<lparr>te_event_id = 100, te_session_id = 1, te_sequence = 1, te_request_id = None,
          te_device_id = Some ''mock-1'', te_at_ms = 10, te_payload = SessionStarted\<rparr>],
        sl_stream_tail = [], sl_seen_calls = [], sl_in_flight = [], sl_in_flight_observations = [],
        sl_seen_media_streams = [], sl_media_streams = []\<rparr>)],
      es_used_session_ids = [1], es_observation_leases = [], es_stream_shutdown = False,
      es_stream_config = event_stream_config_default\<rparr>"
  by (simp add: active_store_def empty_store_def example_defs store_eval)

lemmas example_eval =
  busy_store_def idle_store_def finished_store_def deleted_store_def stream_store_def
  frame_store_def active_store_eq example_defs store_eval put_evidence_new_def
  validate_media_type_def split_once_def valid_media_part_def MAX_MEDIA_TYPE_LENGTH_def
  is_ascii_graphic_def is_ascii_whitespace_def

lemma example_asset_ok: "from_asset_ref example_asset = Inr (replicate 64 CHR ''a'')"
  "ar_media_type example_asset = ''image/png''"
  by (simp_all add: from_asset_ref_def example_asset_def Let_def digest_parse_def SHA256_HEX_LENGTH_def
      list_all_iff is_lower_hex_def is_ascii_digit_def validate_media_type_def split_once_def valid_media_part_def
      MAX_MEDIA_TYPE_LENGTH_def is_ascii_graphic_def is_ascii_whitespace_def)

lemma example_logs:
  "map_option (length \<circ> sl_events) (get_log 1 active_store) = Some 1"
  "map_option (length \<circ> sl_events) (get_log 1 busy_store) = Some 2"
  "map_option (length \<circ> sl_events) (get_log 1 finished_store) = Some 4"
  "map_option (si_state \<circ> sl_info) (get_log 1 finished_store) = Some Ended"
  "map_option (length \<circ> sl_events) (get_log 1 frame_store) = Some 3"
  "map_option (si_state \<circ> sl_info) (get_log 1 frame_store) = Some Active"
  "get_log 1 deleted_store = None"
  by (simp_all add: example_eval example_asset_ok wrapping_add_u64_def)

subsection \<open>Every log is legal and the bookkeeping is its replay\<close>

text \<open>
  C1. In every reachable store, every Session log is legal (one start, consecutive sequence
  numbers, Actions and media streams opened and closed in order, nothing after the end), its
  \<open>SessionInfo\<close> describes it, the sets and maps kept beside it are what replaying its events
  gives, and the signals sent on its channel are its events after the first.
\<close>

theorem reachable_log_legal:
  assumes "store_reachable st" "get_log sid st = Some slog"
  shows "log_inv sid slog \<and> tail_inv (es_stream_shutdown st) slog"
  using store_reachable_inv[OF assms(1)] assms(2) by (simp add: store_inv_def)

theorem reachable_log_legal_witness:
  "\<exists>slog. get_log 1 finished_store = Some slog \<and> length (sl_events slog) = 4 \<and> log_inv 1 slog"
  using reachable_log_legal[OF example_reachable(5)] example_logs(3) by fastforce

subsection \<open>History is append-only\<close>

text \<open>
  C9. A log is never rewritten: if a Session has a log in a reachable store and still has one after
  any further operations, the later events are the earlier ones with new events after them.
\<close>

theorem log_append_only:
  assumes "store_reachable st" "store_steps st st'"
    and "get_log sid st = Some slog" "get_log sid st' = Some slog'"
  shows "\<exists>new. sl_events slog' = sl_events slog @ new"
  using store_steps_log[OF assms(2) store_reachable_inv[OF assms(1)] assms(3,4)] .

theorem log_append_only_witness:
  "\<exists>slog slog' new. get_log 1 active_store = Some slog \<and> get_log 1 finished_store = Some slog' \<and>
     sl_events slog' = sl_events slog @ new \<and> length new = 3"
proof -
  obtain slog slog' where logs: "get_log 1 active_store = Some slog" "length (sl_events slog) = 1"
    "get_log 1 finished_store = Some slog'" "length (sl_events slog') = 4"
    using example_logs(1,3) by auto
  from log_append_only[OF example_reachable(2) example_steps(1) logs(1,3)] logs show ?thesis by auto
qed

subsection \<open>Actions complete exactly once\<close>

lemma open_calls_started:
  "legal_log sid es \<Longrightarrow> open_calls es i = Some c \<Longrightarrow>
   \<exists>e call. e \<in> set es \<and> te_payload e = ActionStarted call \<and> rac_id call = i \<and> correlation_of e = c"
proof (induction arbitrary: i c rule: legal_log.induct)
  case (started e)
  then show ?case by (simp add: open_calls_def call_step_def)
next
  case (appended es e)
  show ?case
  proof (cases "open_calls es i = Some c")
    case True
    with appended.IH show ?thesis by fastforce
  next
    case False
    with appended.prems show ?thesis
      by (auto simp: log_views call_step_def split: test_event_payload.splits if_splits)
  qed
qed

lemma completed_after_started:
  assumes "legal_log sid (es @ e # rest)" "te_payload e = ActionCompleted i out"
  shows "\<exists>s call. s \<in> set es \<and> te_payload s = ActionStarted call \<and> rac_id call = i \<and>
    correlation_of s = correlation_of e"
  using assms
proof (induction rest rule: rev_induct)
  case Nil
  have "es \<noteq> []"
  proof
    assume "es = []"
    with Nil legal_log_started[of sid "[e]"] show False by simp
  qed
  with Nil legal_log_snocD[of sid es e] have "open_calls es i = Some (correlation_of e)" "legal_log sid es"
    by (auto simp: legal_event_def)
  with open_calls_started show ?case by blast
next
  case (snoc x xs)
  then have "legal_log sid (es @ e # xs)" using legal_log_snocD(1)[of sid "es @ e # xs" x] by simp
  with snoc show ?case by blast
qed

lemma ended_log_closed:
  assumes "legal_log sid es" "log_ended es"
  shows "open_calls es = Map.empty" "open_streams es = Map.empty"
proof -
  from assms have "open_calls es = Map.empty \<and> open_streams es = Map.empty"
  proof (cases rule: legal_log.cases)
    case (started e)
    with assms show ?thesis by (simp add: log_ended_def is_session_ended_def)
  next
    case (appended es' e)
    with assms show ?thesis
      by (cases "te_payload e")
        (auto simp: log_views is_session_ended_def legal_event_def call_step_def stream_step_def)
  qed
  then show "open_calls es = Map.empty" "open_streams es = Map.empty" by simp_all
qed

text \<open>
  C3. In an ended Session every Action that was started was completed exactly once, nothing else
  was completed, and each completion comes after its start with the same request and device.
\<close>

theorem ended_session_actions_exactly_once:
  assumes "store_reachable st" "get_log sid st = Some slog" "si_state (sl_info slog) = Ended"
  shows "distinct (started_calls (sl_events slog)) \<and> distinct (completed_calls (sl_events slog)) \<and>
    set (started_calls (sl_events slog)) = set (completed_calls (sl_events slog)) \<and>
    (\<forall>before e after i out. sl_events slog = before @ e # after \<and> te_payload e = ActionCompleted i out \<longrightarrow>
       (\<exists>s call. s \<in> set before \<and> te_payload s = ActionStarted call \<and> rac_id call = i \<and>
          correlation_of s = correlation_of e))"
proof -
  have "log_inv sid slog" using store_reachable_inv[OF assms(1)] assms(2) by (simp add: store_inv_def)
  then have legal: "legal_log sid (sl_events slog)" and "log_ended (sl_events slog)"
    using assms(3) by (auto simp: log_inv_def)
  then have "open_calls (sl_events slog) = Map.empty" by (rule ended_log_closed)
  with legal_log_calls[OF legal] have "distinct (started_calls (sl_events slog))"
    "distinct (completed_calls (sl_events slog))"
    "set (started_calls (sl_events slog)) = set (completed_calls (sl_events slog))"
    by auto
  moreover have "\<exists>s call. s \<in> set before \<and> te_payload s = ActionStarted call \<and> rac_id call = i \<and>
      correlation_of s = correlation_of e"
    if "sl_events slog = before @ e # after" "te_payload e = ActionCompleted i out" for before e after i out
    using completed_after_started[of sid before e after i out] legal that by simp
  ultimately show ?thesis by blast
qed

theorem ended_session_actions_exactly_once_witness:
  "\<exists>slog. get_log 1 finished_store = Some slog \<and> set (completed_calls (sl_events slog)) = {7}"
proof -
  obtain slog where slog: "get_log 1 finished_store = Some slog" "si_state (sl_info slog) = Ended"
    using example_logs(4) by auto
  have "map_option (started_calls \<circ> sl_events) (get_log 1 finished_store) = Some [7]"
    by (simp add: example_eval started_calls_def)
  with ended_session_actions_exactly_once[OF example_reachable(5) slog] slog show ?thesis by auto
qed

subsection \<open>Session ids are used once\<close>

text \<open>
  C10. Once a Session was started, no later \<open>start_session\<close> with its id succeeds, whatever happened
  in between, its deletion included; it fails with \<open>SessionAlreadyExists\<close> unless the timestamp is
  out of range or the store is shutting down, and leaves the store unchanged.
\<close>

theorem session_id_single_use:
  assumes "store_reachable st" "start_session eid c st = (Inr info, st1)" "store_steps st1 st2"
    and "ss_session_id c' = ss_session_id c"
  shows "snd (start_session eid' c' st2) = st2 \<and>
    fst (start_session eid' c' st2) =
      Inl (if MAX_SAFE_INTEGER < ss_at_ms c' then StoreTimestampOutOfRange
           else if es_stream_shutdown st2 then StoreShuttingDown
           else StoreSessionAlreadyExists (ss_session_id c))"
proof -
  have inv: "store_inv st1" using start_session_inv[OF store_reachable_inv[OF assms(1)] assms(2)] .
  have "ss_session_id c \<in> set (es_used_session_ids st1)"
    using assms(2) by (cases rule: start_session_cases[of eid c st]) (auto simp: put_log_def)
  with store_steps_used[OF assms(3) inv, of "ss_session_id c"]
  have "ss_session_id c \<in> set (es_used_session_ids st2)" by blast
  then show ?thesis using assms(4) by (simp add: start_session_def ensure_timestamp_def)
qed

theorem session_id_single_use_witness:
  "fst (start_session 200 example_start deleted_store) = Inl (StoreSessionAlreadyExists 1)"
proof -
  have "start_session 100 example_start empty_store = (Inr \<lparr>si_id = 1, si_state = Active,
      si_started_at_ms = 10, si_ended_at_ms = None, si_event_count = 1, si_last_sequence = 1\<rparr>, active_store)"
    by (simp add: active_store_def empty_store_def example_defs store_eval)
  from session_id_single_use[OF example_reachable(1) this example_steps(2) refl, of 200]
  show ?thesis by (simp add: example_eval)
qed

subsection \<open>Ending a Session\<close>

text \<open>
  C11. \<open>end_session\<close> succeeds exactly when the timestamp is in range, the store is not shutting
  down, the Session is active, and no observation lease, Action or media stream of it is open;
  then it appends one \<open>SessionEnded\<close> event. In every other case it returns the first error in
  the order timestamp, shutdown, unknown Session, ended Session, observations, Actions, media
  streams, exhausted sequence, with the exact number of open items, and changes nothing.
\<close>

theorem end_session_outcome:
  assumes "store_reachable st"
  shows "case end_session_error c st of
      Some e \<Rightarrow> end_session eid c st = (Inl e, st)
    | None \<Rightarrow> (\<exists>slog slog'. get_log (en_session_id c) st = Some slog \<and>
          end_session eid c st = (Inr (sl_info slog'), put_log (en_session_id c) slog' st) \<and>
          si_state (sl_info slog') = Ended \<and>
          sl_events slog' = sl_events slog @ [end_event eid (Suc (length (sl_events slog))) c])"
proof (cases "end_session_error c st")
  case None
  then obtain slog where "get_log (en_session_id c) st = Some slog" by (rule end_session_error_None)
  with None show ?thesis using end_session_eq[OF store_reachable_inv[OF assms], of eid c]
    by (auto intro!: exI[of _ "ended_log eid c slog"])
qed (simp add: end_session_eq[OF store_reachable_inv[OF assms]])

theorem end_session_outcome_witness:
  "end_session 9 example_end busy_store = (Inl (StoreActionsInFlight 1 1), busy_store)"
proof -
  have "map_option (sl_in_flight_observations) (get_log 1 busy_store) = Some []"
    "map_option (log_ended \<circ> sl_events) (get_log 1 busy_store) = Some False"
    "map_option (open_calls \<circ> sl_events) (get_log 1 busy_store) =
       Some [7 \<mapsto> \<lparr>co_request_id = Some (RpcNumber 5), co_device_id = Some ''mock-1''\<rparr>]"
    "\<not> es_stream_shutdown busy_store"
    by (simp_all add: example_eval log_ended_def is_session_ended_def open_calls_def call_step_def
        correlation_of_def)
  then have "end_session_error example_end busy_store = Some (StoreActionsInFlight 1 1)"
    by (auto simp: end_session_error_def example_end_def MAX_SAFE_INTEGER_def split: option.splits)
  with end_session_outcome[OF example_reachable(3), of example_end 9] show ?thesis by simp
qed

subsection \<open>Exact media retries\<close>

lemma open_streams_started:
  "legal_log sid es \<Longrightarrow> open_streams es i = Some s \<Longrightarrow> i \<in> set (started_streams es)"
proof (induction arbitrary: i s rule: legal_log.induct)
  case (started e)
  then show ?case by (simp add: open_streams_def stream_step_def)
next
  case (appended es e)
  then show ?case
    by (cases "te_payload e") (auto simp: log_views stream_step_def split: option.splits if_splits)
qed

lemma frame_position:
  "legal_log sid es \<Longrightarrow> e \<in> set es \<Longrightarrow> te_payload e = MediaFrameCaptured f \<Longrightarrow>
   mf_stream_id f \<in> set (started_streams es) \<and>
   (\<forall>s. open_streams es (mf_stream_id f) = Some s \<longrightarrow> mf_frame_index f < mm_next_frame_index s)"
proof (induction rule: legal_log.induct)
  case (appended es x)
  show ?case
  proof (cases "e \<in> set es")
    case True
    with appended have "mf_stream_id f \<in> set (started_streams es)"
      "\<And>s. open_streams es (mf_stream_id f) = Some s \<Longrightarrow> mf_frame_index f < mm_next_frame_index s"
      by auto
    with appended.hyps(7) show ?thesis
      by (cases "te_payload x")
        (auto simp: log_views stream_step_def legal_event_def less_Suc_eq split: option.splits)
  next
    case False
    with appended.prems have "e = x" by simp
    with appended.hyps(1,7) appended.prems(2) show ?thesis
      by (auto simp: log_views stream_step_def legal_event_def open_streams_started)
  qed
qed auto

lemma frame_unique:
  "legal_log sid es \<Longrightarrow> e1 \<in> set es \<Longrightarrow> e2 \<in> set es \<Longrightarrow>
   te_payload e1 = MediaFrameCaptured f \<Longrightarrow> te_payload e2 = MediaFrameCaptured f \<Longrightarrow> e1 = e2"
proof (induction rule: legal_log.induct)
  case (appended es x)
  have "False" if "e \<in> set es" "te_payload e = MediaFrameCaptured f" "te_payload x = MediaFrameCaptured f" for e
    using frame_position[OF appended.hyps(1) that(1,2)] appended.hyps(7) that(3)
    by (auto simp: legal_event_def)
  with appended show ?case by auto
qed auto

lemma stream_end_position:
  "legal_log sid es \<Longrightarrow> e \<in> set es \<Longrightarrow> te_payload e = MediaStreamEnded i n \<Longrightarrow>
   i \<in> set (started_streams es) \<and> open_streams es i = None"
proof (induction rule: legal_log.induct)
  case (appended es x)
  show ?case
  proof (cases "e \<in> set es")
    case True
    with appended have "i \<in> set (started_streams es)" "open_streams es i = None" by auto
    with appended.hyps(7) show ?thesis
      by (cases "te_payload x")
        (auto simp: log_views stream_step_def legal_event_def split: option.splits)
  next
    case False
    with appended.prems have "e = x" by simp
    with appended.hyps(1,7) appended.prems(2) show ?thesis
      by (auto simp: log_views stream_step_def legal_event_def open_streams_started)
  qed
qed auto

lemma stream_end_unique:
  "legal_log sid es \<Longrightarrow> e1 \<in> set es \<Longrightarrow> e2 \<in> set es \<Longrightarrow>
   te_payload e1 = MediaStreamEnded i n \<Longrightarrow> te_payload e2 = MediaStreamEnded i n \<Longrightarrow> e1 = e2"
proof (induction rule: legal_log.induct)
  case (appended es x)
  have "False" if "e \<in> set es" "te_payload e = MediaStreamEnded i n" "te_payload x = MediaStreamEnded i n" for e
    using stream_end_position[OF appended.hyps(1) that(1,2)] appended.hyps(7) that(3)
    by (auto simp: legal_event_def)
  with appended show ?case by auto
qed auto

definition same_request :: "test_event \<Rightarrow> pending_event \<Rightarrow> bool" where
  "same_request e p \<longleftrightarrow> te_request_id e = pv_request_id p \<and> te_device_id e = pv_device_id p \<and>
     te_at_ms e = pv_at_ms p \<and> te_payload e = pv_payload p"

definition is_frame_or_end :: "test_event_payload \<Rightarrow> bool" where
  "is_frame_or_end p = (case p of MediaFrameCaptured _ \<Rightarrow> True | MediaStreamEnded _ _ \<Rightarrow> True | _ \<Rightarrow> False)"

lemma exact_media_retry_Some:
  "exact_media_retry slog p = Some e \<Longrightarrow> e \<in> set (sl_events slog) \<and> same_request e p"
  unfolding exact_media_retry_def same_request_def
  by (drule find_SomeD) (auto dest: payload_eqD)

lemma exact_media_retry_unique:
  assumes legal: "legal_log sid (sl_events slog)" and e: "e \<in> set (sl_events slog)" "same_request e p"
    and kind: "is_frame_or_end (pv_payload p)"
  shows "exact_media_retry slog p = Some e"
proof -
  have refl: "payload_eq (te_payload e) (pv_payload p)"
    using e(2) kind by (auto simp: same_request_def is_frame_or_end_def split: test_event_payload.splits)
  have "exact_media_retry slog p \<noteq> None"
    using e refl by (auto simp: exact_media_retry_def find_None_iff same_request_def)
  then obtain e' where e': "exact_media_retry slog p = Some e'" by blast
  from exact_media_retry_Some[OF this] have "e' \<in> set (sl_events slog)" "te_payload e' = te_payload e"
    using e(2) by (auto simp: same_request_def)
  then have "e' = e"
    using e kind frame_unique[OF legal] stream_end_unique[OF legal]
    by (cases "pv_payload p") (auto simp: same_request_def is_frame_or_end_def)
  with e' show ?thesis by simp
qed

lemma retry_transition:
  assumes inv: "log_inv sid slog" and e: "e \<in> set (sl_events slog)" "same_request e p"
    and kind: "is_frame_or_end (pv_payload p)"
  shows "append_transition slog p = Inr (Inl e)"
proof -
  have legal: "legal_log sid (sl_events slog)"
    and streams: "map_of (sl_media_streams slog) = open_streams (sl_events slog)"
    using inv by (simp_all add: log_inv_def)
  have found: "retry_or slog p x = Inr (Inl e)" for x
    using exact_media_retry_unique[OF legal e kind] by (simp add: retry_or_def)
  have payload: "te_payload e = pv_payload p" using e(2) by (simp add: same_request_def)
  show ?thesis
  proof (cases "pv_payload p")
    case (MediaFrameCaptured f)
    with frame_position[OF legal e(1)] payload
    have "\<And>s. open_streams (sl_events slog) (mf_stream_id f) = Some s \<Longrightarrow> mf_frame_index f < mm_next_frame_index s"
      by simp
    with MediaFrameCaptured show ?thesis
      by (fastforce simp: append_transition_def streams found split: option.splits)
  next
    case (MediaStreamEnded i n)
    with stream_end_position[OF legal e(1)] payload show ?thesis
      by (simp add: append_transition_def streams found)
  qed (use kind in \<open>simp_all add: is_frame_or_end_def\<close>)
qed

lemma append_event_recorded:
  assumes inv: "store_inv st" and app: "append_event eid p st = (Inr e, st')"
  shows "pv_at_ms p \<le> MAX_SAFE_INTEGER \<and> \<not> is_lifecycle_payload (pv_payload p) \<and>
    (\<exists>slog. get_log (pv_session_id p) st' = Some slog \<and> (is_frame_or_end (pv_payload p) \<longrightarrow>
       e \<in> set (sl_events slog) \<and> same_request e p))"
proof -
  have guards: "pv_at_ms p \<le> MAX_SAFE_INTEGER" "\<not> is_lifecycle_payload (pv_payload p)"
    using app by (auto simp: append_event_def ensure_timestamp_def split: if_splits)
  from inv app show ?thesis
  proof (cases rule: append_event_cases)
    case (retry slog e')
    then have "is_frame_or_end (pv_payload p) \<Longrightarrow> exact_media_retry slog p = Some e"
      by (auto simp: append_transition_def retry_or_def is_frame_or_end_def
          split: test_event_payload.splits option.splits if_splits)
    with retry guards show ?thesis using exact_media_retry_Some by blast
  next
    case (new slog t)
    with guards show ?thesis by (auto simp: same_request_def pending_to_event_def)
  qed simp
qed

text \<open>
  C7. A media frame or stream end whose acknowledgement was lost can be sent again at any later
  time: as long as the Session is active, the store is not shutting down and sequence numbers
  remain, the exact retry returns the event first recorded, with its id and sequence, and the
  store does not change.
\<close>

theorem media_retry_returns_original:
  assumes "store_reachable st" "append_event eid p st = (Inr e, st1)" "is_frame_or_end (pv_payload p)"
    and "store_steps st1 st2" "\<not> es_stream_shutdown st2" "get_log (pv_session_id p) st2 = Some slog"
    and "si_state (sl_info slog) = Active" "length (sl_events slog) < MAX_SAFE_INTEGER"
  shows "append_event eid' p st2 = (Inr e, st2)"
proof -
  have inv: "store_inv st" using assms(1) by (rule store_reachable_inv)
  have inv1: "store_inv st1" using append_event_inv[OF inv assms(2)] .
  have inv2: "store_inv st2" using store_steps_inv[OF assms(4) inv1] .
  from append_event_recorded[OF inv assms(2)] assms(3) obtain slog1 where
    slog1: "get_log (pv_session_id p) st1 = Some slog1" "e \<in> set (sl_events slog1)" "same_request e p"
    and guards: "pv_at_ms p \<le> MAX_SAFE_INTEGER" "\<not> is_lifecycle_payload (pv_payload p)" by blast
  from store_steps_log[OF assms(4) inv1 slog1(1) assms(6)] slog1(2)
  have e: "e \<in> set (sl_events slog)" by auto
  have log: "log_inv (pv_session_id p) slog" using inv2 assms(6) by (simp add: store_inv_def)
  from retry_transition[OF log e slog1(3) assms(3)]
  have "append_locked eid' p slog st2 = (Inr e, st2)"
    using log assms(8) by (simp add: append_locked_def next_sequence_def log_inv_def checked_next_if)
  then show ?thesis using guards assms(5-7) by (simp add: append_event_def ensure_timestamp_def)
qed

theorem media_retry_returns_original_witness:
  "let p = example_pending (MediaFrameCaptured example_frame) in
   \<exists>e. append_event 105 p stream_store = (Inr e, frame_store) \<and>
       append_event 106 p frame_store = (Inr e, frame_store)"
proof -
  let ?p = "example_pending (MediaFrameCaptured example_frame)"
  have ok: "is_ok (fst (append_event 105 ?p stream_store))" "\<not> es_stream_shutdown frame_store"
    by (simp_all add: example_eval example_asset_ok wrapping_add_u64_def)
  then obtain e where e: "append_event 105 ?p stream_store = (Inr e, frame_store)"
    unfolding frame_store_def by (metis is_ok_iff prod.collapse)
  obtain slog where slog: "get_log 1 frame_store = Some slog" "length (sl_events slog) = 3"
    "si_state (sl_info slog) = Active" using example_logs(5,6) by auto
  have "append_event 106 ?p frame_store = (Inr e, frame_store)"
    using slog ok(2) by (intro media_retry_returns_original[OF example_reachable(7) e _ steps_refl, where slog = slog])
      (simp_all add: example_pending_def is_frame_or_end_def MAX_SAFE_INTEGER_def)
  with e show ?thesis by (auto simp: Let_def)
qed

end
