(* ===== verification/Store_Reads.thy ===== *)
theory Store_Reads
  imports Store_Properties
begin

text \<open>
  Observation leases, paged reads, lookups and subscriptions of the event store, over all its
  reachable states.
\<close>

subsection \<open>Observation leases\<close>

lemma lease_log:
  assumes "store_inv st" "map_of (es_observation_leases st) lease = Some ls"
  shows "\<exists>slog. get_log (ol_session_id ls) st = Some slog \<and>
    (lease \<in> set (sl_in_flight_observations slog) \<longleftrightarrow> \<not> ol_released ls)"
proof -
  have "lease_inv st" using assms(1) by (simp add: store_inv_def)
  with assms(2) show ?thesis unfolding lease_inv_def by blast
qed

lemma store_step_lease:
  assumes "store_step st st'" "store_inv st" "map_of (es_observation_leases st) lease = Some ls"
    and "get_log (ol_session_id ls) st' \<noteq> None"
  shows "\<exists>ls'. map_of (es_observation_leases st') lease = Some ls' \<and> ol_session_id ls' = ol_session_id ls"
  using assms
proof (induction rule: store_step.induct)
  case (step_start eid c st r1 st')
  then show ?case by (cases rule: start_session_cases[of eid c st]) auto
next
  case (step_reserve draws sid st r2 st')
  from step_reserve(1) show ?case
    by (cases rule: reserve_observation_cases) (use step_reserve in \<open>auto simp: map_of_update_fun\<close>)
next
  case (step_release sid lease' st r3 st')
  from step_release(2,1) show ?case
    by (cases rule: release_observation_cases) (use step_release in \<open>auto simp: map_of_update_fun\<close>)
next
  case (step_append eid p st r4 st')
  from step_append(2,1) show ?case
    by (cases rule: append_event_cases) (use step_append in auto)
next
  case (step_end eid ce st r5 st')
  then show ?case by (auto simp: end_session_eq split: option.splits)
next
  case (step_delete sid st r6 st')
  from step_delete(1) show ?case
  proof (cases rule: delete_ended_cases)
    case (gone slog)
    have "ol_session_id ls \<noteq> sid"
      using step_delete(4) by (auto simp: gone(4) get_log_def map_of_delete_fun)
    moreover have "hm_wf (es_observation_leases st)" using step_delete(2) by (simp add: store_inv_def)
    ultimately show ?thesis
      using step_delete(3) map_of_filter_lease[of "es_observation_leases st" "\<lambda>l. ol_session_id l \<noteq> sid" lease]
      by (simp add: gone(4))
  qed (use step_delete in auto)
next
  case (step_shutdown st b st')
  then show ?case by (auto simp: begin_stream_shutdown_def split: if_splits)
qed

lemma store_steps_lease:
  assumes "store_steps st st'" "store_inv st" "map_of (es_observation_leases st) lease = Some ls"
    and "get_log (ol_session_id ls) st' \<noteq> None"
  shows "\<exists>ls'. map_of (es_observation_leases st') lease = Some ls' \<and> ol_session_id ls' = ol_session_id ls"
  using assms
proof (induction rule: store_steps.induct)
  case (steps_step st st1 st2)
  let ?sid = "ol_session_id ls"
  have inv1: "store_inv st1" using steps_step.hyps(1) steps_step.prems(1) by (rule store_steps_inv)
  have "get_log ?sid st \<noteq> None"
    using lease_log[OF steps_step.prems(1,2)] by auto
  then have "?sid \<in> set (es_used_session_ids st1)"
    using store_steps_used[OF steps_step.hyps(1) steps_step.prems(1), of ?sid]
      get_log_used[OF steps_step.prems(1), of ?sid] by blast
  then have "get_log ?sid st1 \<noteq> None"
    using store_step_used[OF steps_step.hyps(2) inv1, of ?sid] steps_step.prems(3) by blast
  with steps_step.IH[OF steps_step.prems(1,2)] obtain ls1 where
    ls1: "map_of (es_observation_leases st1) lease = Some ls1" "ol_session_id ls1 = ?sid" by blast
  with store_step_lease[OF steps_step.hyps(2) inv1 ls1(1)] steps_step.prems(3) show ?case by simp
qed blast

text \<open>
  C13. A lease reserved for a Session can be released as long as the Session's record exists, whatever
  happened in between: the release succeeds, the observation is no longer in flight, a second
  release succeeds and changes nothing, and a release naming another Session is refused with
  \<open>InvalidObservationLease\<close> and changes nothing.
\<close>

theorem observation_lease_release:
  assumes "store_reachable st" "reserve_observation draws sid st = Some (Inr lease, st1)"
    and "store_steps st1 st2" "get_log sid st2 = Some slog"
  shows "\<exists>st3 slog3. release_observation sid lease st2 = (Inr (), st3) \<and>
      get_log sid st3 = Some slog3 \<and> lease \<notin> set (sl_in_flight_observations slog3) \<and>
      release_observation sid lease st3 = (Inr (), st3) \<and>
      (sid' \<noteq> sid \<longrightarrow>
         release_observation sid' lease st2 = (Inl (StoreInvalidObservationLease sid' lease), st2))"
proof -
  have inv: "store_inv st" using assms(1) by (rule store_reachable_inv)
  have inv1: "store_inv st1" using reserve_observation_inv[OF inv assms(2)] .
  have inv2: "store_inv st2" using store_steps_inv[OF assms(3) inv1] .
  have "\<exists>ls. map_of (es_observation_leases st1) lease = Some ls \<and> ol_session_id ls = sid"
    using assms(2) by (cases rule: reserve_observation_cases) (auto simp: map_of_update_fun)
  then obtain ls where ls: "map_of (es_observation_leases st2) lease = Some ls" "ol_session_id ls = sid"
    using store_steps_lease[OF assms(3) inv1] assms(4) by auto
  have other: "sid' \<noteq> sid \<longrightarrow>
      release_observation sid' lease st2 = (Inl (StoreInvalidObservationLease sid' lease), st2)"
    using ls by (auto simp: release_observation_def)
  obtain r st3 where run: "release_observation sid lease st2 = (r, st3)" by fastforce
  from inv2 run show ?thesis
  proof (cases rule: release_observation_cases)
    case (again ls')
    moreover have "lease \<notin> set (sl_in_flight_observations slog)"
      using lease_log[OF inv2 again(3)] again(4,5) assms(4) by auto
    ultimately show ?thesis using run other assms(4) by auto
  next
    case (new slog' ls')
    then have "release_observation sid lease st3 = (Inr (), st3)"
      by (simp add: release_observation_def map_of_update_fun)
    with new run other show ?thesis by auto
  qed (use ls in auto)
qed

theorem observation_lease_release_witness:
  "\<exists>st1 st3. reserve_observation [5] 1 active_store = Some (Inr 5, st1) \<and>
     release_observation 1 5 st1 = (Inr (), st3) \<and> release_observation 1 5 st3 = (Inr (), st3) \<and>
     release_observation 2 5 st1 = (Inl (StoreInvalidObservationLease 2 5), st1)"
proof -
  have ok: "\<exists>st1. reserve_observation [5] 1 active_store = Some (Inr 5, st1)"
    by (simp add: reserve_observation_def active_store_eq get_log_def Let_def)
  then obtain st1 where st1: "reserve_observation [5] 1 active_store = Some (Inr 5, st1)" by blast
  then have "\<exists>slog. get_log 1 st1 = Some slog"
    by (cases rule: reserve_observation_cases) auto
  then obtain slog where slog: "get_log 1 st1 = Some slog" by blast
  from observation_lease_release[OF example_reachable(2) st1 steps_refl slog, of 2] st1
  show ?thesis by auto
qed

subsection \<open>Paged export\<close>

text \<open>
  A client that exports an ended Session page by page, each page starting after the last event
  of the page before, until a page is empty. \<open>None\<close> is a panic, an error or too little fuel.
\<close>

fun export_all ::
  "(uuid \<Rightarrow> string) \<Rightarrow> nat \<Rightarrow> session_id \<Rightarrow> nat \<Rightarrow> event_sequence option \<Rightarrow> memory_event_store \<Rightarrow>
   test_event list option" where
  "export_all u 0 sid limit after st = None"
| "export_all u (Suc fuel) sid limit after st =
     (case export_session_page u sid after limit st of
        Some (Inr (info, [])) \<Rightarrow> Some []
      | Some (Inr (info, e # es)) \<Rightarrow>
          map_option ((@) (e # es)) (export_all u fuel sid limit (Some (te_sequence (last (e # es)))) st)
      | _ \<Rightarrow> None)"

lemma contiguous_nth:
  "contiguous sid n es \<Longrightarrow> k < length es \<Longrightarrow> te_sequence (es ! k) = Suc (n + k)"
  by (induction es arbitrary: n k) (auto simp: nth_Cons split: nat.splits)

lemma export_page:
  assumes inv: "store_inv st" and log: "get_log sid st = Some slog" "si_state (sl_info slog) = Ended"
    and limit: "1 \<le> limit" "limit \<le> MAX_EVENTS_LIST_PAGE_SIZE"
    and start: "start \<le> length (sl_events slog)"
      "case after of None \<Rightarrow> start = 0 | Some a \<Rightarrow> start = a"
  shows "export_session_page u sid after limit st = Some (Inr (sl_info slog, take limit (drop start (sl_events slog))))"
proof -
  have li: "log_inv sid slog" using inv log by (simp add: store_inv_def)
  have info: "si_last_sequence (sl_info slog) = length (sl_events slog)"
    "si_event_count (sl_info slog) = length (sl_events slog)" "length (sl_events slog) \<le> MAX_SAFE_INTEGER"
    using li legal_log_length by (auto simp: log_inv_def)
  then have small: "length (sl_events slog) \<le> U64_MAX" using MAX_SAFE_INTEGER_less_U64_MAX by simp
  have sat: "min (saturating_add_u64 start limit) (length (sl_events slog)) =
      min (start + limit) (length (sl_events slog))"
    using start(1) small by (auto simp: saturating_add_u64_def)
  have "export_page_range u (sl_info slog) (length (sl_events slog)) after limit =
      Inr (start, min (start + limit) (length (sl_events slog)))"
    using limit log(2) info small start sat
    by (auto simp: export_page_range_def Let_def usize_try_from_def split: option.splits)
  moreover have "drop start (take (min (start + limit) (length (sl_events slog))) (sl_events slog)) =
      take limit (drop start (sl_events slog))"
    by (cases "start + limit \<le> length (sl_events slog)") (simp_all add: drop_take min_def)
  ultimately show ?thesis
    using log start(1) by (simp add: export_session_page_def slice_def)
qed

lemma export_all_from:
  assumes inv: "store_inv st" and log: "get_log sid st = Some slog" "si_state (sl_info slog) = Ended"
    and limit: "1 \<le> limit" "limit \<le> MAX_EVENTS_LIST_PAGE_SIZE"
  shows "start \<le> length (sl_events slog) \<Longrightarrow> length (sl_events slog) - start < fuel \<Longrightarrow>
    (case after of None \<Rightarrow> start = 0 | Some a \<Rightarrow> start = a) \<Longrightarrow>
    export_all u fuel sid limit after st = Some (drop start (sl_events slog))"
proof (induction fuel arbitrary: start after)
  case (Suc fuel)
  have contig: "contiguous sid 0 (sl_events slog)"
    using inv log legal_log_contiguous by (auto simp: store_inv_def log_inv_def)
  note page = export_page[OF inv log limit Suc.prems(1,3), of u]
  show ?case
  proof (cases "start = length (sl_events slog)")
    case True
    then show ?thesis using page by simp
  next
    case False
    let ?k = "min limit (length (sl_events slog) - start)"
    let ?page = "take limit (drop start (sl_events slog))"
    have k: "length ?page = ?k" "0 < ?k" using False Suc.prems(1) limit by auto
    then have ne: "?page \<noteq> []" by auto
    have "last ?page = ?page ! (?k - 1)" using ne k(1) by (simp add: last_conv_nth)
    also have "\<dots> = sl_events slog ! (start + (?k - 1))"
      using k(2) Suc.prems(1) by (subst nth_take) auto
    also have "start + (?k - 1) = start + ?k - 1" using k(2) by linarith
    finally have last: "last ?page = sl_events slog ! (start + ?k - 1)" .
    have bound: "start + ?k - 1 < length (sl_events slog)" using k Suc.prems(1) by linarith
    have "te_sequence (last ?page) = Suc (0 + (start + ?k - 1))"
      unfolding last by (rule contiguous_nth[OF contig bound])
    also have "\<dots> = start + ?k" using k(2) by linarith
    finally have seq: "te_sequence (last ?page) = start + ?k" .
    have "export_all u fuel sid limit (Some (te_sequence (last ?page))) st =
        Some (drop (start + ?k) (sl_events slog))"
      unfolding seq using k(2) Suc.prems by (intro Suc.IH) auto
    moreover have "?page @ drop (start + ?k) (sl_events slog) = drop start (sl_events slog)"
    proof -
      have "?page = take ?k (drop start (sl_events slog))" by (simp add: min_def)
      then show ?thesis by (metis add.commute append_take_drop_id drop_drop)
    qed
    ultimately show ?thesis using page ne
      by (cases ?page) (simp_all add: page)
  qed
qed simp

text \<open>
  C14. Exporting an ended Session page by page with any limit from 1 to 1000 never panics, ends
  after at most one call per event and one more, and gives exactly the Session's log.
\<close>

theorem export_pages_give_log:
  assumes "store_reachable st" "get_log sid st = Some slog" "si_state (sl_info slog) = Ended"
    and "1 \<le> limit" "limit \<le> MAX_EVENTS_LIST_PAGE_SIZE"
  shows "export_all u (Suc (length (sl_events slog))) sid limit None st = Some (sl_events slog)"
  using export_all_from[OF store_reachable_inv[OF assms(1)] assms(2-5), of 0 "Suc (length (sl_events slog))" None u]
  by simp

theorem export_pages_give_log_witness:
  "\<exists>slog. get_log 1 finished_store = Some slog \<and>
     export_all (\<lambda>_. []) 5 1 3 None finished_store = Some (sl_events slog)"
proof -
  obtain slog where slog: "get_log 1 finished_store = Some slog" "si_state (sl_info slog) = Ended"
    "length (sl_events slog) = 4" using example_logs(3,4) by auto
  from export_pages_give_log[OF example_reachable(5) slog(1,2), of 3 "\<lambda>_. []"] slog show ?thesis
    by (simp add: MAX_EVENTS_LIST_PAGE_SIZE_def)
qed

subsection \<open>Lookups\<close>

definition log_asset_refs :: "session_log \<Rightarrow> asset_ref set" where
  "log_asset_refs slog = (\<Union>e \<in> set (sl_events slog). set (event_asset_refs (te_payload e)))"

lemma remove_reachable_spec:
  "case remove_reachable es missing of
     None \<Rightarrow> set missing \<subseteq> (\<Union>e \<in> set es. set (event_asset_refs (te_payload e)))
   | Some m \<Rightarrow> set m = set missing - (\<Union>e \<in> set es. set (event_asset_refs (te_payload e)))"
proof (induction es arbitrary: missing)
  case (Cons e es)
  let ?m = "filter (\<lambda>a. a \<notin> set (event_asset_refs (te_payload e))) missing"
  show ?case
  proof (cases "?m = []")
    case True
    then show ?thesis by (auto simp: filter_empty_conv)
  next
    case False
    then have "remove_reachable (e # es) missing = remove_reachable es ?m" by (simp add: Let_def)
    with Cons.IH[of ?m] show ?thesis by (auto split: option.splits)
  qed
qed simp

text \<open>
  C16. \<open>first_unreachable_asset_reference\<close> returns the first requested reference, in the order of
  the request, that no observation, Action result, media frame or verdict of the Session's log
  holds, and none when all are held.
\<close>

theorem first_unreachable_is_first:
  "first_unreachable_asset_reference sid assets st =
     (case get_log sid st of
        None \<Rightarrow> Inl (StoreSessionNotFound sid)
      | Some slog \<Rightarrow> Inr (find (\<lambda>a. a \<notin> log_asset_refs slog) assets))"
proof (cases "get_log sid st")
  case (Some slog)
  note spec = remove_reachable_spec[where es = "sl_events slog" and missing = "remdups assets"]
  show ?thesis
  proof (cases "remove_reachable (sl_events slog) (remdups assets)")
    case None
    with spec have "set assets \<subseteq> log_asset_refs slog" by (simp add: log_asset_refs_def)
    then have "find (\<lambda>a. a \<notin> log_asset_refs slog) assets = None" by (auto simp: find_None_iff)
    with None Some show ?thesis by (simp add: first_unreachable_asset_reference_def)
  next
    case (Some m)
    with spec have "set m = set assets - log_asset_refs slog" by (simp add: log_asset_refs_def)
    then have "find (\<lambda>a. a \<in> set m) assets = find (\<lambda>a. a \<notin> log_asset_refs slog) assets"
      by (intro find_cong_set) auto
    with Some \<open>get_log sid st = Some slog\<close> show ?thesis
      by (simp add: first_unreachable_asset_reference_def)
  qed
qed (simp add: first_unreachable_asset_reference_def)

subsection \<open>Subscriptions\<close>

lemma legal_log_ended_inside:
  "legal_log sid (es @ [e]) \<Longrightarrow> x \<in> set es \<Longrightarrow> \<not> is_session_ended (te_payload x)"
proof (induction es arbitrary: e rule: rev_induct)
  case (snoc y ys)
  have legal: "legal_log sid (ys @ [y])" "\<not> log_ended (ys @ [y])"
    using legal_log_snocD(1,2)[of sid "ys @ [y]" e] snoc.prems(1) by simp_all
  from snoc.prems(2) snoc.IH[OF legal(1)] legal(2) show ?case by (auto simp: log_views)
qed simp

lemma ended_after_none:
  "(\<And>x. x \<in> set es \<Longrightarrow> \<not> is_session_ended (te_payload x)) \<Longrightarrow> ended_after es k = k"
  by (induction es arbitrary: k) (auto simp: ended_after_def)

lemma ended_after_append: "ended_after (xs @ ys) k = ended_after ys (ended_after xs k)"
  by (simp add: ended_after_def)

lemma ended_after_suffix:
  assumes legal: "legal_log sid (ev @ new)" and ne: "ev \<noteq> []" and a: "a \<le> length ev"
  shows "ended_after (drop a ev @ new) (if log_ended ev then Some (length ev) else None) =
     (if log_ended (ev @ new) then Some (length (ev @ new)) else None)"
proof -
  let ?k = "if log_ended ev then Some (length ev) else None"
  obtain xs z where all: "ev @ new = xs @ [z]" using ne by (metis append_is_Nil_conv rev_exhaust)
  have inner: "\<not> is_session_ended (te_payload x)" if "x \<in> set xs" for x
    using legal_log_ended_inside[of sid xs z x] legal that by (simp add: all)
  have ended: "log_ended (ev @ new) \<longleftrightarrow> is_session_ended (te_payload z)" by (simp add: all log_views)
  have seq: "te_sequence z = length (ev @ new)"
    using contiguous_nth[OF legal_log_contiguous[OF legal], of "length xs"] by (simp add: all)
  show ?thesis
  proof (cases "drop a ev @ new = []")
    case True
    then show ?thesis by (simp add: ended_after_def)
  next
    case False
    have D: "drop a ev @ new = drop a (xs @ [z])" using a by (simp flip: all)
    then have "a \<le> length xs" using False by (cases "a \<le> length xs") auto
    then have ys: "drop a ev @ new = drop a xs @ [z]" by (simp add: D)
    have ys_after: "ended_after (drop a xs) ?k = ?k"
      using inner in_set_dropD[of _ a xs] by (intro ended_after_none) blast
    have "log_ended ev \<Longrightarrow> is_session_ended (te_payload z)"
    proof -
      assume "log_ended ev"
      then have "last ev \<in> set (xs @ [z])" "is_session_ended (te_payload (last ev))"
        using all ne by (auto simp: log_ended_def simp flip: all)
      with inner show ?thesis by auto
    qed
    with ys_after seq ended show ?thesis unfolding ys ended_after_append
      by (auto simp: ended_after_def)
  qed
qed

lemma subscribe_after_Inr:
  assumes "subscribe_after u n sid after st = Inr sub"
  obtains slog where "get_log sid st = Some slog" "\<not> es_stream_shutdown st"
    "(case after of None \<Rightarrow> 0 | Some a \<Rightarrow> a) \<le> length (sl_events slog)"
    "sub = event_subscription_new sid (drop (case after of None \<Rightarrow> 0 | Some a \<Rightarrow> a) (sl_events slog)) after
       (si_last_sequence (sl_info slog)) (si_state (sl_info slog))"
proof (cases "get_log sid st")
  case None
  with assms show ?thesis by (simp add: subscribe_after_def split: if_splits)
next
  case (Some slog)
  with assms show ?thesis
    by (intro that[of slog])
      (auto simp: subscribe_after_def Let_def res_bind_eq_Inr ok_or_eq_Inr usize_try_from_eq_Some
        split: if_splits option.splits)
qed

text \<open>Reading the replay and then the live tail up to its end.\<close>

lemma consume_replay_and_tail:
  assumes "at_tail sid a k sub" "sub_snapshot sub = old" "contiguous sid a old" "contiguous sid (a + length old) new"
  shows "\<exists>s. consume (length (old @ new) + Suc (Suc m)) (map SignalEvent new @ signals) sub =
       map ItemEvent (old @ new) @ consume (Suc (Suc m)) signals s \<and>
     at_tail sid (a + length (old @ new)) (ended_after (old @ new) k) s \<and> sub_snapshot s = []"
proof -
  obtain s1 where s1: "consume (length old + (length new + Suc (Suc m))) (map SignalEvent new @ signals) sub =
      map ItemEvent old @ consume (length new + Suc (Suc m)) (map SignalEvent new @ signals) s1"
    "at_tail sid (a + length old) (ended_after old k) s1" "sub_snapshot s1 = []"
    using consume_snapshot[OF assms(1-3)] by blast
  obtain s2 where s2: "consume (length new + Suc (Suc m)) (map SignalEvent new @ signals) s1 =
      map ItemEvent new @ consume (Suc (Suc m)) signals s2"
    "at_tail sid (a + length old + length new) (ended_after new (ended_after old k)) s2" "sub_snapshot s2 = []"
    using consume_tail[OF s1(2,3) assms(4)] by blast
  have "length (old @ new) + Suc (Suc m) = length old + (length new + Suc (Suc m))" by simp
  with s1(1) s2 show ?thesis
    by (intro exI [of _ s2]) (simp only: length_append ended_after_append map_append append.assoc add.assoc simp_thms)
qed



end
