(* ===== verification/Handshake.thy ===== *)
theory Handshake
  imports Wire_Scalars
begin

text \<open>
  Version and feature negotiation, \<open>crates/protocol/src/handshake.rs\<close>. A \<open>ProtocolVersion\<close> is
  ordered as its derived \<open>Ord\<close>: by major, then by minor. A \<open>BTreeSet<String>\<close> is the strictly
  ascending list of its elements. The lemmas give both negotiations their closed form: the
  newest version in the intersection of the offers, and the supported part of the features.
\<close>

subsection \<open>Versions and offers\<close>

datatype protocol_version = ProtocolVersion (version_major: nat) (version_minor: nat)

instantiation protocol_version :: linorder
begin

definition less_eq_protocol_version :: "protocol_version \<Rightarrow> protocol_version \<Rightarrow> bool" where
  "v \<le> w \<longleftrightarrow> version_major v < version_major w
     \<or> version_major v = version_major w \<and> version_minor v \<le> version_minor w"

definition less_protocol_version :: "protocol_version \<Rightarrow> protocol_version \<Rightarrow> bool" where
  "v < w \<longleftrightarrow> version_major v < version_major w
     \<or> version_major v = version_major w \<and> version_minor v < version_minor w"

instance
  by standard
    (auto simp: less_eq_protocol_version_def less_protocol_version_def intro: protocol_version.expand)

end

record protocol_range =
  pg_major :: nat
  pg_min_minor :: nat
  pg_max_minor :: nat

definition protocol_range_new :: "nat \<Rightarrow> nat \<Rightarrow> nat \<Rightarrow> protocol_range" where
  "protocol_range_new major min_minor max_minor =
     \<lparr>pg_major = major, pg_min_minor = min_minor, pg_max_minor = max_minor\<rparr>"

definition protocol_range_exact :: "protocol_version \<Rightarrow> protocol_range" where
  "protocol_range_exact v = protocol_range_new (version_major v) (version_minor v) (version_minor v)"

definition protocol_range_is_valid :: "protocol_range \<Rightarrow> bool" where
  "protocol_range_is_valid r \<longleftrightarrow> pg_min_minor r \<le> pg_max_minor r"

definition range_minimum :: "protocol_range \<Rightarrow> protocol_version" where
  "range_minimum r = ProtocolVersion (pg_major r) (pg_min_minor r)"

definition range_maximum :: "protocol_range \<Rightarrow> protocol_version" where
  "range_maximum r = ProtocolVersion (pg_major r) (pg_max_minor r)"

type_synonym protocol_offer = "protocol_range list"

definition protocol_offer_exact :: "protocol_version \<Rightarrow> protocol_offer" where
  "protocol_offer_exact v = [protocol_range_exact v]"

fun iter_min :: "'a::linorder list \<Rightarrow> 'a option" where
  "iter_min [] = None"
| "iter_min (x # xs) = Some (fold min xs x)"

fun iter_max :: "'a::linorder list \<Rightarrow> 'a option" where
  "iter_max [] = None"
| "iter_max (x # xs) = Some (fold max xs x)"

definition offer_minimum :: "protocol_offer \<Rightarrow> protocol_version option" where
  "offer_minimum offer = iter_min (map range_minimum offer)"

definition offer_maximum :: "protocol_offer \<Rightarrow> protocol_version option" where
  "offer_maximum offer = iter_max (map range_maximum offer)"

datatype protocol_incompatibility_reason = ClientTooOld | ServerTooOld | NoCommonVersion

datatype protocol_negotiation_error =
    EmptyClientOffer
  | EmptyServerOffer
  | InvalidClientRange
  | InvalidServerRange
  | Incompatible protocol_incompatibility_reason

subsection \<open>Protocol negotiation\<close>

definition validate_offer :: "protocol_offer \<Rightarrow> bool \<Rightarrow> protocol_negotiation_error + unit" where
  "validate_offer offer is_client =
     (if offer = [] then Inl (if is_client then EmptyClientOffer else EmptyServerOffer)
      else if list_ex (\<lambda>r. \<not> protocol_range_is_valid r) offer
      then Inl (if is_client then InvalidClientRange else InvalidServerRange)
      else Inr ())"

definition incompatibility_reason ::
  "protocol_offer \<Rightarrow> protocol_offer \<Rightarrow> protocol_incompatibility_reason" where
  "incompatibility_reason client server =
     (if (case (offer_maximum client, offer_minimum server) of
            (Some client_max, Some server_min) \<Rightarrow> client_max < server_min
          | _ \<Rightarrow> False)
      then ClientTooOld
      else if (case (offer_minimum client, offer_maximum server) of
                 (Some client_min, Some server_max) \<Rightarrow> client_min > server_max
               | _ \<Rightarrow> False)
      then ServerTooOld
      else NoCommonVersion)"

definition negotiate_ranges ::
  "protocol_range \<Rightarrow> protocol_range \<Rightarrow> protocol_version option \<Rightarrow> protocol_version option" where
  "negotiate_ranges client_range server_range selected =
     (if pg_major client_range \<noteq> pg_major server_range then selected
      else
        let min_minor = max (pg_min_minor client_range) (pg_min_minor server_range);
            max_minor = min (pg_max_minor client_range) (pg_max_minor server_range)
        in if min_minor \<le> max_minor
           then let candidate = ProtocolVersion (pg_major client_range) max_minor
                in Some (case selected of None \<Rightarrow> candidate | Some current \<Rightarrow> max current candidate)
           else selected)"

definition negotiate_protocol ::
  "protocol_offer \<Rightarrow> protocol_offer \<Rightarrow> protocol_negotiation_error + protocol_version" where
  "negotiate_protocol client server =
     res_bind (validate_offer client True) (\<lambda>_.
     res_bind (validate_offer server False) (\<lambda>_.
       ok_or (fold (\<lambda>client_range. fold (negotiate_ranges client_range) server) client None)
         (Incompatible (incompatibility_reason client server))))"

subsection \<open>Feature negotiation\<close>

record feature_offer =
  fo_required :: "string list"
  fo_optional :: "string list"

definition bs_wf :: "'a::linorder list \<Rightarrow> bool" where
  "bs_wf xs \<longleftrightarrow> sorted_wrt (<) xs"

definition bs_difference :: "'a list \<Rightarrow> 'a list \<Rightarrow> 'a list" where
  "bs_difference xs ys = filter (\<lambda>x. x \<notin> set ys) xs"

definition bs_union :: "'a::linorder list \<Rightarrow> 'a list \<Rightarrow> 'a list" where
  "bs_union xs ys = fold bs_insert ys xs"

definition deserialize_unique_string_set :: "string list \<Rightarrow> string + string list" where
  "deserialize_unique_string_set values =
     res_fold (\<lambda>unique v.
        if v \<in> set unique then Inl (''duplicate feature name: '' @ v) else Inr (bs_insert v unique))
       [] values"

definition negotiate_features :: "feature_offer \<Rightarrow> string list \<Rightarrow> string list + string list" where
  "negotiate_features client available =
     (let unsupported_required = bs_difference (fo_required client) available in
      if unsupported_required \<noteq> [] then Inl unsupported_required
      else Inr (filter (\<lambda>f. f \<in> set available) (bs_union (fo_required client) (fo_optional client))))"

definition PROTOCOL_VERSION :: protocol_version where
  "PROTOCOL_VERSION = ProtocolVersion 1 5"

definition supported_protocol_offer :: protocol_offer where
  "supported_protocol_offer = [protocol_range_new 1 0 (version_minor PROTOCOL_VERSION)]"

subsection \<open>The versions an offer stands for\<close>

definition in_range :: "protocol_range \<Rightarrow> protocol_version \<Rightarrow> bool" where
  "in_range r v \<longleftrightarrow> version_major v = pg_major r
     \<and> pg_min_minor r \<le> version_minor v \<and> version_minor v \<le> pg_max_minor r"

definition versions :: "protocol_offer \<Rightarrow> protocol_version set" where
  "versions offer = {v. \<exists>r \<in> set offer. in_range r v}"

definition common_of_ranges :: "protocol_range \<Rightarrow> protocol_range \<Rightarrow> protocol_version set" where
  "common_of_ranges r q = {v. in_range r v \<and> in_range q v}"

definition best :: "protocol_version set \<Rightarrow> protocol_version option" where
  "best vs = (if vs = {} then None else Some (Max vs))"

lemma in_range_finite: "finite {v. in_range r v}"
proof (rule finite_subset)
  show "{v. in_range r v} \<subseteq> ProtocolVersion (pg_major r) ` {.. pg_max_minor r}"
  proof
    fix v assume "v \<in> {v. in_range r v}"
    then show "v \<in> ProtocolVersion (pg_major r) ` {.. pg_max_minor r}"
      by (cases v) (simp add: in_range_def)
  qed
qed simp

lemma versions_Cons: "versions (r # rs) = {v. in_range r v} \<union> versions rs"
  by (auto simp: versions_def)

lemma versions_Nil [simp]: "versions [] = {}"
  by (simp add: versions_def)

lemma finite_versions: "finite (versions offer)"
  by (induction offer) (simp_all add: versions_Cons in_range_finite)

lemma finite_common: "finite (common_of_ranges r q)"
  by (rule finite_subset [OF _ in_range_finite [of r]]) (auto simp: common_of_ranges_def)

lemma best_Un:
  assumes "finite a" "finite b"
  shows "best (a \<union> b) =
    (case best b of None \<Rightarrow> best a
     | Some y \<Rightarrow> Some (case best a of None \<Rightarrow> y | Some x \<Rightarrow> max x y))"
  using assms by (auto simp: best_def Max_Un)

lemma common_of_ranges_best:
  "best (common_of_ranges r q) =
     (if pg_major r = pg_major q
        \<and> max (pg_min_minor r) (pg_min_minor q) \<le> min (pg_max_minor r) (pg_max_minor q)
      then Some (ProtocolVersion (pg_major r) (min (pg_max_minor r) (pg_max_minor q))) else None)"
proof (cases "pg_major r = pg_major q
        \<and> max (pg_min_minor r) (pg_min_minor q) \<le> min (pg_max_minor r) (pg_max_minor q)")
  case True
  let ?v = "ProtocolVersion (pg_major r) (min (pg_max_minor r) (pg_max_minor q))"
  have "Max (common_of_ranges r q) = ?v"
    by (rule Max_eqI [OF finite_common])
      (use True in \<open>auto simp: common_of_ranges_def in_range_def less_eq_protocol_version_def\<close>)
  moreover have "?v \<in> common_of_ranges r q"
    using True by (auto simp: common_of_ranges_def in_range_def)
  ultimately show ?thesis using True by (auto simp: best_def)
next
  case False
  then have "common_of_ranges r q = {}"
    by (auto simp: common_of_ranges_def in_range_def)
  then show ?thesis using False by (simp add: best_def)
qed

lemma negotiate_ranges_best:
  "finite vs \<Longrightarrow> negotiate_ranges r q (best vs) = best (vs \<union> common_of_ranges r q)"
  by (auto simp: negotiate_ranges_def best_Un finite_common common_of_ranges_best Let_def
        split: option.splits)

lemma fold_negotiate_inner:
  "finite vs \<Longrightarrow>
   fold (negotiate_ranges r) qs (best vs) = best (vs \<union> {v. in_range r v \<and> v \<in> versions qs})"
proof (induction qs arbitrary: vs)
  case (Cons q qs)
  have "vs \<union> common_of_ranges r q \<union> {v. in_range r v \<and> v \<in> versions qs} =
        vs \<union> {v. in_range r v \<and> v \<in> versions (q # qs)}"
    by (auto simp: common_of_ranges_def versions_Cons)
  then show ?case
    using Cons.IH [of "vs \<union> common_of_ranges r q"] Cons.prems
    by (simp add: negotiate_ranges_best finite_common)
qed simp

lemma fold_negotiate_outer:
  "finite vs \<Longrightarrow>
   fold (\<lambda>r. fold (negotiate_ranges r) qs) rs (best vs) = best (vs \<union> versions rs \<inter> versions qs)"
proof (induction rs arbitrary: vs)
  case (Cons r rs)
  let ?ws = "vs \<union> {v. in_range r v \<and> v \<in> versions qs}"
  have "finite ?ws" using Cons.prems finite_subset [OF _ in_range_finite [of r]] by auto
  moreover have "?ws \<union> versions rs \<inter> versions qs = vs \<union> versions (r # rs) \<inter> versions qs"
    by (auto simp: versions_Cons)
  ultimately show ?case
    using Cons.IH [of ?ws] Cons.prems by (simp add: fold_negotiate_inner)
qed simp

subsection \<open>Extremes of an offer\<close>

lemma fold_max_Max: "fold max xs (x::'a::linorder) = Max (insert x (set xs))"
  by (metis Max.set_eq_fold list.simps(15))

lemma fold_min_Min: "fold min xs (x::'a::linorder) = Min (insert x (set xs))"
  by (metis Min.set_eq_fold list.simps(15))

lemma iter_max_Max: "xs \<noteq> [] \<Longrightarrow> iter_max xs = Some (Max (set xs))"
  by (cases xs) (simp_all add: fold_max_Max)

lemma iter_min_Min: "xs \<noteq> [] \<Longrightarrow> iter_min xs = Some (Min (set xs))"
  by (cases xs) (simp_all add: fold_min_Min)

lemma range_bounds:
  "protocol_range_is_valid r \<Longrightarrow> in_range r (range_maximum r) \<and> in_range r (range_minimum r)"
  "in_range r v \<Longrightarrow> range_minimum r \<le> v \<and> v \<le> range_maximum r"
  by (auto simp: protocol_range_is_valid_def in_range_def range_maximum_def range_minimum_def
        less_eq_protocol_version_def)

lemma valid_offer:
  "validate_offer offer b = Inr () \<longleftrightarrow> offer \<noteq> [] \<and> list_all protocol_range_is_valid offer"
  by (auto simp: validate_offer_def list_all_iff list_ex_iff)

lemma offer_maximum_Max:
  assumes "offer \<noteq> []" "list_all protocol_range_is_valid offer"
  shows "offer_maximum offer = Some (Max (versions offer))"
proof -
  have "Max (set (map range_maximum offer)) = Max (versions offer)"
  proof (rule Max_eq_if)
    show "\<forall>a \<in> set (map range_maximum offer). \<exists>b \<in> versions offer. a \<le> b"
      using assms(2) range_bounds(1) by (fastforce simp: versions_def list_all_iff)
    show "\<forall>b \<in> versions offer. \<exists>a \<in> set (map range_maximum offer). b \<le> a"
      using range_bounds(2) by (fastforce simp: versions_def)
  qed (simp_all add: finite_versions)
  then show ?thesis using assms by (simp add: offer_maximum_def iter_max_Max)
qed

lemma offer_minimum_Min:
  assumes "offer \<noteq> []" "list_all protocol_range_is_valid offer"
  shows "offer_minimum offer = Some (Min (versions offer))"
proof -
  let ?ms = "set (map range_minimum offer)"
  have sub: "?ms \<subseteq> versions offer"
    using assms(2) range_bounds(1) by (auto simp: versions_def list_all_iff)
  have ne: "?ms \<noteq> {}" using assms(1) by simp
  have "Min ?ms \<le> v" if "v \<in> versions offer" for v
  proof -
    from that obtain r where "r \<in> set offer" "range_minimum r \<le> v"
      using range_bounds(2) by (auto simp: versions_def)
    then show ?thesis by (intro Min_le [THEN order_trans]) auto
  qed
  then have "Min (versions offer) = Min ?ms"
    using sub ne Min_in [OF _ ne] by (intro Min_eqI) (auto simp: finite_versions)
  then show ?thesis using assms by (simp add: offer_minimum_def iter_min_Min)
qed

subsection \<open>Features\<close>

lemma bs_wf_sorted: "bs_wf xs \<Longrightarrow> xs = sorted_list_of_set (set xs)"
  by (simp add: bs_wf_def strict_sorted_iff sorted_list_of_set.idem_if_sorted_distinct)

lemma bs_union_props: "bs_wf xs \<Longrightarrow> bs_wf (bs_union xs ys) \<and> set (bs_union xs ys) = set xs \<union> set ys"
  unfolding bs_union_def bs_wf_def
  by (induction ys arbitrary: xs) (auto simp: sorted_bs_insert)

lemma bs_wf_filter: "bs_wf xs \<Longrightarrow> bs_wf (filter P xs)"
  by (simp add: bs_wf_def sorted_wrt_filter)

lemma bs_wf_eqI: "bs_wf xs \<Longrightarrow> set xs = a \<Longrightarrow> xs = sorted_list_of_set a"
  using bs_wf_sorted by blast

lemma bs_wf_unique: "bs_wf xs \<Longrightarrow> bs_wf ys \<Longrightarrow> set xs = set ys \<Longrightarrow> xs = ys"
  by (metis bs_wf_sorted)

lemma deserialize_unique_fold:
  "bs_wf acc \<Longrightarrow>
   res_fold (\<lambda>unique v.
        if v \<in> set unique then Inl (''duplicate feature name: '' @ v) else Inr (bs_insert v unique))
       acc values = Inr result \<longleftrightarrow>
   distinct values \<and> set values \<inter> set acc = {} \<and> bs_wf result \<and> set result = set acc \<union> set values"
proof (induction "values" arbitrary: acc)
  case Nil
  then show ?case by (auto intro: bs_wf_unique)
next
  case (Cons v vs)
  show ?case
  proof (cases "v \<in> set acc")
    case False
    moreover have "bs_wf (bs_insert v acc)"
      using Cons.prems by (simp add: bs_wf_def sorted_bs_insert)
    ultimately show ?thesis using Cons.IH [of "bs_insert v acc"] by auto
  qed simp
qed

subsection \<open>What a negotiation returns\<close>

lemma validate_offer_cases:
  "validate_offer offer b =
     (if offer = [] then Inl (if b then EmptyClientOffer else EmptyServerOffer)
      else if list_all protocol_range_is_valid offer then Inr ()
      else Inl (if b then InvalidClientRange else InvalidServerRange))"
  by (auto simp: validate_offer_def list_all_iff list_ex_iff)

text \<open>
  C28. The negotiation rejects an empty offer, then an inverted range, the client's first;
  otherwise it selects the newest version that both offers contain, and when they have none in
  common it reports the client too old when its newest version precedes the server's oldest, the
  server too old in the opposite case, and no common version when the offers interleave.
\<close>

theorem negotiate_protocol_newest_common:
  "negotiate_protocol client server =
     (if client = [] then Inl EmptyClientOffer
      else if \<not> list_all protocol_range_is_valid client then Inl InvalidClientRange
      else if server = [] then Inl EmptyServerOffer
      else if \<not> list_all protocol_range_is_valid server then Inl InvalidServerRange
      else if versions client \<inter> versions server \<noteq> {}
      then Inr (Max (versions client \<inter> versions server))
      else Inl (Incompatible
        (if Max (versions client) < Min (versions server) then ClientTooOld
         else if Max (versions server) < Min (versions client) then ServerTooOld
         else NoCommonVersion)))"
  using fold_negotiate_outer [of "{}" server client]
  by (simp add: negotiate_protocol_def validate_offer_cases best_def incompatibility_reason_def
        offer_maximum_Max offer_minimum_Min)

text \<open>
  On feature sets read from the wire, the negotiation fails with exactly the required
  features that are not available, and otherwise enables exactly the available ones among the
  required and the optional features; both answers are strictly ascending. A set with a repeated
  name is not read at all.
\<close>

lemma negotiate_features_exact:
  assumes "deserialize_unique_string_set req_wire = Inr required"
    and "deserialize_unique_string_set opt_wire = Inr optional"
  shows "distinct req_wire \<and> distinct opt_wire \<and>
    negotiate_features \<lparr>fo_required = required, fo_optional = optional\<rparr> available =
      (if set req_wire \<subseteq> set available
       then Inr (sorted_list_of_set ((set req_wire \<union> set opt_wire) \<inter> set available))
       else Inl (sorted_list_of_set (set req_wire - set available)))"
proof -
  have read: "distinct req_wire" "distinct opt_wire" "bs_wf required" "bs_wf optional"
    "set required = set req_wire" "set optional = set opt_wire"
    using assms deserialize_unique_fold [of "[]"]
    by (simp_all add: deserialize_unique_string_set_def bs_wf_def)
  have "bs_difference required available = sorted_list_of_set (set req_wire - set available)"
    using read by (intro bs_wf_eqI) (auto simp: bs_difference_def bs_wf_filter)
  moreover have "filter (\<lambda>f. f \<in> set available) (bs_union required optional) =
      sorted_list_of_set ((set req_wire \<union> set opt_wire) \<inter> set available)"
    using read by (intro bs_wf_eqI) (auto simp: bs_wf_filter bs_union_props)
  ultimately show ?thesis
    using read by (auto simp: negotiate_features_def Let_def)
qed

end
