(* ===== verification/Control.thy ===== *)
theory Control
  imports Rail_Prelude
begin

text \<open>
  Request control, \<open>crates/core/src/control.rs\<close>: the durable cancellation reason shared by all
  clones of a control, and deadlines that a derived control can only shorten. Instants are
  nanoseconds of the monotonic clock and durations are nanoseconds; \<open>Instant::now()\<close> is the
  argument \<open>now\<close> of the operations that read it.

  The waiting of \<open>cancelled()\<close> is a step relation over one waiter and one canceller, with the
  two halves of \<open>cancel\<close> (store the reason, then notify) as separate steps.
\<close>

subsection \<open>Cancellation and deadlines\<close>

datatype cancellation_reason = Requested | ShutdownReason

datatype timeout_scope = RequestScope | ActionScope | ShutdownScope

definition cancellation_reason_as_str :: "cancellation_reason \<Rightarrow> string" where
  "cancellation_reason_as_str r = (case r of Requested \<Rightarrow> ''requested'' | ShutdownReason \<Rightarrow> ''shutdown'')"

definition timeout_scope_as_str :: "timeout_scope \<Rightarrow> string" where
  "timeout_scope_as_str s =
     (case s of RequestScope \<Rightarrow> ''request'' | ActionScope \<Rightarrow> ''action'' | ShutdownScope \<Rightarrow> ''shutdown'')"

definition NANOS_PER_MILLI :: nat where
  "NANOS_PER_MILLI = 1000000"

definition MAX_TIMER_SLICE :: nat where
  "MAX_TIMER_SLICE = 24 * 60 * 60 * 1000 * NANOS_PER_MILLI"

record execution_deadline =
  ed_started_at :: nat
  ed_duration :: nat
  ed_timeout_ms :: nat
  ed_scope :: timeout_scope

definition remaining_at :: "execution_deadline \<Rightarrow> nat \<Rightarrow> nat" where
  "remaining_at deadline now =
     (let elapsed = (if ed_started_at deadline \<le> now then now - ed_started_at deadline else 0)
      in ed_duration deadline - elapsed)"

text \<open>
  An \<open>ExecutionControl\<close> holds the shared cancellation state by reference: the reason is the
  \<open>cancellation_state\<close> passed beside it.
\<close>

type_synonym cancellation_state = "cancellation_reason option"

record execution_control =
  ec_deadline :: "execution_deadline option"

definition controller_new :: "cancellation_state \<times> execution_control" where
  "controller_new = (None, \<lparr>ec_deadline = None\<rparr>)"

definition cancel :: "cancellation_reason \<Rightarrow> cancellation_state \<Rightarrow> bool \<times> cancellation_state" where
  "cancel reason current = (case current of Some _ \<Rightarrow> (False, current) | None \<Rightarrow> (True, Some reason))"

definition with_timeout :: "nat \<Rightarrow> nat \<Rightarrow> timeout_scope \<Rightarrow> execution_control \<Rightarrow> execution_control" where
  "with_timeout now timeout_ms scope control =
     (let candidate = \<lparr>ed_started_at = now, ed_duration = timeout_ms * NANOS_PER_MILLI,
                       ed_timeout_ms = timeout_ms, ed_scope = scope\<rparr>
      in \<lparr>ec_deadline =
           (case ec_deadline control of
              Some existing \<Rightarrow>
                if ed_duration candidate < remaining_at existing now then Some candidate
                else Some existing
            | None \<Rightarrow> Some candidate)\<rparr>)"

definition controller_with_timeout ::
  "nat \<Rightarrow> nat \<Rightarrow> timeout_scope \<Rightarrow> cancellation_state \<times> execution_control" where
  "controller_with_timeout now timeout_ms scope =
     (let (cancellation, control) = controller_new
      in (cancellation, with_timeout now timeout_ms scope control))"

definition is_expired :: "nat \<Rightarrow> execution_control \<Rightarrow> bool" where
  "is_expired now control =
     (case ec_deadline control of None \<Rightarrow> False | Some d \<Rightarrow> remaining_at d now = 0)"

definition control_timeout :: "execution_control \<Rightarrow> (timeout_scope \<times> nat) option" where
  "control_timeout control = map_option (\<lambda>d. (ed_scope d, ed_timeout_ms d)) (ec_deadline control)"

definition control_remaining :: "nat \<Rightarrow> execution_control \<Rightarrow> nat option" where
  "control_remaining now control = map_option (\<lambda>d. remaining_at d now) (ec_deadline control)"

subsection \<open>Waiting for the deadline\<close>

lemma remaining_pos_before:
  "remaining_at deadline now \<noteq> 0 \<Longrightarrow> now < ed_started_at deadline + ed_duration deadline"
  by (auto simp: remaining_at_def Let_def split: if_splits)

text \<open>
  The loop of \<open>deadline_elapsed\<close>: each sleep lasts the remaining time or a day, whichever is
  shorter, and the timer fires \<open>late n\<close> nanoseconds after the end of the \<open>n\<close>-th sleep. The
  result is the instant at which the loop returns.
\<close>

function deadline_loop :: "execution_deadline \<Rightarrow> (nat \<Rightarrow> nat) \<Rightarrow> nat \<Rightarrow> nat" where
  "deadline_loop deadline late now =
     (let remaining = remaining_at deadline now in
      if remaining = 0 then now
      else deadline_loop deadline (\<lambda>n. late (Suc n)) (now + min remaining MAX_TIMER_SLICE + late 0))"
  by pat_completeness auto

termination
proof (relation "measure (\<lambda>(d, late, now). ed_started_at d + ed_duration d - now)", goal_cases)
  case (2 deadline late now x)
  then have "now < ed_started_at deadline + ed_duration deadline"
    using remaining_pos_before by simp
  moreover have "0 < min x MAX_TIMER_SLICE"
    using 2 by (simp add: MAX_TIMER_SLICE_def NANOS_PER_MILLI_def)
  ultimately show ?case by auto
qed simp

declare deadline_loop.simps [simp del]

definition deadline_elapsed :: "execution_control \<Rightarrow> (nat \<Rightarrow> nat) \<Rightarrow> nat \<Rightarrow> nat option" where
  "deadline_elapsed control late now =
     (case ec_deadline control of Some d \<Rightarrow> Some (deadline_loop d late now) | None \<Rightarrow> None)"

subsection \<open>Waiting for a cancellation\<close>

datatype waiter_pc =
    LoopHead
  | NotifiedEnabled bool
  | Awaiting bool
  | Returned cancellation_reason

datatype canceller_pc = CancelIdle | ReasonStored | CancelDone

record wait_state =
  ws_reason :: cancellation_state
  ws_waiter :: waiter_pc
  ws_canceller :: canceller_pc

definition waiting_initial :: wait_state where
  "waiting_initial = \<lparr>ws_reason = None, ws_waiter = LoopHead, ws_canceller = CancelIdle\<rparr>"

text \<open>
  \<open>NotifiedEnabled b\<close> and \<open>Awaiting b\<close> are the waiter with its \<open>Notified\<close> future registered,
  \<open>b\<close> telling whether \<open>notify_waiters\<close> has fired since.
\<close>

fun notify_waiters :: "waiter_pc \<Rightarrow> waiter_pc" where
  "notify_waiters (NotifiedEnabled b) = NotifiedEnabled True"
| "notify_waiters (Awaiting b) = Awaiting True"
| "notify_waiters pc = pc"

inductive waiter_step :: "wait_state \<Rightarrow> wait_state \<Rightarrow> bool" where
  enable: "ws_waiter s = LoopHead \<Longrightarrow> waiter_step s (s\<lparr>ws_waiter := NotifiedEnabled False\<rparr>)"
| check_some: "ws_waiter s = NotifiedEnabled b \<Longrightarrow> ws_reason s = Some r \<Longrightarrow>
    waiter_step s (s\<lparr>ws_waiter := Returned r\<rparr>)"
| check_none: "ws_waiter s = NotifiedEnabled b \<Longrightarrow> ws_reason s = None \<Longrightarrow>
    waiter_step s (s\<lparr>ws_waiter := Awaiting b\<rparr>)"
| woken: "ws_waiter s = Awaiting True \<Longrightarrow> waiter_step s (s\<lparr>ws_waiter := LoopHead\<rparr>)"

inductive canceller_step :: "cancellation_reason \<Rightarrow> wait_state \<Rightarrow> wait_state \<Rightarrow> bool" for r where
  store_reason: "ws_canceller s = CancelIdle \<Longrightarrow> cancel r (ws_reason s) = (True, current) \<Longrightarrow>
    canceller_step r s (s\<lparr>ws_reason := current, ws_canceller := ReasonStored\<rparr>)"
| notify: "ws_canceller s = ReasonStored \<Longrightarrow>
    canceller_step r s (s\<lparr>ws_waiter := notify_waiters (ws_waiter s), ws_canceller := CancelDone\<rparr>)"

inductive wait_reachable :: "cancellation_reason \<Rightarrow> wait_state \<Rightarrow> bool" for r where
  wait_init: "wait_reachable r waiting_initial"
| wait_waiter: "wait_reachable r s \<Longrightarrow> waiter_step s s' \<Longrightarrow> wait_reachable r s'"
| wait_canceller: "wait_reachable r s \<Longrightarrow> canceller_step r s s' \<Longrightarrow> wait_reachable r s'"

inductive_cases waiter_stepE: "waiter_step s s'"
inductive_cases canceller_stepE: "canceller_step r s s'"

subsection \<open>Deadlines only shorten\<close>

lemma remaining_at_started:
  "ed_started_at d \<le> now \<Longrightarrow> remaining_at d now = ed_started_at d + ed_duration d - now"
  by (simp add: remaining_at_def)

text \<open>The instants at which the deadlines of a list of derivations end.\<close>

definition deadline_ends :: "(nat \<times> nat \<times> timeout_scope) list \<Rightarrow> nat list" where
  "deadline_ends ds = map (\<lambda>(now, timeout_ms, scope). now + timeout_ms * NANOS_PER_MILLI) ds"

definition derive_all :: "(nat \<times> nat \<times> timeout_scope) list \<Rightarrow> execution_control \<Rightarrow> execution_control" where
  "derive_all ds control =
     fold (\<lambda>(now, timeout_ms, scope). with_timeout now timeout_ms scope) ds control"

lemma derive_all_snoc:
  "derive_all (ds @ [(now, timeout_ms, scope)]) c = with_timeout now timeout_ms scope (derive_all ds c)"
  by (simp add: derive_all_def)

definition deadline_end :: "execution_deadline \<Rightarrow> nat" where
  "deadline_end d = ed_started_at d + ed_duration d"

lemma with_timeout_end:
  assumes "ec_deadline c = Some d" "ed_started_at d \<le> now"
  shows "\<exists>d'. ec_deadline (with_timeout now timeout_ms scope c) = Some d' \<and> ed_started_at d' \<le> now
    \<and> deadline_end d' = min (deadline_end d) (now + timeout_ms * NANOS_PER_MILLI)"
  using assms by (auto simp: with_timeout_def Let_def remaining_at_started deadline_end_def)

lemma derive_all_end:
  assumes "ds \<noteq> []" "sorted (map fst ds)"
  shows "\<exists>d. ec_deadline (derive_all ds (snd controller_new)) = Some d
    \<and> ed_started_at d \<le> fst (last ds) \<and> deadline_end d = Min (set (deadline_ends ds))"
  using assms
proof (induction ds rule: rev_induct)
  case (snoc x ds)
  obtain now timeout_ms scope where x: "x = (now, timeout_ms, scope)" by (cases x)
  show ?case
  proof (cases "ds = []")
    case True
    then show ?thesis
      by (simp add: x derive_all_def controller_new_def with_timeout_def deadline_end_def deadline_ends_def)
  next
    case False
    with snoc obtain d where d: "ec_deadline (derive_all ds (snd controller_new)) = Some d"
      "ed_started_at d \<le> fst (last ds)" "deadline_end d = Min (set (deadline_ends ds))"
      by (auto simp: sorted_append)
    have "fst (last ds) \<le> now"
      using snoc.prems False x by (auto simp: sorted_append)
    with d obtain d' where
      "ec_deadline (with_timeout now timeout_ms scope (derive_all ds (snd controller_new))) = Some d'"
      "ed_started_at d' \<le> now" "deadline_end d' = min (deadline_end d) (now + timeout_ms * NANOS_PER_MILLI)"
      using with_timeout_end [OF d(1)] by (meson le_trans)
    moreover have "Min (set (deadline_ends (ds @ [x]))) =
        min (Min (set (deadline_ends ds))) (now + timeout_ms * NANOS_PER_MILLI)"
      using False by (simp add: x deadline_ends_def min.commute)
    ultimately show ?thesis using d(3) by (simp add: x derive_all_snoc)
  qed
qed simp

text \<open>
  C29. However controls are derived from one request, at times that do not decrease, the time left
  at any later instant is the time to the earliest of all the deadlines: a derived timeout can
  shorten the parent budget and never extends it, and the control is expired exactly when one
  of the deadlines has passed.
\<close>

theorem derived_deadline_is_earliest:
  assumes "ds \<noteq> []" "sorted (map fst ds)" "fst (last ds) \<le> now"
  shows "control_remaining now (derive_all ds (snd controller_new)) =
      Some (Min (set (deadline_ends ds)) - now) \<and>
    (is_expired now (derive_all ds (snd controller_new)) \<longleftrightarrow> (\<exists>e \<in> set (deadline_ends ds). e \<le> now))"
proof -
  obtain d where d: "ec_deadline (derive_all ds (snd controller_new)) = Some d"
      "ed_started_at d \<le> now" "deadline_end d = Min (set (deadline_ends ds))"
    using derive_all_end [OF assms(1,2)] assms(3) by auto
  have "finite (set (deadline_ends ds))" "set (deadline_ends ds) \<noteq> {}"
    using assms(1) by (simp_all add: deadline_ends_def)
  then show ?thesis
    using d by (simp add: control_remaining_def is_expired_def remaining_at_started deadline_end_def
        Min_le_iff)
qed

theorem derived_deadline_is_earliest_witness:
  "control_remaining 5000000 (derive_all
     [(0, 5000, RequestScope), (3000000, 10, ActionScope), (4000000, 60000, RequestScope)]
     (snd controller_new)) = Some 8000000"
  using derived_deadline_is_earliest
    [of "[(0, 5000, RequestScope), (3000000, 10, ActionScope), (4000000, 60000, RequestScope)]" 5000000]
  by (simp add: deadline_ends_def NANOS_PER_MILLI_def)

subsection \<open>The deadline is waited out\<close>

lemma deadline_loop_bounds:
  "remaining_at d (deadline_loop d late now) = 0 \<and> now \<le> deadline_loop d late now"
proof (induction d late now rule: deadline_loop.induct)
  case (1 deadline late now)
  show ?case
  proof (cases "remaining_at deadline now = 0")
    case True
    then show ?thesis by (subst (1 2) deadline_loop.simps) simp
  next
    case False
    with 1 show ?thesis by (subst (1 2) deadline_loop.simps) (auto simp: Let_def)
  qed
qed

lemma deadline_loop_punctual:
  "(\<And>n. late n = 0) \<Longrightarrow> ed_started_at d \<le> now \<Longrightarrow> deadline_loop d late now = max now (deadline_end d)"
proof (induction d late now rule: deadline_loop.induct)
  case (1 deadline late now)
  show ?case
  proof (cases "remaining_at deadline now = 0")
    case True
    with 1 show ?thesis
      by (subst deadline_loop.simps) (auto simp: remaining_at_started deadline_end_def)
  next
    case False
    with 1 show ?thesis
      by (subst deadline_loop.simps) (auto simp: Let_def remaining_at_started deadline_end_def)
  qed
qed

text \<open>
  C30. Waiting for a deadline ends however long the deadline is and however late the timers fire;
  it never returns before the deadline, and when the timers are punctual it returns exactly then
  (or at once when the deadline has passed). Without a deadline it never returns.
\<close>

theorem deadline_elapsed_returns:
  "case ec_deadline control of
     None \<Rightarrow> deadline_elapsed control late now = None
   | Some d \<Rightarrow>
       (\<exists>t. deadline_elapsed control late now = Some t \<and> t \<ge> now \<and> remaining_at d t = 0) \<and>
       deadline_elapsed control (\<lambda>_. 0) (ed_started_at d + later) =
         Some (ed_started_at d + max later (ed_duration d))"
proof (cases "ec_deadline control")
  case (Some d)
  then show ?thesis
    using deadline_loop_bounds [of d late now] deadline_loop_punctual [of "\<lambda>_. 0" d "ed_started_at d + later"]
    by (auto simp: deadline_elapsed_def deadline_end_def)
qed (simp add: deadline_elapsed_def)

subsection \<open>No wakeup is lost\<close>

lemma cancel_sequence_first:
  "fold (\<lambda>r s. snd (cancel r s)) rs None = (case rs of [] \<Rightarrow> None | r # _ \<Rightarrow> Some r)"
proof -
  have "fold (\<lambda>r s. snd (cancel r s)) rs (Some q) = Some q" for q
    by (induction rs) (simp_all add: cancel_def)
  then show ?thesis by (cases rs) (simp_all add: cancel_def)
qed

definition wait_inv :: "cancellation_reason \<Rightarrow> wait_state \<Rightarrow> bool" where
  "wait_inv r s \<longleftrightarrow>
     ws_reason s = (if ws_canceller s = CancelIdle then None else Some r)
     \<and> (case ws_waiter s of
          Returned q \<Rightarrow> q = r \<and> ws_canceller s \<noteq> CancelIdle
        | Awaiting b \<Rightarrow> b \<longleftrightarrow> ws_canceller s = CancelDone
        | NotifiedEnabled b \<Rightarrow> b \<longrightarrow> ws_canceller s = CancelDone
        | LoopHead \<Rightarrow> True)"

lemma wait_inv_reachable: "wait_reachable r s \<Longrightarrow> wait_inv r s"
proof (induction rule: wait_reachable.induct)
  case (wait_waiter s s')
  from wait_waiter(2,3) show ?case
    by (cases rule: waiter_step.cases) (auto simp: wait_inv_def split: if_splits)
next
  case (wait_canceller s s')
  from wait_canceller(2,3) show ?case
    by (cases rule: canceller_step.cases)
      (auto simp: wait_inv_def cancel_def split: if_splits waiter_pc.splits option.splits)
qed (simp add: wait_inv_def waiting_initial_def)

fun waiter_rank :: "waiter_pc \<Rightarrow> nat" where
  "waiter_rank (Awaiting b) = 3"
| "waiter_rank LoopHead = 2"
| "waiter_rank (NotifiedEnabled b) = 1"
| "waiter_rank (Returned r) = 0"

lemma waiter_step_done:
  assumes "waiter_step s s'" "wait_inv r s" "ws_canceller s = CancelDone"
  shows "ws_canceller s' = CancelDone" "waiter_rank (ws_waiter s') < waiter_rank (ws_waiter s)"
  using assms by (cases rule: waiter_step.cases; simp add: wait_inv_def)+

lemma waiter_not_stuck:
  assumes "wait_inv r s" "ws_canceller s = CancelDone"
  shows "ws_waiter s = Returned r \<or> (\<exists>s'. waiter_step s s')"
  using assms
  by (cases "ws_waiter s")
    (auto simp: wait_inv_def intro: waiter_step.enable waiter_step.check_some waiter_step.woken)

lemma waiter_run_done:
  assumes "(waiter_step ^^ n) s s'" "wait_reachable r s" "ws_canceller s = CancelDone"
  shows "wait_reachable r s' \<and> ws_canceller s' = CancelDone
    \<and> n + waiter_rank (ws_waiter s') \<le> waiter_rank (ws_waiter s)"
  using assms
proof (induction n arbitrary: s')
  case (Suc n)
  then obtain t where "(waiter_step ^^ n) s t" "waiter_step t s'" by auto
  with Suc.IH [of t] Suc.prems waiter_step_done [of t s' r] wait_inv_reachable [of r t]
  show ?case by (fastforce intro: wait_waiter)
qed simp

text \<open>
  C31. No cancellation is lost. Whatever the interleaving of the waiter with the two halves of
  \<open>cancel\<close>, once the canceller has finished the waiter is never blocked: it takes at most three
  more steps of its own, and when it stops it has returned the stored reason.
\<close>

theorem cancellation_not_lost:
  assumes "wait_reachable r s" "ws_canceller s = CancelDone" "(waiter_step ^^ n) s s'"
  shows "n \<le> 3 \<and> (ws_waiter s' = Returned r \<or> (\<exists>s''. waiter_step s' s''))"
proof -
  have "waiter_rank pc \<le> 3" for pc by (cases pc) auto
  then show ?thesis
    using waiter_run_done [OF assms(3,1,2)] waiter_not_stuck wait_inv_reachable
    by (meson add_leE le_trans)
qed

lemma example_wait_reachable:
  "wait_reachable Requested
     \<lparr>ws_reason = Some Requested, ws_waiter = Awaiting True, ws_canceller = CancelDone\<rparr>"
proof -
  let ?s1 = "\<lparr>ws_reason = None, ws_waiter = NotifiedEnabled False, ws_canceller = CancelIdle\<rparr>"
  let ?s2 = "\<lparr>ws_reason = None, ws_waiter = Awaiting False, ws_canceller = CancelIdle\<rparr>"
  let ?s3 = "\<lparr>ws_reason = Some Requested, ws_waiter = Awaiting False, ws_canceller = ReasonStored\<rparr>"
  have "wait_reachable Requested ?s1"
    using wait_waiter [OF wait_init enable] by (simp add: waiting_initial_def)
  then have "wait_reachable Requested ?s2"
    using wait_waiter [OF _ check_none [of ?s1 False]] by simp
  then have "wait_reachable Requested ?s3"
    using wait_canceller [OF _ store_reason [of ?s2 Requested "Some Requested"]] by (simp add: cancel_def)
  then show ?thesis
    using wait_canceller [OF _ notify [of ?s3 Requested]] by simp
qed

theorem cancellation_not_lost_witness:
  "ws_waiter \<lparr>ws_reason = Some Requested, ws_waiter = Awaiting True, ws_canceller = CancelDone\<rparr>
     = Returned Requested \<or>
   (\<exists>s. waiter_step \<lparr>ws_reason = Some Requested, ws_waiter = Awaiting True, ws_canceller = CancelDone\<rparr> s)"
  using cancellation_not_lost [OF example_wait_reachable, of 0] by simp

end
