(* ===== verification/Device_Pool.thy ===== *)
theory Device_Pool
  imports Control Wire_Scalars "HOL-Library.Product_Lexorder"
begin

text \<open>
  The device pool, \<open>crates/core/src/pool.rs\<close>: exclusive, expiring, owner-bound leases with three
  secondary indexes (by lease, by owner, by deadline).

  Every operation has two parts in the code: it looks up the device's gate (an
  \<open>Arc<RwLock<()>>\<close>), waits for the gate, and runs its body under the state lock with the gate
  it found. The bodies take that gate as an argument and are one step each; \<open>Device_Gates\<close>
  composes them with the waiting. A gate is the identity of its allocation, a natural number.
  \<open>Instant::now()\<close> is the argument \<open>now\<close> (nanoseconds) and fresh lease ids are the argument
  \<open>draws\<close>. A run returns, panics at one of the \<open>expect\<close> calls, or is still drawing ids.
\<close>

subsection \<open>Configuration, health and leases\<close>

type_synonym lease_id = uuid
type_synonym lease_owner_id = uuid
type_synonym gate = nat

definition MAX_DURATION_MS :: nat where
  "MAX_DURATION_MS = 24 * 60 * 60 * 1000"

definition MAX_HEALTH_CODE_BYTES :: nat where
  "MAX_HEALTH_CODE_BYTES = 64"

record device_pool_config =
  pc_lease_ttl_ms :: nat
  pc_health_validity_ms :: nat

datatype device_pool_error =
    PoolInvalidConfiguration
  | PoolInvalidHealthCode
  | PoolInvalidDeviceId
  | PoolDeviceAlreadyRegistered device_id
  | PoolDeviceNotFound device_id
  | PoolDeviceRegistrationChanged device_id
  | PoolHealthUnknown device_id
  | PoolHealthStale device_id
  | PoolDeviceUnhealthy device_id string
  | PoolDeviceInUse device_id
  | PoolLeaseNotFound
  | PoolLeaseMismatch
  | PoolLeaseExpired
  | PoolDeviceLeased device_id

definition device_pool_config_new :: "nat \<Rightarrow> nat \<Rightarrow> device_pool_error + device_pool_config" where
  "device_pool_config_new lease_ttl_ms health_validity_ms =
     (if lease_ttl_ms = 0 \<or> lease_ttl_ms > MAX_DURATION_MS
         \<or> health_validity_ms = 0 \<or> health_validity_ms > MAX_DURATION_MS
      then Inl PoolInvalidConfiguration
      else Inr \<lparr>pc_lease_ttl_ms = lease_ttl_ms, pc_health_validity_ms = health_validity_ms\<rparr>)"

definition device_pool_config_default :: device_pool_config where
  "device_pool_config_default =
     \<lparr>pc_lease_ttl_ms = 5 * 60 * 1000, pc_health_validity_ms = 30 * 1000\<rparr>"

definition lease_ttl :: "device_pool_config \<Rightarrow> nat" where
  "lease_ttl config = pc_lease_ttl_ms config * NANOS_PER_MILLI"

definition health_validity :: "device_pool_config \<Rightarrow> nat" where
  "health_validity config = pc_health_validity_ms config * NANOS_PER_MILLI"

record device_lease =
  dl_id :: lease_id
  dl_device_id :: device_id
  dl_owner_id :: lease_owner_id
  dl_issued_at_ms :: nat
  dl_expires_at_ms :: nat

datatype pool_health_state = PoolUnknown | PoolHealthy | PoolDegraded | PoolUnhealthy

record pool_health =
  ph_state :: pool_health_state
  ph_checked_at_ms :: "nat option"
  ph_code :: "string option"

definition valid_health_code :: "string \<Rightarrow> bool" where
  "valid_health_code code \<longleftrightarrow>
     code \<noteq> [] \<and> length code \<le> MAX_HEALTH_CODE_BYTES
     \<and> list_all (\<lambda>c. is_ascii_lowercase c \<or> is_ascii_digit c \<or> c \<in> set ''_-.'') code"

definition pool_health_unknown :: pool_health where
  "pool_health_unknown = \<lparr>ph_state = PoolUnknown, ph_checked_at_ms = None, ph_code = None\<rparr>"

definition pool_health_healthy :: "nat \<Rightarrow> pool_health" where
  "pool_health_healthy checked_at_ms =
     \<lparr>ph_state = PoolHealthy, ph_checked_at_ms = Some checked_at_ms, ph_code = None\<rparr>"

definition pool_health_classified ::
  "pool_health_state \<Rightarrow> nat \<Rightarrow> string \<Rightarrow> device_pool_error + pool_health" where
  "pool_health_classified state checked_at_ms code =
     (if \<not> valid_health_code code then Inl PoolInvalidHealthCode
      else Inr \<lparr>ph_state = state, ph_checked_at_ms = Some checked_at_ms, ph_code = Some code\<rparr>)"

definition validate_health :: "pool_health \<Rightarrow> device_pool_error + unit" where
  "validate_health health =
     (if (case ph_state health of
            PoolUnknown \<Rightarrow> ph_checked_at_ms health = None \<and> ph_code health = None
          | PoolHealthy \<Rightarrow> ph_checked_at_ms health \<noteq> None \<and> ph_code health = None
          | _ \<Rightarrow> ph_checked_at_ms health \<noteq> None
                 \<and> (case ph_code health of Some code \<Rightarrow> valid_health_code code | None \<Rightarrow> False))
      then Inr () else Inl PoolInvalidHealthCode)"

record device_pool_entry =
  pe_device_id :: device_id
  pe_health :: pool_health
  pe_lease :: "device_lease option"

record device_registration_token =
  rt_device_id :: device_id
  rt_gate :: gate

subsection \<open>State and indexes\<close>

record lease_record =
  lr_value :: device_lease
  lr_deadline :: nat

record pool_record =
  pr_device_id :: device_id
  pr_health :: pool_health
  pr_health_checked_at :: "nat option"
  pr_lease :: "lease_record option"
  pr_gate :: gate

definition public_entry :: "nat \<Rightarrow> pool_record \<Rightarrow> device_pool_entry" where
  "public_entry now r =
     \<lparr>pe_device_id = pr_device_id r, pe_health = pr_health r,
      pe_lease = (case pr_lease r of
                    Some lease \<Rightarrow> if lr_deadline lease > now then Some (lr_value lease) else None
                  | None \<Rightarrow> None)\<rparr>"

record pool_state =
  ps_wall_high_water_ms :: nat
  ps_devices :: "(device_id \<times> pool_record) list"
  ps_lease_devices :: "(lease_id \<times> device_id) list"
  ps_owner_leases :: "(lease_owner_id \<times> lease_id list) list"
  ps_lease_deadlines :: "(nat \<times> lease_id) list"

definition device_pool_new :: "device_pool_config \<Rightarrow> device_pool_error + device_pool_config \<times> pool_state" where
  "device_pool_new config =
     res_bind (device_pool_config_new (pc_lease_ttl_ms config) (pc_health_validity_ms config))
       (\<lambda>config. Inr (config, \<lparr>ps_wall_high_water_ms = 0, ps_devices = [], ps_lease_devices = [],
                              ps_owner_leases = [], ps_lease_deadlines = []\<rparr>))"

definition set_lease :: "device_id \<Rightarrow> lease_record option \<Rightarrow> pool_state \<Rightarrow> pool_state" where
  "set_lease device_id lease st =
     (case map_of (ps_devices st) device_id of
        None \<Rightarrow> st
      | Some r \<Rightarrow> st\<lparr>ps_devices := bt_insert device_id (r\<lparr>pr_lease := lease\<rparr>) (ps_devices st)\<rparr>)"

text \<open>\<open>owner_leases.entry(owner_id).or_default().insert(lease_id)\<close>\<close>

definition owner_insert ::
  "lease_owner_id \<Rightarrow> lease_id \<Rightarrow> (lease_owner_id \<times> lease_id list) list \<Rightarrow>
   (lease_owner_id \<times> lease_id list) list" where
  "owner_insert owner lid m =
     bt_insert owner (bs_insert lid (case map_of m owner of Some ls \<Rightarrow> ls | None \<Rightarrow> [])) m"

definition owner_remove ::
  "lease_owner_id \<Rightarrow> lease_id \<Rightarrow> (lease_owner_id \<times> lease_id list) list \<Rightarrow>
   (lease_owner_id \<times> lease_id list) list" where
  "owner_remove owner lid m =
     (case map_of m owner of
        None \<Rightarrow> m
      | Some ls \<Rightarrow>
          let ls' = removeAll lid ls
          in if ls' = [] then hm_remove owner m else bt_insert owner ls' m)"

definition install_lease :: "device_id \<Rightarrow> lease_record \<Rightarrow> pool_state \<Rightarrow> pool_state option" where
  "install_lease device_id lease st =
     (let lid = dl_id (lr_value lease);
          owner = dl_owner_id (lr_value lease);
          deadline = lr_deadline lease;
          st = st\<lparr>ps_lease_devices := bt_insert lid device_id (ps_lease_devices st),
                 ps_owner_leases := owner_insert owner lid (ps_owner_leases st),
                 ps_lease_deadlines := bs_insert (deadline, lid) (ps_lease_deadlines st)\<rparr>
      in if map_of (ps_devices st) device_id = None then None
         else Some (set_lease device_id (Some lease) st))"

definition take_lease :: "device_id \<Rightarrow> pool_state \<Rightarrow> lease_record option \<times> pool_state" where
  "take_lease device_id st =
     (case Option.bind (map_of (ps_devices st) device_id) pr_lease of
        None \<Rightarrow> (None, st)
      | Some lease \<Rightarrow>
          let st = set_lease device_id None st;
              lid = dl_id (lr_value lease)
          in (Some lease,
              st\<lparr>ps_lease_devices := hm_remove lid (ps_lease_devices st),
                 ps_owner_leases := owner_remove (dl_owner_id (lr_value lease)) lid (ps_owner_leases st),
                 ps_lease_deadlines := removeAll (lr_deadline lease, lid) (ps_lease_deadlines st)\<rparr>))"

definition expire_lease :: "device_id \<Rightarrow> nat \<Rightarrow> pool_state \<Rightarrow> device_lease option \<times> pool_state" where
  "expire_lease device_id now st =
     (let expired = (case Option.bind (map_of (ps_devices st) device_id) pr_lease of
                       Some lease \<Rightarrow> lr_deadline lease \<le> now
                     | None \<Rightarrow> False)
      in if expired then let (lease, st) = take_lease device_id st in (map_option lr_value lease, st)
         else (None, st))"

definition renew_lease ::
  "device_id \<Rightarrow> nat \<Rightarrow> nat \<Rightarrow> pool_state \<Rightarrow> device_lease option \<times> pool_state" where
  "renew_lease device_id deadline expires_at_ms st =
     (case Option.bind (map_of (ps_devices st) device_id) pr_lease of
        None \<Rightarrow> (None, st)
      | Some lease \<Rightarrow>
          let lid = dl_id (lr_value lease);
              lease' = \<lparr>lr_value = (lr_value lease)\<lparr>dl_expires_at_ms := expires_at_ms\<rparr>,
                        lr_deadline = deadline\<rparr>;
              st = set_lease device_id (Some lease') st
          in (Some (lr_value lease'),
              st\<lparr>ps_lease_deadlines :=
                   bs_insert (deadline, lid)
                     (removeAll (lr_deadline lease, lid) (ps_lease_deadlines st))\<rparr>))"

definition lease_targets :: "pool_state \<Rightarrow> lease_id list \<Rightarrow> (device_id \<times> gate) list" where
  "lease_targets st lease_ids =
     List.map_filter (\<lambda>device_id. map_option (\<lambda>r. (device_id, pr_gate r)) (map_of (ps_devices st) device_id))
       (List.map_filter (map_of (ps_lease_devices st)) lease_ids)"

text \<open>The consistency check that the unit tests run after every operation.\<close>

definition rebuild_indexes ::
  "(device_id \<times> pool_record) list \<Rightarrow>
   (lease_id \<times> device_id) list \<times> (lease_owner_id \<times> lease_id list) list \<times> (nat \<times> lease_id) list" where
  "rebuild_indexes devices =
     fold (\<lambda>(device_id, r) (lease_devices, owner_leases, lease_deadlines).
             case pr_lease r of
               None \<Rightarrow> (lease_devices, owner_leases, lease_deadlines)
             | Some lease \<Rightarrow>
                 (bt_insert (dl_id (lr_value lease)) device_id lease_devices,
                  owner_insert (dl_owner_id (lr_value lease)) (dl_id (lr_value lease)) owner_leases,
                  bs_insert (lr_deadline lease, dl_id (lr_value lease)) lease_deadlines))
       devices ([], [], [])"

definition indexes_are_consistent :: "pool_state \<Rightarrow> bool" where
  "indexes_are_consistent st \<longleftrightarrow>
     rebuild_indexes (ps_devices st) = (ps_lease_devices st, ps_owner_leases st, ps_lease_deadlines st)"

subsection \<open>Checks of the operations\<close>

definition ensure_current_gate :: "pool_state \<Rightarrow> device_id \<Rightarrow> gate \<Rightarrow> device_pool_error + unit" where
  "ensure_current_gate st device_id gate =
     (case map_of (ps_devices st) device_id of
        None \<Rightarrow> Inl (PoolDeviceNotFound device_id)
      | Some r \<Rightarrow> if pr_gate r \<noteq> gate then Inl (PoolDeviceRegistrationChanged device_id) else Inr ())"

definition advance_wall_clock :: "nat \<Rightarrow> pool_state \<Rightarrow> nat \<times> pool_state" where
  "advance_wall_clock supplied_now_ms st =
     (let wall = max (ps_wall_high_water_ms st) supplied_now_ms
      in (wall, st\<lparr>ps_wall_high_water_ms := wall\<rparr>))"

definition ensure_healthy :: "pool_record \<Rightarrow> nat \<Rightarrow> nat \<Rightarrow> device_pool_error + unit" where
  "ensure_healthy r now validity =
     (case pr_health_checked_at r of
        None \<Rightarrow> Inl (PoolHealthUnknown (pr_device_id r))
      | Some checked_at \<Rightarrow>
          if now - checked_at > validity then Inl (PoolHealthStale (pr_device_id r))
          else
            (case ph_state (pr_health r) of
               PoolHealthy \<Rightarrow> Inr ()
             | PoolDegraded \<Rightarrow> Inr ()
             | PoolUnknown \<Rightarrow> Inl (PoolHealthUnknown (pr_device_id r))
             | PoolUnhealthy \<Rightarrow>
                 Inl (PoolDeviceUnhealthy (pr_device_id r)
                   (case ph_code (pr_health r) of Some code \<Rightarrow> code | None \<Rightarrow> ''unknown''))))"

text \<open>\<open>Instant\<close> holds its seconds in 63 bits; \<open>checked_add\<close> fails beyond.\<close>

definition INSTANT_LIMIT :: nat where
  "INSTANT_LIMIT = 2 ^ 63 * 1000000000"

definition instant_checked_add :: "nat \<Rightarrow> nat \<Rightarrow> nat option" where
  "instant_checked_add now d = (if now + d < INSTANT_LIMIT then Some (now + d) else None)"

subsection \<open>Operations\<close>

datatype 'a pool_run =
    Returns "device_pool_error + 'a" pool_state
  | Panics string
  | StillDrawing

definition pool_gate :: "device_id \<Rightarrow> pool_state \<Rightarrow> device_pool_error + gate" where
  "pool_gate device_id st =
     ok_or (map_option pr_gate (map_of (ps_devices st) device_id)) (PoolDeviceNotFound device_id)"

definition lease_device :: "lease_id \<Rightarrow> pool_state \<Rightarrow> device_pool_error + device_id" where
  "lease_device lid st = ok_or (map_of (ps_lease_devices st) lid) PoolLeaseNotFound"

definition register ::
  "gate \<Rightarrow> device_id \<Rightarrow> pool_state \<Rightarrow> device_registration_token pool_run" where
  "register gate device_id st =
     (if trim_is_empty device_id then Returns (Inl PoolInvalidDeviceId) st
      else
        case map_of (ps_devices st) device_id of
          Some _ \<Rightarrow> Returns (Inl (PoolDeviceAlreadyRegistered device_id)) st
        | None \<Rightarrow>
            Returns (Inr \<lparr>rt_device_id = device_id, rt_gate = gate\<rparr>)
              (st\<lparr>ps_devices := bt_insert device_id
                   \<lparr>pr_device_id = device_id, pr_health = pool_health_unknown,
                    pr_health_checked_at = None, pr_lease = None, pr_gate = gate\<rparr>
                   (ps_devices st)\<rparr>))"

definition remove_with_gate ::
  "device_id \<Rightarrow> nat \<Rightarrow> gate \<Rightarrow> nat \<Rightarrow> pool_state \<Rightarrow> unit pool_run" where
  "remove_with_gate device_id now_ms gate now st =
     (case ensure_current_gate st device_id gate of
        Inl e \<Rightarrow> Returns (Inl e) st
      | Inr _ \<Rightarrow>
          let st = snd (advance_wall_clock now_ms st);
              st = snd (expire_lease device_id now st)
          in case map_of (ps_devices st) device_id of
               None \<Rightarrow> Returns (Inl (PoolDeviceNotFound device_id)) st
             | Some r \<Rightarrow>
                 if pr_lease r \<noteq> None then Returns (Inl (PoolDeviceLeased device_id)) st
                 else Returns (Inr ()) (st\<lparr>ps_devices := hm_remove device_id (ps_devices st)\<rparr>))"

definition record_health ::
  "device_registration_token \<Rightarrow> pool_health \<Rightarrow> nat \<Rightarrow> nat \<Rightarrow> pool_state \<Rightarrow> pool_health pool_run" where
  "record_health registration health now_ms monotonic_now st =
     (case res_bind (validate_health health)
             (\<lambda>_. ensure_current_gate st (rt_device_id registration) (rt_gate registration)) of
        Inl e \<Rightarrow> Returns (Inl e) st
      | Inr _ \<Rightarrow>
          let (wall_now, st) = advance_wall_clock now_ms st;
              (health, checked_at) =
                (if ph_state health = PoolUnknown
                 then (health\<lparr>ph_checked_at_ms := None, ph_code := None\<rparr>, None)
                 else (health\<lparr>ph_checked_at_ms := Some wall_now\<rparr>, Some monotonic_now))
          in case map_of (ps_devices st) (rt_device_id registration) of
               None \<Rightarrow> Returns (Inl (PoolDeviceNotFound (rt_device_id registration))) st
             | Some r \<Rightarrow>
                 Returns (Inr health)
                   (st\<lparr>ps_devices := bt_insert (rt_device_id registration)
                        (r\<lparr>pr_health := health, pr_health_checked_at := checked_at\<rparr>) (ps_devices st)\<rparr>))"

definition acquire_with_gate ::
  "device_pool_config \<Rightarrow> lease_id list \<Rightarrow> device_id \<Rightarrow> lease_owner_id \<Rightarrow> nat \<Rightarrow> gate \<Rightarrow> nat \<Rightarrow>
   pool_state \<Rightarrow> device_lease pool_run" where
  "acquire_with_gate config draws device_id owner_id now_ms gate now st =
     (case instant_checked_add now (lease_ttl config) of
        None \<Rightarrow> Returns (Inl PoolInvalidConfiguration) st
      | Some deadline \<Rightarrow>
     (case ensure_current_gate st device_id gate of
        Inl e \<Rightarrow> Returns (Inl e) st
      | Inr _ \<Rightarrow>
          let (wall_now, st) = advance_wall_clock now_ms st;
              st = snd (expire_lease device_id now st);
              expires = saturating_add_u64 wall_now (pc_lease_ttl_ms config)
          in case map_of (ps_devices st) device_id of
               None \<Rightarrow> Returns (Inl (PoolDeviceNotFound device_id)) st
             | Some r \<Rightarrow>
                 (case ensure_healthy r now (health_validity config) of
                    Inl e \<Rightarrow> Returns (Inl e) st
                  | Inr _ \<Rightarrow>
                      (case pr_lease r of
                         Some lease \<Rightarrow>
                           if dl_owner_id (lr_value lease) \<noteq> owner_id
                           then Returns (Inl (PoolDeviceInUse device_id)) st
                           else
                             (case renew_lease device_id deadline expires st of
                                (None, _) \<Rightarrow> Panics ''existing lease remains indexed''
                              | (Some lease, st) \<Rightarrow> Returns (Inr lease) st)
                       | None \<Rightarrow>
                           (case find (\<lambda>c. map_of (ps_lease_devices st) c = None) draws of
                              None \<Rightarrow> StillDrawing
                            | Some lid \<Rightarrow>
                                let lease = \<lparr>dl_id = lid, dl_device_id = device_id,
                                             dl_owner_id = owner_id, dl_issued_at_ms = wall_now,
                                             dl_expires_at_ms = expires\<rparr>
                                in case install_lease device_id \<lparr>lr_value = lease, lr_deadline = deadline\<rparr> st of
                                     None \<Rightarrow> Panics ''lease device remains registered''
                                   | Some st \<Rightarrow> Returns (Inr lease) st)))))"

definition access_with_lease_inner ::
  "device_pool_config \<Rightarrow> lease_id \<Rightarrow> device_id \<Rightarrow> lease_owner_id \<Rightarrow> nat \<Rightarrow> bool \<Rightarrow> gate \<Rightarrow> nat \<Rightarrow>
   pool_state \<Rightarrow> device_id pool_run" where
  "access_with_lease_inner config lid device_id owner_id now_ms require_fresh_health gate now st =
     (case instant_checked_add now (lease_ttl config) of
        None \<Rightarrow> Returns (Inl PoolInvalidConfiguration) st
      | Some deadline \<Rightarrow>
     (case ensure_current_gate st device_id gate of
        Inl e \<Rightarrow> Returns (Inl e) st
      | Inr _ \<Rightarrow>
          let (wall_now, st) = advance_wall_clock now_ms st
          in case map_of (ps_devices st) device_id of
               None \<Rightarrow> Returns (Inl (PoolDeviceNotFound device_id)) st
             | Some r \<Rightarrow>
                 (case (if require_fresh_health then ensure_healthy r now (health_validity config) else Inr ()) of
                    Inl e \<Rightarrow> Returns (Inl e) st
                  | Inr _ \<Rightarrow>
                      (case pr_lease r of
                         None \<Rightarrow> Returns (Inl PoolLeaseNotFound) st
                       | Some lease \<Rightarrow>
                           if lr_deadline lease \<le> now
                           then Returns (Inl PoolLeaseExpired) (snd (take_lease device_id st))
                           else if dl_id (lr_value lease) \<noteq> lid \<or> dl_owner_id (lr_value lease) \<noteq> owner_id
                                   \<or> dl_device_id (lr_value lease) \<noteq> device_id
                           then Returns (Inl PoolLeaseMismatch) st
                           else
                             (case renew_lease device_id deadline
                                     (saturating_add_u64 wall_now (pc_lease_ttl_ms config)) st of
                                (None, _) \<Rightarrow> Panics ''validated lease remains indexed''
                              | (Some _, st) \<Rightarrow> Returns (Inr device_id) st)))))"

definition access_available_to_with_gate ::
  "device_id \<Rightarrow> lease_owner_id \<Rightarrow> nat \<Rightarrow> gate \<Rightarrow> nat \<Rightarrow> pool_state \<Rightarrow> device_id pool_run" where
  "access_available_to_with_gate device_id owner_id now_ms gate now st =
     (case ensure_current_gate st device_id gate of
        Inl e \<Rightarrow> Returns (Inl e) st
      | Inr _ \<Rightarrow>
          let st = snd (advance_wall_clock now_ms st);
              st = snd (expire_lease device_id now st)
          in case map_of (ps_devices st) device_id of
               None \<Rightarrow> Returns (Inl (PoolDeviceNotFound device_id)) st
             | Some r \<Rightarrow>
                 if (case pr_lease r of Some lease \<Rightarrow> dl_owner_id (lr_value lease) \<noteq> owner_id | None \<Rightarrow> False)
                 then Returns (Inl (PoolDeviceInUse device_id)) st
                 else Returns (Inr device_id) st)"

definition release_with_gate ::
  "lease_id \<Rightarrow> lease_owner_id \<Rightarrow> nat \<Rightarrow> device_id \<Rightarrow> gate \<Rightarrow> nat \<Rightarrow> pool_state \<Rightarrow> device_lease pool_run" where
  "release_with_gate lid owner_id now_ms device_id gate now st =
     (case ensure_current_gate st device_id gate of
        Inl e \<Rightarrow> Returns (Inl e) st
      | Inr _ \<Rightarrow>
          let st = snd (advance_wall_clock now_ms st)
          in case map_of (ps_devices st) device_id of
               None \<Rightarrow> Returns (Inl (PoolDeviceNotFound device_id)) st
             | Some r \<Rightarrow>
                 (case pr_lease r of
                    None \<Rightarrow> Returns (Inl PoolLeaseNotFound) st
                  | Some lease \<Rightarrow>
                      if lr_deadline lease \<le> now
                      then Returns (Inl PoolLeaseExpired) (snd (take_lease device_id st))
                      else if dl_id (lr_value lease) \<noteq> lid \<or> dl_owner_id (lr_value lease) \<noteq> owner_id
                      then Returns (Inl PoolLeaseMismatch) st
                      else
                        (case take_lease device_id st of
                           (None, _) \<Rightarrow> Panics ''validated lease remains installed''
                         | (Some lease, st) \<Rightarrow> Returns (Inr (lr_value lease)) st)))"

text \<open>The loop bodies of \<open>release_owner\<close>, \<open>release_all\<close> and \<open>reap_expired\<close>, for one target.\<close>

definition release_owner_target ::
  "lease_owner_id \<Rightarrow> nat \<Rightarrow> nat \<Rightarrow> device_id \<times> gate \<Rightarrow> device_lease list \<times> pool_state \<Rightarrow>
   device_lease list \<times> pool_state" where
  "release_owner_target owner_id now_ms now target acc =
     (case (target, acc) of ((device_id, gate), (released, st)) \<Rightarrow>
        if \<not> is_ok (ensure_current_gate st device_id gate) then (released, st)
        else
          let st = snd (advance_wall_clock now_ms st)
          in if (case Option.bind (map_of (ps_devices st) device_id) pr_lease of
                   Some lease \<Rightarrow> dl_owner_id (lr_value lease) = owner_id | None \<Rightarrow> False)
             then (case take_lease device_id st of
                     (Some lease, st) \<Rightarrow>
                       (if lr_deadline lease > now then released @ [lr_value lease] else released, st)
                   | (None, st) \<Rightarrow> (released, st))
             else (released, st))"

definition release_all_target ::
  "nat \<Rightarrow> device_id \<times> gate \<Rightarrow> device_lease list \<times> pool_state \<Rightarrow> device_lease list \<times> pool_state" where
  "release_all_target now_ms target acc =
     (case (target, acc) of ((device_id, gate), (released, st)) \<Rightarrow>
        if \<not> is_ok (ensure_current_gate st device_id gate) then (released, st)
        else
          let st = snd (advance_wall_clock now_ms st)
          in case take_lease device_id st of
               (Some lease, st) \<Rightarrow> (released @ [lr_value lease], st)
             | (None, st) \<Rightarrow> (released, st))"

definition reap_expired_target ::
  "nat \<Rightarrow> nat \<Rightarrow> device_id \<times> gate \<Rightarrow> device_lease list \<times> pool_state \<Rightarrow> device_lease list \<times> pool_state" where
  "reap_expired_target now_ms now target acc =
     (case (target, acc) of ((device_id, gate), (expired, st)) \<Rightarrow>
        if \<not> is_ok (ensure_current_gate st device_id gate) then (expired, st)
        else
          let st = snd (advance_wall_clock now_ms st)
          in case expire_lease device_id now st of
               (Some lease, st) \<Rightarrow> (expired @ [lease], st)
             | (None, st) \<Rightarrow> (expired, st))"

definition release_owner_targets :: "lease_owner_id \<Rightarrow> pool_state \<Rightarrow> (device_id \<times> gate) list" where
  "release_owner_targets owner_id st =
     lease_targets st (case map_of (ps_owner_leases st) owner_id of Some ls \<Rightarrow> ls | None \<Rightarrow> [])"

definition release_all_targets :: "pool_state \<Rightarrow> (device_id \<times> gate) list" where
  "release_all_targets st = lease_targets st (map fst (ps_lease_devices st))"

definition reap_expired_targets :: "nat \<Rightarrow> pool_state \<Rightarrow> (device_id \<times> gate) list" where
  "reap_expired_targets candidate_now st =
     lease_targets st (map snd (takeWhile (\<lambda>(deadline, _). deadline \<le> candidate_now) (ps_lease_deadlines st)))"

definition pool_entries :: "nat \<Rightarrow> nat \<Rightarrow> pool_state \<Rightarrow> device_pool_entry list \<times> pool_state" where
  "pool_entries now_ms now st =
     (let st = snd (advance_wall_clock now_ms st)
      in (map (public_entry now \<circ> snd) (ps_devices st), st))"

text \<open>
  The operations as a caller runs them while nobody else uses the pool: every loop iteration
  and every body finds the state that the previous one left.
\<close>

definition remove_device :: "device_id \<Rightarrow> nat \<Rightarrow> nat \<Rightarrow> pool_state \<Rightarrow> unit pool_run" where
  "remove_device device_id now_ms now st =
     (case pool_gate device_id st of
        Inl e \<Rightarrow> Returns (Inl e) st
      | Inr gate \<Rightarrow> remove_with_gate device_id now_ms gate now st)"

definition acquire ::
  "device_pool_config \<Rightarrow> lease_id list \<Rightarrow> device_id \<Rightarrow> lease_owner_id \<Rightarrow> nat \<Rightarrow> nat \<Rightarrow>
   pool_state \<Rightarrow> device_lease pool_run" where
  "acquire config draws device_id owner_id now_ms now st =
     (case pool_gate device_id st of
        Inl e \<Rightarrow> Returns (Inl e) st
      | Inr gate \<Rightarrow> acquire_with_gate config draws device_id owner_id now_ms gate now st)"

definition release ::
  "lease_id \<Rightarrow> lease_owner_id \<Rightarrow> nat \<Rightarrow> nat \<Rightarrow> pool_state \<Rightarrow> device_lease pool_run" where
  "release lid owner_id now_ms now st =
     (case lease_device lid st of
        Inl e \<Rightarrow> Returns (Inl e) st
      | Inr device_id \<Rightarrow>
          (case pool_gate device_id st of
             Inl e \<Rightarrow> Returns (Inl e) st
           | Inr gate \<Rightarrow> release_with_gate lid owner_id now_ms device_id gate now st))"

definition release_owner :: "lease_owner_id \<Rightarrow> nat \<Rightarrow> nat \<Rightarrow> pool_state \<Rightarrow> device_lease list \<times> pool_state" where
  "release_owner owner_id now_ms now st =
     fold (release_owner_target owner_id now_ms now) (release_owner_targets owner_id st) ([], st)"

definition release_all :: "nat \<Rightarrow> pool_state \<Rightarrow> device_lease list \<times> pool_state" where
  "release_all now_ms st = fold (release_all_target now_ms) (release_all_targets st) ([], st)"

definition reap_expired :: "nat \<Rightarrow> nat \<Rightarrow> pool_state \<Rightarrow> device_lease list \<times> pool_state" where
  "reap_expired now_ms now st = fold (reap_expired_target now_ms now) (reap_expired_targets now st) ([], st)"

end
