(* ===== verification/Pool_Invariant.thy ===== *)
theory Pool_Invariant
  imports Device_Pool
begin

text \<open>
  The invariant of the device pool. \<open>leased\<close> is the abstract state, the lease of each device;
  \<open>index_inv\<close> says that the three indexes of \<open>PoolState\<close> are exactly the ones that state
  determines. The four index updates of the code (install, take, expire, renew) refine updates of
  \<open>leased\<close>, every operation body keeps \<open>pool_inv\<close>, and under it no body panics.
\<close>

subsection \<open>The abstract state and the indexes it determines\<close>

abbreviation lease_of :: "lease_record \<Rightarrow> lease_id" where
  "lease_of l \<equiv> dl_id (lr_value l)"

abbreviation owner_of :: "lease_record \<Rightarrow> lease_owner_id" where
  "owner_of l \<equiv> dl_owner_id (lr_value l)"

definition leased :: "pool_state \<Rightarrow> device_id \<Rightarrow> lease_record option" where
  "leased st device_id = Option.bind (map_of (ps_devices st) device_id) pr_lease"

definition index_wf ::
  "(lease_id \<times> device_id) list \<Rightarrow> (lease_owner_id \<times> lease_id list) list \<Rightarrow> (nat \<times> lease_id) list \<Rightarrow> bool" where
  "index_wf ld ol dls \<longleftrightarrow>
     bt_wf ld \<and> bt_wf ol \<and> (\<forall>ow ls. map_of ol ow = Some ls \<longrightarrow> ls \<noteq> [] \<and> sorted_wrt (<) ls)
     \<and> sorted_wrt (<) dls"

definition owned_by :: "(lease_owner_id \<times> lease_id list) list \<Rightarrow> lease_owner_id \<Rightarrow> lease_id set" where
  "owned_by ol ow = (case map_of ol ow of Some ls \<Rightarrow> set ls | None \<Rightarrow> {})"

definition index_inv ::
  "(device_id \<Rightarrow> lease_record option) \<Rightarrow>
   (lease_id \<times> device_id) list \<Rightarrow> (lease_owner_id \<times> lease_id list) list \<Rightarrow> (nat \<times> lease_id) list \<Rightarrow> bool" where
  "index_inv L ld ol dls \<longleftrightarrow>
     index_wf ld ol dls
     \<and> (\<forall>lid dev. map_of ld lid = Some dev \<longleftrightarrow> (\<exists>l. L dev = Some l \<and> lease_of l = lid))
     \<and> (\<forall>ow. owned_by ol ow = lease_of ` {l \<in> ran L. owner_of l = ow})
     \<and> set dls = (\<lambda>l. (lr_deadline l, lease_of l)) ` ran L"

definition pool_inv :: "pool_state \<Rightarrow> bool" where
  "pool_inv st \<longleftrightarrow>
     bt_wf (ps_devices st)
     \<and> (\<forall>dev r. map_of (ps_devices st) dev = Some r \<longrightarrow>
          pr_device_id r = dev \<and> (\<forall>l. pr_lease r = Some l \<longrightarrow> dl_device_id (lr_value l) = dev))
     \<and> index_inv (leased st) (ps_lease_devices st) (ps_owner_leases st) (ps_lease_deadlines st)"

lemma index_inv_unique_lease:
  "index_inv L ld ol dls \<Longrightarrow> L d = Some l \<Longrightarrow> L d' = Some l' \<Longrightarrow> lease_of l = lease_of l' \<Longrightarrow> d = d'"
  unfolding index_inv_def by (metis option.inject)

lemma index_inv_lookup:
  "index_inv L ld ol dls \<Longrightarrow> L d = Some l \<Longrightarrow> map_of ld (lease_of l) = Some d"
  unfolding index_inv_def by blast

lemma index_inv_fresh:
  "index_inv L ld ol dls \<Longrightarrow> map_of ld lid = None \<Longrightarrow> L d = Some l \<Longrightarrow> lease_of l \<noteq> lid"
  using index_inv_lookup by (metis option.distinct(1))

subsection \<open>Updates of the indexes\<close>

lemma owned_by_insert:
  "owned_by (owner_insert ow lid ol) w = (if w = ow then insert lid (owned_by ol ow) else owned_by ol w)"
  by (auto simp: owned_by_def owner_insert_def split: option.splits)

lemma owned_by_remove:
  "owned_by (owner_remove ow lid ol) w = (if w = ow then owned_by ol ow - {lid} else owned_by ol w)"
  by (auto simp: owned_by_def owner_remove_def map_of_delete_fun Let_def removeAll_filter_not_eq
      filter_empty_conv split: option.splits)

lemma index_wf_insert:
  "index_wf ld ol dls \<Longrightarrow> index_wf (bt_insert lid dev ld) (owner_insert ow lid ol) (bs_insert p dls)"
  by (auto simp: index_wf_def bt_wf_insert sorted_bs_insert owner_insert_def split: option.splits if_splits)
    (metis emptyE insertI1 list.set(1) set_bs_insert)+

lemma sorted_wrt_removeAll: "sorted_wrt (<) xs \<Longrightarrow> sorted_wrt (<) (removeAll x xs)"
  by (simp add: removeAll_filter_not_eq sorted_wrt_filter)

lemma index_wf_remove:
  "index_wf ld ol dls \<Longrightarrow> index_wf (hm_remove lid ld) (owner_remove ow lid ol) (removeAll p dls)"
  by (auto simp: index_wf_def bt_wf_insert bt_wf_remove sorted_wrt_removeAll owner_remove_def Let_def
      map_of_delete_fun split: option.splits if_splits)

lemma index_invD:
  assumes "index_inv L ld ol dls"
  shows "index_wf ld ol dls"
    and "map_of ld lid = Some d \<longleftrightarrow> (\<exists>l. L d = Some l \<and> lease_of l = lid)"
    and "owned_by ol ow = lease_of ` {l \<in> ran L. owner_of l = ow}"
    and "set dls = (\<lambda>l. (lr_deadline l, lease_of l)) ` ran L"
  using assms unfolding index_inv_def by simp_all

lemma ran_without:
  assumes "index_inv L ld ol dls" "L dev = Some l"
  shows "ran (L(dev := None)) = {q \<in> ran L. lease_of q \<noteq> lease_of l}"
  using index_inv_unique_lease [OF assms(1)] assms(2)
  by (auto simp: ran_def split: if_splits) (metis option.inject)

lemma ran_without_upd: "ran (L(dev \<mapsto> l')) = insert l' (ran (L(dev := None)))"
  by (auto simp: ran_def split: if_splits)

lemma index_inv_install:
  assumes inv: "index_inv L ld ol dls" and "L dev = None" and fresh: "map_of ld (lease_of l) = None"
  shows "index_inv (L(dev \<mapsto> l)) (bt_insert (lease_of l) dev ld) (owner_insert (owner_of l) (lease_of l) ol)
    (bs_insert (lr_deadline l, lease_of l) dls)"
proof -
  note f = index_inv_fresh [OF inv fresh] and D = index_invD [OF inv]
  have "map_of (bt_insert (lease_of l) dev ld) lid = Some d \<longleftrightarrow>
      (\<exists>q. (L(dev \<mapsto> l)) d = Some q \<and> lease_of q = lid)" for lid d
    using assms(2) f by (cases "d = dev") (auto simp: D)
  moreover have "owned_by (owner_insert (owner_of l) (lease_of l) ol) ow =
      lease_of ` {q \<in> ran (L(dev \<mapsto> l)). owner_of q = ow}" for ow
    using assms(2) by (auto simp: owned_by_insert D ran_map_upd)
  ultimately show ?thesis
    using assms(2) D(1) unfolding index_inv_def by (simp add: index_wf_insert D(4) ran_map_upd)
qed

lemma index_inv_take:
  assumes inv: "index_inv L ld ol dls" and l: "L dev = Some l"
  shows "index_inv (L(dev := None)) (hm_remove (lease_of l) ld) (owner_remove (owner_of l) (lease_of l) ol)
    (removeAll (lr_deadline l, lease_of l) dls)"
proof -
  note u = index_inv_unique_lease [OF inv _ l] and D = index_invD [OF inv]
  have mem: "l \<in> ran L" using l by (auto simp: ran_def)
  have same: "q = l" if "q \<in> ran L" "lease_of q = lease_of l" for q
    using that u l by (auto simp: ran_def)
  have "d \<noteq> dev \<longleftrightarrow> lease_of q \<noteq> lease_of l" if "L d = Some q" for d q
    using that u l by (metis option.inject)
  then have "map_of (hm_remove (lease_of l) ld) lid = Some d \<longleftrightarrow>
      (\<exists>q. (L(dev := None)) d = Some q \<and> lease_of q = lid)" for lid d
    by (cases "L d") (auto simp: map_of_delete_fun D(2))
  moreover have "owned_by (owner_remove (owner_of l) (lease_of l) ol) ow =
      lease_of ` {q \<in> ran (L(dev := None)). owner_of q = ow}" for ow
    using same by (auto simp: owned_by_remove D ran_without [OF inv l])
  moreover have "set (removeAll (lr_deadline l, lease_of l) dls) =
      (\<lambda>q. (lr_deadline q, lease_of q)) ` ran (L(dev := None))"
    using same by (auto simp: D(4) ran_without [OF inv l])
  ultimately show ?thesis
    using D(1) unfolding index_inv_def by (simp add: index_wf_remove)
qed

lemma index_inv_renew:
  assumes inv: "index_inv L ld ol dls" and l: "L dev = Some l"
    and same: "lease_of l' = lease_of l" "owner_of l' = owner_of l"
  shows "index_inv (L(dev \<mapsto> l')) ld ol
    (bs_insert (lr_deadline l', lease_of l) (removeAll (lr_deadline l, lease_of l) dls))"
proof -
  note D = index_invD [OF inv] and T = index_invD [OF index_inv_take [OF inv l]]
  have "map_of ld lid = Some d \<longleftrightarrow> (\<exists>q. (L(dev \<mapsto> l')) d = Some q \<and> lease_of q = lid)" for lid d
    using l same by (cases "d = dev") (auto simp: D)
  moreover have "owned_by ol ow = lease_of ` {q \<in> ran (L(dev \<mapsto> l')). owner_of q = ow}" for ow
  proof -
    have "ran L = insert l (ran (L(dev := None)))"
      using ran_without_upd [of L dev l] l by (simp add: fun_upd_idem)
    moreover have "{q \<in> insert x R. owner_of q = ow} =
        (if owner_of x = ow then insert x {q \<in> R. owner_of q = ow} else {q \<in> R. owner_of q = ow})" for x R
      by auto
    ultimately show ?thesis using same by (simp add: D(3) ran_without_upd)
  qed
  ultimately show ?thesis
    using D(1) T(1,4) same unfolding index_inv_def
    by (simp add: index_wf_def sorted_bs_insert ran_without_upd)
qed

subsection \<open>The indexes are determined by the leases\<close>

lemma alist_of_keys: "distinct (map fst m) \<Longrightarrow> map (\<lambda>k. (k, the (map_of m k))) (map fst m) = m"
  by (auto intro!: map_idI)

lemma bt_wf_unique:
  assumes "bt_wf m" "bt_wf m'" "map_of m = map_of m'"
  shows "m = m'"
proof -
  have "set (map fst m) = set (map fst m')"
    using assms(3) by (metis dom_map_of_conv_image_fst set_map)
  with assms have "map fst m = map fst m'"
    by (simp add: bt_wf_def strict_sorted_equal)
  with assms show ?thesis
    using alist_of_keys [of m] alist_of_keys [of m'] by (simp add: bt_wf_distinct)
qed

lemma index_inv_determines:
  assumes "index_inv L ld ol dls" "index_inv L ld' ol' dls'"
  shows "ld = ld' \<and> ol = ol' \<and> dls = dls'"
proof (intro conjI)
  note D = index_invD [OF assms(1)] and D' = index_invD [OF assms(2)]
  have "map_of ld lid = map_of ld' lid" for lid
    using D(2) [of lid] D'(2) [of lid] by (metis not_None_eq)
  then show "ld = ld'"
    using D(1) D'(1) by (intro bt_wf_unique) (auto simp: index_wf_def)
  have "map_of ol ow = map_of ol' ow" for ow
  proof -
    have eq: "owned_by ol ow = owned_by ol' ow" using D(3) D'(3) by simp
    have ne: "ls \<noteq> [] \<and> sorted_wrt (<) ls" if "map_of ol ow = Some ls \<or> map_of ol' ow = Some ls" for ls
      using that D(1) D'(1) by (auto simp: index_wf_def)
    show ?thesis
    proof (cases "map_of ol ow"; cases "map_of ol' ow")
      fix ls ls' assume "map_of ol ow = Some ls" "map_of ol' ow = Some ls'"
      then show ?thesis using eq ne by (auto simp: owned_by_def intro: strict_sorted_equal)
    qed (use eq ne in \<open>auto simp: owned_by_def\<close>)
  qed
  then show "ol = ol'"
    using D(1) D'(1) by (intro bt_wf_unique) (auto simp: index_wf_def)
  show "dls = dls'"
    using D(1,4) D'(1,4) by (intro strict_sorted_equal) (auto simp: index_wf_def)
qed

lemma rebuild_snoc:
  "rebuild_indexes (xs @ [(d, r)]) =
     (case rebuild_indexes xs of (ld, ol, dls) \<Rightarrow>
        case pr_lease r of
          None \<Rightarrow> (ld, ol, dls)
        | Some l \<Rightarrow> (bt_insert (lease_of l) d ld, owner_insert (owner_of l) (lease_of l) ol,
                     bs_insert (lr_deadline l, lease_of l) dls))"
  by (simp add: rebuild_indexes_def split: prod.splits)

definition leases_in :: "(device_id \<times> pool_record) list \<Rightarrow> device_id \<Rightarrow> lease_record option" where
  "leases_in devices d = Option.bind (map_of devices d) pr_lease"

lemma leases_in_snoc:
  assumes "d \<notin> fst ` set xs"
  shows "leases_in xs d = None" "leases_in (xs @ [(d, r)]) = (leases_in xs)(d := pr_lease r)"
proof -
  have "map_of xs d = None" using assms by (simp only: map_of_eq_None_iff not_False_eq_True)
  then show "leases_in xs d = None" "leases_in (xs @ [(d, r)]) = (leases_in xs)(d := pr_lease r)"
    by (auto simp: leases_in_def fun_eq_iff map_add_def split: option.splits)
qed

lemma rebuild_index_inv:
  assumes "distinct (map fst xs)"
    and "\<And>d d' l l'. leases_in xs d = Some l \<Longrightarrow> leases_in xs d' = Some l' \<Longrightarrow>
      lease_of l = lease_of l' \<Longrightarrow> d = d'"
  shows "case rebuild_indexes xs of (ld, ol, dls) \<Rightarrow> index_inv (leases_in xs) ld ol dls"
  using assms
proof (induction xs rule: rev_induct)
  case Nil
  then show ?case
    by (simp add: rebuild_indexes_def index_inv_def index_wf_def leases_in_def owned_by_def bt_wf_def
        ran_def)
next
  case (snoc x xs)
  obtain d r where x: "x = (d, r)" by (cases x)
  have d: "d \<notin> fst ` set xs" using snoc.prems(1) x by simp
  note none = leases_in_snoc(1) [OF d] and upd = leases_in_snoc(2) [OF d, of r]
  obtain ld ol dls where re: "rebuild_indexes xs = (ld, ol, dls)" by (cases "rebuild_indexes xs")
  have inj: "e = e'" if "leases_in xs e = Some l" "leases_in xs e' = Some l'" "lease_of l = lease_of l'"
    for e e' l l'
  proof -
    have "e \<noteq> d" "e' \<noteq> d" using that(1,2) none by auto
    with that show ?thesis using snoc.prems(2) [of e l e' l'] by (simp add: upd x)
  qed
  have IH: "index_inv (leases_in xs) ld ol dls"
    using snoc.IH [OF _ inj] snoc.prems(1) re by simp
  show ?case
  proof (cases "pr_lease r")
    case None
    then show ?thesis
      using IH none by (simp add: x rebuild_snoc re upd fun_upd_idem)
  next
    case (Some l)
    have "map_of ld (lease_of l) = None"
    proof (rule ccontr)
      assume "map_of ld (lease_of l) \<noteq> None"
      then obtain e where "map_of ld (lease_of l) = Some e" by auto
      then obtain l' where e: "leases_in xs e = Some l'" "lease_of l' = lease_of l"
        by (auto simp: index_invD(2) [OF IH])
      have "e \<noteq> d" using none e(1) by auto
      then have "leases_in (xs @ [x]) e = Some l'" "leases_in (xs @ [x]) d = Some l"
        using e(1) Some by (simp_all add: upd x)
      with snoc.prems(2) e(2) \<open>e \<noteq> d\<close> show False by blast
    qed
    from index_inv_install [OF IH none this] show ?thesis
      by (simp only: x rebuild_snoc re upd Some prod.case option.case)
  qed
qed

lemma leased_leases_in: "leased st = leases_in (ps_devices st)"
  by (simp add: leased_def leases_in_def fun_eq_iff)

lemma pool_inv_consistent: "pool_inv st \<Longrightarrow> indexes_are_consistent st"
proof -
  assume inv: "pool_inv st"
  then have ix: "index_inv (leases_in (ps_devices st)) (ps_lease_devices st) (ps_owner_leases st)
      (ps_lease_deadlines st)"
    by (simp add: pool_inv_def leased_leases_in)
  obtain ld ol dls where re: "rebuild_indexes (ps_devices st) = (ld, ol, dls)"
    by (cases "rebuild_indexes (ps_devices st)")
  have "index_inv (leases_in (ps_devices st)) ld ol dls"
    using rebuild_index_inv [of "ps_devices st"] index_inv_unique_lease [OF ix] inv re
    by (auto simp: pool_inv_def bt_wf_distinct)
  then show ?thesis
    using index_inv_determines [OF ix] re by (simp add: indexes_are_consistent_def)
qed

subsection \<open>The lease primitives refine updates of the leases\<close>

text \<open>
  Beside the leases a pool has its registrations: everything in a device record but the lease.
\<close>

definition registered :: "pool_state \<Rightarrow> device_id \<Rightarrow> pool_record option" where
  "registered st d = map_option (\<lambda>r. r\<lparr>pr_lease := None\<rparr>) (map_of (ps_devices st) d)"

lemma device_record:
  "map_of (ps_devices st) d = map_option (\<lambda>r. r\<lparr>pr_lease := leased st d\<rparr>) (registered st d)"
  by (cases "map_of (ps_devices st) d") (simp_all add: registered_def leased_def)

lemma leased_registered: "leased st d = Some l \<Longrightarrow> \<exists>r. registered st d = Some r"
  by (auto simp: leased_def registered_def bind_eq_Some_conv)

definition same_shell :: "pool_state \<Rightarrow> pool_state \<Rightarrow> bool" where
  "same_shell st st' \<longleftrightarrow>
     registered st' = registered st \<and> ps_wall_high_water_ms st' = ps_wall_high_water_ms st"

lemma leased_simps [simp]:
  "leased (st\<lparr>ps_lease_devices := a\<rparr>) = leased st"
  "leased (st\<lparr>ps_owner_leases := b\<rparr>) = leased st"
  "leased (st\<lparr>ps_lease_deadlines := c\<rparr>) = leased st"
  "leased (st\<lparr>ps_wall_high_water_ms := w\<rparr>) = leased st"
  by (simp_all add: leased_def fun_eq_iff)

lemma registered_simps [simp]:
  "registered (st\<lparr>ps_lease_devices := a\<rparr>) = registered st"
  "registered (st\<lparr>ps_owner_leases := b\<rparr>) = registered st"
  "registered (st\<lparr>ps_lease_deadlines := c\<rparr>) = registered st"
  "registered (st\<lparr>ps_wall_high_water_ms := w\<rparr>) = registered st"
  by (simp_all add: registered_def fun_eq_iff)

lemma set_lease_fields [simp]:
  "ps_lease_devices (set_lease d l st) = ps_lease_devices st"
  "ps_owner_leases (set_lease d l st) = ps_owner_leases st"
  "ps_lease_deadlines (set_lease d l st) = ps_lease_deadlines st"
  "ps_wall_high_water_ms (set_lease d l st) = ps_wall_high_water_ms st"
  by (simp_all add: set_lease_def split: option.splits)

lemma set_lease_views:
  assumes "map_of (ps_devices st) d = Some r"
  shows "leased (set_lease d l st) = (leased st)(d := l)" "registered (set_lease d l st) = registered st"
  using assms by (auto simp: set_lease_def leased_def registered_def fun_eq_iff)

definition devices_ok :: "pool_state \<Rightarrow> bool" where
  "devices_ok st \<longleftrightarrow>
     bt_wf (ps_devices st) \<and> (\<forall>d r. registered st d = Some r \<longrightarrow> pr_device_id r = d)
     \<and> (\<forall>d l. leased st d = Some l \<longrightarrow> dl_device_id (lr_value l) = d)"

lemma pool_inv_alt:
  "pool_inv st \<longleftrightarrow> devices_ok st
     \<and> index_inv (leased st) (ps_lease_devices st) (ps_owner_leases st) (ps_lease_deadlines st)"
proof -
  have "(\<forall>r. map_of (ps_devices st) d = Some r \<longrightarrow>
          pr_device_id r = d \<and> (\<forall>l. pr_lease r = Some l \<longrightarrow> dl_device_id (lr_value l) = d)) \<longleftrightarrow>
        (\<forall>r. registered st d = Some r \<longrightarrow> pr_device_id r = d)
        \<and> (\<forall>l. leased st d = Some l \<longrightarrow> dl_device_id (lr_value l) = d)" for d
    by (cases "map_of (ps_devices st) d") (simp_all add: registered_def leased_def)
  then show ?thesis
    unfolding pool_inv_def devices_ok_def by (simp only: all_conj_distrib conj_assoc)
qed

lemma bt_wf_set_lease: "bt_wf (ps_devices st) \<Longrightarrow> bt_wf (ps_devices (set_lease d l st))"
  by (simp add: set_lease_def bt_wf_insert split: option.splits)

lemma install_lease_spec:
  assumes "pool_inv st" "registered st d \<noteq> None" "leased st d = None"
    and "map_of (ps_lease_devices st) (lease_of l) = None" "dl_device_id (lr_value l) = d"
  shows "\<exists>st'. install_lease d l st = Some st' \<and> pool_inv st' \<and> leased st' = (leased st)(d \<mapsto> l)
    \<and> same_shell st st'"
proof -
  obtain r where r: "map_of (ps_devices st) d = Some r"
    using assms(2) by (auto simp: registered_def)
  show ?thesis
    using assms r index_inv_install [of "leased st" _ _ _ d l]
    by (auto simp: install_lease_def Let_def pool_inv_alt devices_ok_def set_lease_views same_shell_def
        bt_wf_set_lease)
qed

lemma take_lease_spec:
  assumes "pool_inv st"
  shows "\<exists>st'. take_lease d st = (leased st d, st') \<and> pool_inv st' \<and> leased st' = (leased st)(d := None)
    \<and> same_shell st st'"
proof (cases "leased st d")
  case None
  then have "take_lease d st = (None, st)"
    by (simp add: take_lease_def leased_def)
  with None assms show ?thesis
    by (simp add: same_shell_def fun_upd_idem)
next
  case (Some l)
  then obtain r where r: "map_of (ps_devices st) d = Some r" "pr_lease r = Some l"
    by (auto simp: leased_def bind_eq_Some_conv)
  show ?thesis
    using assms Some r index_inv_take [of "leased st" _ _ _ d l]
    by (auto simp: take_lease_def Let_def pool_inv_alt devices_ok_def
        set_lease_views same_shell_def bt_wf_set_lease)
qed

lemma expire_lease_spec:
  assumes "pool_inv st"
  shows "\<exists>st'. expire_lease d now st =
      (case leased st d of Some l \<Rightarrow> if lr_deadline l \<le> now then Some (lr_value l) else None | None \<Rightarrow> None, st')
    \<and> pool_inv st' \<and> same_shell st st'
    \<and> leased st' = (leased st)(d := (case leased st d of
         Some l \<Rightarrow> if lr_deadline l \<le> now then None else Some l | None \<Rightarrow> None))"
proof (cases "case leased st d of Some l \<Rightarrow> lr_deadline l \<le> now | None \<Rightarrow> False")
  case True
  then show ?thesis
    using take_lease_spec [OF assms, of d]
    by (auto simp: expire_lease_def leased_def [symmetric] Let_def split: option.splits)
next
  case False
  then have "expire_lease d now st = (None, st)"
    by (simp only: expire_lease_def leased_def [symmetric] Let_def if_False)
  with False assms show ?thesis
    by (auto simp: same_shell_def fun_upd_idem split: option.splits)
qed

lemma renew_lease_spec:
  assumes "pool_inv st" "leased st d = Some l"
  shows "\<exists>st'. renew_lease d deadline expires st =
      (Some ((lr_value l)\<lparr>dl_expires_at_ms := expires\<rparr>), st')
    \<and> pool_inv st' \<and> same_shell st st'
    \<and> leased st' = (leased st)(d \<mapsto>
        \<lparr>lr_value = (lr_value l)\<lparr>dl_expires_at_ms := expires\<rparr>, lr_deadline = deadline\<rparr>)"
proof -
  obtain r where r: "map_of (ps_devices st) d = Some r" "pr_lease r = Some l"
    using assms(2) by (auto simp: leased_def bind_eq_Some_conv)
  let ?l = "\<lparr>lr_value = (lr_value l)\<lparr>dl_expires_at_ms := expires\<rparr>, lr_deadline = deadline\<rparr>"
  have "index_inv ((leased st)(d \<mapsto> ?l)) (ps_lease_devices st) (ps_owner_leases st)
      (bs_insert (deadline, lease_of l) (removeAll (lr_deadline l, lease_of l) (ps_lease_deadlines st)))"
    using index_inv_renew [of "leased st" _ _ _ d l ?l] assms by (simp add: pool_inv_alt)
  then show ?thesis
    using assms r
    by (auto simp: renew_lease_def Let_def pool_inv_alt devices_ok_def set_lease_views same_shell_def
        bt_wf_set_lease)
qed

lemma advance_wall_clock_spec:
  "pool_inv st \<Longrightarrow> \<exists>st'. advance_wall_clock now_ms st = (max (ps_wall_high_water_ms st) now_ms, st')
    \<and> pool_inv st' \<and> registered st' = registered st \<and> leased st' = leased st
    \<and> ps_wall_high_water_ms st' = max (ps_wall_high_water_ms st) now_ms"
  by (simp add: advance_wall_clock_def Let_def pool_inv_alt devices_ok_def)

end
