(* ===== verification/Pool_Refinement.thy ===== *)
theory Pool_Refinement
  imports Pool_Invariant
begin

text \<open>
  The abstract device pool: a wall clock, the registrations and the lease of each device, with
  no index. Every operation body of \<open>DevicePool\<close> keeps the invariant, returns without a panic
  and refines its abstract counterpart.
\<close>

subsection \<open>The abstract pool\<close>

type_synonym pool_view =
  "nat \<times> (device_id \<Rightarrow> pool_record option) \<times> (device_id \<Rightarrow> lease_record option)"

definition pool_view :: "pool_state \<Rightarrow> pool_view" where
  "pool_view st = (ps_wall_high_water_ms st, registered st, leased st)"

definition drop_expired ::
  "nat \<Rightarrow> device_id \<Rightarrow> (device_id \<Rightarrow> lease_record option) \<Rightarrow> device_id \<Rightarrow> lease_record option" where
  "drop_expired now d L =
     L(d := (case L d of Some l \<Rightarrow> if lr_deadline l \<le> now then None else Some l | None \<Rightarrow> None))"

definition renewed :: "nat \<Rightarrow> nat \<Rightarrow> lease_record \<Rightarrow> lease_record" where
  "renewed deadline expires l =
     \<lparr>lr_value = (lr_value l)\<lparr>dl_expires_at_ms := expires\<rparr>, lr_deadline = deadline\<rparr>"

definition view_gated ::
  "device_id \<Rightarrow> gate \<Rightarrow> pool_view \<Rightarrow>
   (pool_record \<Rightarrow> (device_pool_error + 'a) \<times> pool_view) \<Rightarrow> (device_pool_error + 'a) \<times> pool_view" where
  "view_gated d g v f =
     (case fst (snd v) d of
        None \<Rightarrow> (Inl (PoolDeviceNotFound d), v)
      | Some r \<Rightarrow> if pr_gate r \<noteq> g then (Inl (PoolDeviceRegistrationChanged d), v) else f r)"

definition view_register ::
  "gate \<Rightarrow> device_id \<Rightarrow> pool_view \<Rightarrow> (device_pool_error + device_registration_token) \<times> pool_view" where
  "view_register g d v =
     (case v of (w, R, L) \<Rightarrow>
        if trim_is_empty d then (Inl PoolInvalidDeviceId, v)
        else if R d \<noteq> None then (Inl (PoolDeviceAlreadyRegistered d), v)
        else (Inr \<lparr>rt_device_id = d, rt_gate = g\<rparr>,
              (w, R(d \<mapsto> \<lparr>pr_device_id = d, pr_health = pool_health_unknown,
                         pr_health_checked_at = None, pr_lease = None, pr_gate = g\<rparr>), L)))"

definition view_remove ::
  "device_id \<Rightarrow> nat \<Rightarrow> gate \<Rightarrow> nat \<Rightarrow> pool_view \<Rightarrow> (device_pool_error + unit) \<times> pool_view" where
  "view_remove d now_ms g now v =
     (case v of (w, R, L) \<Rightarrow> view_gated d g v (\<lambda>r.
        let w' = max w now_ms; L' = drop_expired now d L in
        if L' d \<noteq> None then (Inl (PoolDeviceLeased d), (w', R, L'))
        else (Inr (), (w', R(d := None), L'))))"

definition view_acquire ::
  "device_pool_config \<Rightarrow> lease_id \<Rightarrow> device_id \<Rightarrow> lease_owner_id \<Rightarrow> nat \<Rightarrow> gate \<Rightarrow> nat \<Rightarrow> pool_view \<Rightarrow>
   (device_pool_error + device_lease) \<times> pool_view" where
  "view_acquire config lid d owner now_ms g now v =
     (case v of (w, R, L) \<Rightarrow> view_gated d g v (\<lambda>r.
        let w' = max w now_ms; L' = drop_expired now d L; deadline = now + lease_ttl config;
            expires = saturating_add_u64 w' (pc_lease_ttl_ms config)
        in case ensure_healthy r now (health_validity config) of
             Inl e \<Rightarrow> (Inl e, (w', R, L'))
           | Inr _ \<Rightarrow>
               (case L' d of
                  Some l \<Rightarrow>
                    if owner_of l \<noteq> owner then (Inl (PoolDeviceInUse d), (w', R, L'))
                    else (Inr (lr_value (renewed deadline expires l)),
                          (w', R, L'(d \<mapsto> renewed deadline expires l)))
                | None \<Rightarrow>
                    let lease = \<lparr>dl_id = lid, dl_device_id = d, dl_owner_id = owner,
                                 dl_issued_at_ms = w', dl_expires_at_ms = expires\<rparr>
                    in (Inr lease, (w', R, L'(d \<mapsto> \<lparr>lr_value = lease, lr_deadline = deadline\<rparr>))))))"

definition view_access ::
  "device_pool_config \<Rightarrow> lease_id \<Rightarrow> device_id \<Rightarrow> lease_owner_id \<Rightarrow> nat \<Rightarrow> bool \<Rightarrow> gate \<Rightarrow> nat \<Rightarrow> pool_view \<Rightarrow>
   (device_pool_error + device_id) \<times> pool_view" where
  "view_access config lid d owner now_ms fresh g now v =
     (case v of (w, R, L) \<Rightarrow> view_gated d g v (\<lambda>r.
        let w' = max w now_ms in
        case (if fresh then ensure_healthy r now (health_validity config) else Inr ()) of
          Inl e \<Rightarrow> (Inl e, (w', R, L))
        | Inr _ \<Rightarrow>
            (case L d of
               None \<Rightarrow> (Inl PoolLeaseNotFound, (w', R, L))
             | Some l \<Rightarrow>
                 if lr_deadline l \<le> now then (Inl PoolLeaseExpired, (w', R, L(d := None)))
                 else if lease_of l \<noteq> lid \<or> owner_of l \<noteq> owner then (Inl PoolLeaseMismatch, (w', R, L))
                 else (Inr d, (w', R, L(d \<mapsto> renewed (now + lease_ttl config)
                        (saturating_add_u64 w' (pc_lease_ttl_ms config)) l))))))"

definition view_available ::
  "device_id \<Rightarrow> lease_owner_id \<Rightarrow> nat \<Rightarrow> gate \<Rightarrow> nat \<Rightarrow> pool_view \<Rightarrow>
   (device_pool_error + device_id) \<times> pool_view" where
  "view_available d owner now_ms g now v =
     (case v of (w, R, L) \<Rightarrow> view_gated d g v (\<lambda>r.
        let w' = max w now_ms; L' = drop_expired now d L in
        if (case L' d of Some l \<Rightarrow> owner_of l \<noteq> owner | None \<Rightarrow> False)
        then (Inl (PoolDeviceInUse d), (w', R, L')) else (Inr d, (w', R, L'))))"

definition view_release ::
  "lease_id \<Rightarrow> lease_owner_id \<Rightarrow> nat \<Rightarrow> device_id \<Rightarrow> gate \<Rightarrow> nat \<Rightarrow> pool_view \<Rightarrow>
   (device_pool_error + device_lease) \<times> pool_view" where
  "view_release lid owner now_ms d g now v =
     (case v of (w, R, L) \<Rightarrow> view_gated d g v (\<lambda>r.
        let w' = max w now_ms in
        case L d of
          None \<Rightarrow> (Inl PoolLeaseNotFound, (w', R, L))
        | Some l \<Rightarrow>
            if lr_deadline l \<le> now then (Inl PoolLeaseExpired, (w', R, L(d := None)))
            else if lease_of l \<noteq> lid \<or> owner_of l \<noteq> owner then (Inl PoolLeaseMismatch, (w', R, L))
            else (Inr (lr_value l), (w', R, L(d := None)))))"

definition view_record_health ::
  "device_registration_token \<Rightarrow> pool_health \<Rightarrow> nat \<Rightarrow> nat \<Rightarrow> pool_view \<Rightarrow>
   (device_pool_error + pool_health) \<times> pool_view" where
  "view_record_health tok health now_ms now v =
     (case v of (w, R, L) \<Rightarrow>
        case validate_health health of
          Inl e \<Rightarrow> (Inl e, v)
        | Inr _ \<Rightarrow> view_gated (rt_device_id tok) (rt_gate tok) v (\<lambda>r.
            let w' = max w now_ms;
                health' = (if ph_state health = PoolUnknown
                           then health\<lparr>ph_checked_at_ms := None, ph_code := None\<rparr>
                           else health\<lparr>ph_checked_at_ms := Some w'\<rparr>);
                checked = (if ph_state health = PoolUnknown then None else Some now)
            in (Inr health',
                (w', R(rt_device_id tok \<mapsto> r\<lparr>pr_health := health', pr_health_checked_at := checked\<rparr>), L))))"

text \<open>A run refines an abstract step: it returns the same result in a state with the same view.\<close>

definition refines :: "'a pool_run \<Rightarrow> (device_pool_error + 'a) \<times> pool_view \<Rightarrow> bool" where
  "refines run a \<longleftrightarrow>
     (case run of Returns res st \<Rightarrow> pool_inv st \<and> (res, pool_view st) = a | _ \<Rightarrow> False)"

subsection \<open>Refinement of the bodies\<close>

lemma ensure_current_gate_view:
  "ensure_current_gate st d g =
     (case registered st d of
        None \<Rightarrow> Inl (PoolDeviceNotFound d)
      | Some r \<Rightarrow> if pr_gate r \<noteq> g then Inl (PoolDeviceRegistrationChanged d) else Inr ())"
  by (cases "map_of (ps_devices st) d") (simp_all add: ensure_current_gate_def registered_def)

lemma ensure_healthy_lease [simp]: "ensure_healthy (r\<lparr>pr_lease := x\<rparr>) now validity = ensure_healthy r now validity"
  by (cases "pr_health_checked_at r") (simp_all add: ensure_healthy_def split: pool_health_state.split)

lemma registered_no_lease: "registered st d = Some r \<Longrightarrow> pr_lease r = None"
  by (auto simp: registered_def)

lemma pool_view_eqD:
  assumes "pool_view st = (w, R, L)"
  shows "ps_wall_high_water_ms st = w" "registered st = R" "leased st = L"
  using assms by (simp_all add: pool_view_def)

lemma advance_view:
  assumes "pool_inv st"
  obtains st' where "advance_wall_clock now_ms st = (max (ps_wall_high_water_ms st) now_ms, st')"
    "pool_inv st'" "pool_view st' = (max (ps_wall_high_water_ms st) now_ms, registered st, leased st)"
  using advance_wall_clock_spec [OF assms, of now_ms] by (auto simp: pool_view_def)

lemma expire_view:
  assumes "pool_inv st" "pool_view st = (w, R, L)"
  obtains st' where "snd (expire_lease d now st) = st'" "pool_inv st'"
    "pool_view st' = (w, R, drop_expired now d L)"
  using expire_lease_spec [OF assms(1), of d now] assms(2)
  by (auto simp: pool_view_def same_shell_def drop_expired_def)

lemma take_view:
  assumes "pool_inv st" "pool_view st = (w, R, L)"
  obtains st' where "take_lease d st = (L d, st')" "pool_inv st'" "pool_view st' = (w, R, L(d := None))"
  using take_lease_spec [OF assms(1), of d] assms(2) by (auto simp: pool_view_def same_shell_def)

lemma renew_view:
  assumes "pool_inv st" "pool_view st = (w, R, L)" "L d = Some l"
  obtains st' where "renew_lease d deadline expires st = (Some (lr_value (renewed deadline expires l)), st')"
    "pool_inv st'" "pool_view st' = (w, R, L(d \<mapsto> renewed deadline expires l))"
  using renew_lease_spec [OF assms(1), of d l deadline expires] assms(2,3)
  by (auto simp: pool_view_def same_shell_def renewed_def)

lemma view_device:
  assumes "pool_view st = (w, R, L)"
  shows "map_of (ps_devices st) d = map_option (\<lambda>r. r\<lparr>pr_lease := L d\<rparr>) (R d)"
  using device_record [of st d] assms by (simp add: pool_view_def)

lemma remove_devices_view:
  assumes "pool_inv st" "pool_view st = (w, R, L)" "L d = None"
  shows "pool_inv (st\<lparr>ps_devices := hm_remove d (ps_devices st)\<rparr>)"
    "pool_view (st\<lparr>ps_devices := hm_remove d (ps_devices st)\<rparr>) = (w, R(d := None), L)"
proof -
  have L: "leased (st\<lparr>ps_devices := hm_remove d (ps_devices st)\<rparr>) = L"
    using assms(2,3) by (auto simp: pool_view_def leased_def map_of_delete_fun fun_eq_iff)
  have R: "registered (st\<lparr>ps_devices := hm_remove d (ps_devices st)\<rparr>) = R(d := None)"
    using assms(2) by (auto simp: pool_view_def registered_def map_of_delete_fun fun_eq_iff)
  show "pool_view (st\<lparr>ps_devices := hm_remove d (ps_devices st)\<rparr>) = (w, R(d := None), L)"
    using L R assms(2) by (simp add: pool_view_def)
  show "pool_inv (st\<lparr>ps_devices := hm_remove d (ps_devices st)\<rparr>)"
    using assms(1,2) L R by (simp add: pool_inv_alt devices_ok_def pool_view_def bt_wf_remove)
qed

lemma insert_device_view:
  assumes "pool_inv st" "pool_view st = (w, R, L)" "pr_device_id r = d" "pr_lease r = L d"
  shows "pool_inv (st\<lparr>ps_devices := bt_insert d r (ps_devices st)\<rparr>)"
    "pool_view (st\<lparr>ps_devices := bt_insert d r (ps_devices st)\<rparr>) = (w, R(d \<mapsto> r\<lparr>pr_lease := None\<rparr>), L)"
proof -
  have L: "leased (st\<lparr>ps_devices := bt_insert d r (ps_devices st)\<rparr>) = L"
    using assms(2,4) by (auto simp: pool_view_def leased_def fun_eq_iff)
  have R: "registered (st\<lparr>ps_devices := bt_insert d r (ps_devices st)\<rparr>) = R(d \<mapsto> r\<lparr>pr_lease := None\<rparr>)"
    using assms(2) by (auto simp: pool_view_def registered_def fun_eq_iff)
  show "pool_view (st\<lparr>ps_devices := bt_insert d r (ps_devices st)\<rparr>) = (w, R(d \<mapsto> r\<lparr>pr_lease := None\<rparr>), L)"
    using L R assms(2) by (simp add: pool_view_def)
  show "pool_inv (st\<lparr>ps_devices := bt_insert d r (ps_devices st)\<rparr>)"
    using assms L R by (simp add: pool_inv_alt devices_ok_def pool_view_def bt_wf_insert)
qed

lemma register_refines:
  assumes "pool_inv st"
  shows "refines (register g d st) (view_register g d (pool_view st))"
proof (cases "trim_is_empty d \<or> registered st d \<noteq> None")
  case True
  then show ?thesis
    using assms by (auto simp: refines_def register_def view_register_def pool_view_def registered_def
        split: option.splits)
next
  case False
  then have none: "map_of (ps_devices st) d = None" "leased st d = None"
    by (simp_all add: registered_def leased_def)
  let ?r = "\<lparr>pr_device_id = d, pr_health = pool_health_unknown, pr_health_checked_at = None,
             pr_lease = None, pr_gate = g\<rparr>"
  show ?thesis
    using insert_device_view [OF assms, of _ _ _ ?r d] none False
    by (simp add: refines_def register_def view_register_def pool_view_def)
qed

lemma view_gated_reject:
  assumes "ensure_current_gate st d g = Inl e"
  shows "view_gated d g (ps_wall_high_water_ms st, registered st, leased st) f =
    (Inl e, ps_wall_high_water_ms st, registered st, leased st)"
  using assms by (auto simp: ensure_current_gate_view view_gated_def split: option.splits if_splits)

lemma view_gated_pass: "R d = Some r \<Longrightarrow> view_gated d (pr_gate r) (w, R, L) f = f r"
  by (simp add: view_gated_def)

lemma current_gate_pass:
  "ensure_current_gate st d g = Inr u \<Longrightarrow> \<exists>r. registered st d = Some r \<and> pr_gate r = g"
  by (auto simp: ensure_current_gate_view split: option.splits if_splits)

text \<open>The common start of the bodies: the gate check and the wall clock.\<close>

lemma body_start:
  assumes "pool_inv st"
  obtains (reject) e where "ensure_current_gate st d g = Inl e"
    | (enter) r st1 where "ensure_current_gate st d g = Inr ()" "registered st d = Some r" "pr_gate r = g"
      "advance_wall_clock now_ms st = (max (ps_wall_high_water_ms st) now_ms, st1)" "pool_inv st1"
      "pool_view st1 = (max (ps_wall_high_water_ms st) now_ms, registered st, leased st)"
proof (cases "ensure_current_gate st d g")
  case (Inl e)
  then show ?thesis by (rule reject)
next
  case (Inr u)
  then obtain r where "registered st d = Some r" "pr_gate r = g"
    using current_gate_pass by blast
  then show ?thesis
    using Inr by (auto intro: advance_view [OF assms, of now_ms] enter)
qed

lemma remove_refines:
  assumes "pool_inv st"
  shows "refines (remove_with_gate d now_ms g now st) (view_remove d now_ms g now (pool_view st))"
  using assms
proof (cases rule: body_start [where st = st and d = d and g = g and now_ms = now_ms])
  case (reject e)
  then show ?thesis
    using assms by (simp add: refines_def remove_with_gate_def view_remove_def pool_view_def view_gated_reject)
next
  case (enter r st1)
  obtain st2 where 2: "snd (expire_lease d now st1) = st2" "pool_inv st2"
    "pool_view st2 = (max (ps_wall_high_water_ms st) now_ms, registered st, drop_expired now d (leased st))"
    using expire_view [OF enter(5,6)] by blast
  show ?thesis
    using enter 2 view_device [OF 2(3), of d] remove_devices_view [OF 2(2,3), of d]
    by (auto simp: refines_def remove_with_gate_def view_remove_def pool_view_def view_gated_pass Let_def)
qed

lemma available_refines:
  assumes "pool_inv st"
  shows "refines (access_available_to_with_gate d owner now_ms g now st)
    (view_available d owner now_ms g now (pool_view st))"
  using assms
proof (cases rule: body_start [where st = st and d = d and g = g and now_ms = now_ms])
  case (reject e)
  then show ?thesis
    using assms
    by (simp add: refines_def access_available_to_with_gate_def view_available_def pool_view_def view_gated_reject)
next
  case (enter r st1)
  obtain st2 where 2: "snd (expire_lease d now st1) = st2" "pool_inv st2"
    "pool_view st2 = (max (ps_wall_high_water_ms st) now_ms, registered st, drop_expired now d (leased st))"
    using expire_view [OF enter(5,6)] by blast
  show ?thesis
    using enter 2 view_device [OF 2(3), of d]
    by (auto simp: refines_def access_available_to_with_gate_def view_available_def pool_view_def
        view_gated_pass Let_def)
qed

lemma release_refines:
  assumes "pool_inv st"
  shows "refines (release_with_gate lid owner now_ms d g now st)
    (view_release lid owner now_ms d g now (pool_view st))"
  using assms
proof (cases rule: body_start [where st = st and d = d and g = g and now_ms = now_ms])
  case (reject e)
  then show ?thesis
    using assms
    by (simp add: refines_def release_with_gate_def view_release_def pool_view_def view_gated_reject)
next
  case (enter r st1)
  obtain st2 where 2: "take_lease d st1 = (leased st d, st2)" "pool_inv st2"
    "pool_view st2 = (max (ps_wall_high_water_ms st) now_ms, registered st, (leased st)(d := None))"
    using take_view [OF enter(5,6)] by blast
  show ?thesis
    using enter 2 view_device [OF enter(6), of d]
    by (cases "leased st d")
      (auto simp: refines_def release_with_gate_def view_release_def pool_view_def view_gated_pass Let_def)
qed

lemma record_health_refines:
  assumes "pool_inv st"
  shows "refines (record_health tok health now_ms now st)
    (view_record_health tok health now_ms now (pool_view st))"
proof (cases "validate_health health")
  case (Inl e)
  then show ?thesis
    using assms by (simp add: refines_def record_health_def view_record_health_def pool_view_def)
next
  case valid: (Inr u)
  show ?thesis
    using assms
  proof (cases rule: body_start [where st = st and d = "rt_device_id tok" and g = "rt_gate tok" and now_ms = now_ms])
    case (reject e)
    then show ?thesis
      using assms valid
      by (simp add: refines_def record_health_def view_record_health_def pool_view_def view_gated_reject)
  next
    case (enter r st1)
    have "pr_lease r = None" "pr_device_id r = rt_device_id tok"
      using enter(2) assms by (auto simp: registered_no_lease pool_inv_alt devices_ok_def)
    then show ?thesis
      using enter valid view_device [OF enter(6), of "rt_device_id tok"]
        insert_device_view [OF enter(5,6), of "r\<lparr>pr_lease := leased st (rt_device_id tok), pr_health := h, pr_health_checked_at := c\<rparr>" "rt_device_id tok" for h c]
      by (cases r)
        (auto simp: refines_def record_health_def view_record_health_def pool_view_def view_gated_def Let_def)
  qed
qed

lemma access_refines:
  assumes "pool_inv st" and room: "now + lease_ttl config < INSTANT_LIMIT"
  shows "refines (access_with_lease_inner config lid d owner now_ms fresh g now st)
    (view_access config lid d owner now_ms fresh g now (pool_view st))"
  using assms(1)
proof (cases rule: body_start [where st = st and d = d and g = g and now_ms = now_ms])
  case (reject e)
  then show ?thesis
    using assms by (simp add: refines_def access_with_lease_inner_def instant_checked_add_def view_access_def
        pool_view_def view_gated_reject)
next
  case (enter r st1)
  let ?w = "max (ps_wall_high_water_ms st) now_ms"
  have dev: "map_of (ps_devices st1) d = Some (r\<lparr>pr_lease := leased st d\<rparr>)"
    using view_device [OF enter(6), of d] enter(2) by simp
  note start = enter(1-4) dev room
  show ?thesis
  proof (cases "leased st d")
    case None
    then show ?thesis
      using enter(5,6)
      by (auto simp: start refines_def access_with_lease_inner_def instant_checked_add_def view_access_def
          pool_view_def view_gated_def Let_def split: sum.split)
  next
    case (Some l)
    have own: "dl_device_id (lr_value l) = d"
      using Some assms(1) by (simp add: pool_inv_alt devices_ok_def)
    obtain st2 where 2: "take_lease d st1 = (leased st d, st2)" "pool_inv st2"
      "pool_view st2 = (?w, registered st, (leased st)(d := None))"
      using take_view [OF enter(5,6)] by blast
    let ?l = "renewed (now + lease_ttl config) (saturating_add_u64 ?w (pc_lease_ttl_ms config)) l"
    obtain st3 where 3: "renew_lease d (now + lease_ttl config)
        (saturating_add_u64 ?w (pc_lease_ttl_ms config)) st1 = (Some (lr_value ?l), st3)" "pool_inv st3"
      "pool_view st3 = (?w, registered st, (leased st)(d \<mapsto> ?l))"
      using renew_view [OF enter(5,6) Some] by blast
    show ?thesis
      using enter(5,6) 2(2,3) 3(2,3)
      by (auto simp: start Some own 2(1) 3(1) refines_def access_with_lease_inner_def
          instant_checked_add_def view_access_def pool_view_def view_gated_def Let_def split: sum.split)
  qed
qed

lemma install_view:
  assumes "pool_inv st" "pool_view st = (w, R, L)" "R d \<noteq> None" "L d = None"
    and "map_of (ps_lease_devices st) (lease_of l) = None" "dl_device_id (lr_value l) = d"
  obtains st' where "install_lease d l st = Some st'" "pool_inv st'" "pool_view st' = (w, R, L(d \<mapsto> l))"
  using install_lease_spec [OF assms(1), of d l] assms(2-) by (auto simp: pool_view_def same_shell_def)

lemma lease_unused:
  assumes "pool_inv st"
  shows "map_of (ps_lease_devices st) lid = None \<longleftrightarrow> lid \<notin> lease_of ` ran (leased st)"
proof -
  have "index_inv (leased st) (ps_lease_devices st) (ps_owner_leases st) (ps_lease_deadlines st)"
    using assms by (simp add: pool_inv_alt)
  from index_invD(2) [OF this, of lid]
  have "(\<exists>d. map_of (ps_lease_devices st) lid = Some d) \<longleftrightarrow> (\<exists>d l. leased st d = Some l \<and> lease_of l = lid)"
    by simp
  moreover have "lid \<in> lease_of ` ran (leased st) \<longleftrightarrow> (\<exists>d l. leased st d = Some l \<and> lease_of l = lid)"
    by (auto simp: ran_def)
  ultimately show ?thesis by (metis not_None_eq)
qed

text \<open>
  Acquiring draws a lease id only for a device without a lease, and takes the first drawn id that
  no lease has; when the draws hold none it is still drawing.
\<close>

definition first_unused :: "lease_id list \<Rightarrow> (device_id \<Rightarrow> lease_record option) \<Rightarrow> lease_id option" where
  "first_unused draws L = find (\<lambda>c. c \<notin> lease_of ` ran L) draws"

lemma acquire_refines:
  assumes "pool_inv st" and room: "now + lease_ttl config < INSTANT_LIMIT"
    and first: "first_unused draws (drop_expired now d (leased st)) = chosen"
  shows "refines (acquire_with_gate config draws d owner now_ms g now st)
      (view_acquire config (case chosen of Some lid \<Rightarrow> lid | None \<Rightarrow> any) d owner now_ms g now (pool_view st))
    \<or> chosen = None \<and> acquire_with_gate config draws d owner now_ms g now st = StillDrawing"
  using assms(1)
proof (cases rule: body_start [where st = st and d = d and g = g and now_ms = now_ms])
  case (reject e)
  then show ?thesis
    using assms by (simp add: refines_def acquire_with_gate_def instant_checked_add_def view_acquire_def
        pool_view_def view_gated_reject)
next
  case (enter r st1)
  let ?w = "max (ps_wall_high_water_ms st) now_ms" and ?L = "drop_expired now d (leased st)"
  let ?x = "saturating_add_u64 ?w (pc_lease_ttl_ms config)"
  obtain st2 where 2: "snd (expire_lease d now st1) = st2" "pool_inv st2"
    "pool_view st2 = (?w, registered st, ?L)"
    using expire_view [OF enter(5,6)] by blast
  have dev: "map_of (ps_devices st2) d = Some (r\<lparr>pr_lease := ?L d\<rparr>)"
    using view_device [OF 2(3), of d] enter(2) by simp
  have draw: "find (\<lambda>c. map_of (ps_lease_devices st2) c = None) draws = chosen"
    using lease_unused [OF 2(2)] first 2(3) by (simp add: first_unused_def pool_view_def)
  note start = enter(1-4) 2(1) dev room draw refines_def acquire_with_gate_def instant_checked_add_def
    view_acquire_def view_gated_def
  show ?thesis
  proof (cases "ensure_healthy r now (health_validity config)")
    case (Inl e)
    then show ?thesis using 2(2,3) by (simp add: start Let_def pool_view_def)
  next
    case healthy: (Inr u)
    show ?thesis
    proof (cases "?L d")
      case free: None
      show ?thesis
      proof (cases chosen)
        case None
        then show ?thesis using healthy free by (simp add: start Let_def)
      next
        case (Some lid)
        let ?l = "\<lparr>lr_value = \<lparr>dl_id = lid, dl_device_id = d, dl_owner_id = owner, dl_issued_at_ms = ?w,
          dl_expires_at_ms = ?x\<rparr>, lr_deadline = now + lease_ttl config\<rparr>"
        have unused: "map_of (ps_lease_devices st2) lid = None"
          using find_SomeD [OF draw [unfolded Some]] by simp
        obtain st3 where "install_lease d ?l st2 = Some st3" "pool_inv st3"
          "pool_view st3 = (?w, registered st, ?L(d \<mapsto> ?l))"
          using install_view [OF 2(2,3), of d ?l] free enter(2) unused by auto
        then show ?thesis
          using healthy free Some by (simp add: start Let_def pool_view_def)
      qed
    next
      case (Some l)
      obtain st3 where "renew_lease d (now + lease_ttl config) ?x st2 =
          (Some (lr_value (renewed (now + lease_ttl config) ?x l)), st3)" "pool_inv st3"
        "pool_view st3 = (?w, registered st, ?L(d \<mapsto> renewed (now + lease_ttl config) ?x l))"
        using renew_view [OF 2(2,3) Some] by blast
      then show ?thesis
        using healthy Some 2(2,3) by (simp add: start Let_def pool_view_def)
    qed
  qed
qed

subsection \<open>The loops of \<open>release_owner\<close>, \<open>release_all\<close> and \<open>reap_expired\<close>\<close>

text \<open>
  One iteration, on the abstract pool: nothing for a registration that changed, otherwise the
  lease of the target goes when \<open>P\<close> selects it and is reported when \<open>Q\<close> does.
\<close>

definition view_target ::
  "(lease_record \<Rightarrow> bool) \<Rightarrow> (lease_record \<Rightarrow> bool) \<Rightarrow> nat \<Rightarrow> device_id \<times> gate \<Rightarrow>
   device_lease list \<times> pool_view \<Rightarrow> device_lease list \<times> pool_view" where
  "view_target P Q now_ms target acc =
     (case (target, acc) of ((d, g), (released, (w, R, L))) \<Rightarrow>
        case R d of
          None \<Rightarrow> acc
        | Some r \<Rightarrow>
            if pr_gate r \<noteq> g then acc
            else
              (case L d of
                 Some l \<Rightarrow>
                   if P l then (if Q l then released @ [lr_value l] else released,
                                (max w now_ms, R, L(d := None)))
                   else (released, (max w now_ms, R, L))
               | None \<Rightarrow> (released, (max w now_ms, R, L))))"

definition refines_loop :: "device_lease list \<times> pool_state \<Rightarrow> device_lease list \<times> pool_view \<Rightarrow> bool" where
  "refines_loop acc a \<longleftrightarrow> pool_inv (snd acc) \<and> (fst acc, pool_view (snd acc)) = a"

lemma target_refines:
  assumes "pool_inv st"
  shows "refines_loop (release_owner_target owner now_ms now target (released, st))
      (view_target (\<lambda>l. owner_of l = owner) (\<lambda>l. lr_deadline l > now) now_ms target (released, pool_view st))"
    and "refines_loop (release_all_target now_ms target (released, st))
      (view_target (\<lambda>l. True) (\<lambda>l. True) now_ms target (released, pool_view st))"
    and "refines_loop (reap_expired_target now_ms now target (released, st))
      (view_target (\<lambda>l. lr_deadline l \<le> now) (\<lambda>l. True) now_ms target (released, pool_view st))"
proof -
  obtain d g where target: "target = (d, g)" by (cases target)
  let ?P = "\<lambda>f P Q. refines_loop f (view_target P Q now_ms target (released, pool_view st))"
  have all: "?P (release_owner_target owner now_ms now target (released, st))
        (\<lambda>l. owner_of l = owner) (\<lambda>l. lr_deadline l > now)
      \<and> ?P (release_all_target now_ms target (released, st)) (\<lambda>l. True) (\<lambda>l. True)
      \<and> ?P (reap_expired_target now_ms now target (released, st)) (\<lambda>l. lr_deadline l \<le> now) (\<lambda>l. True)"
    using assms
  proof (cases rule: body_start [where st = st and d = d and g = g and now_ms = now_ms])
    case (reject e)
    then show ?thesis
      using assms
      by (auto simp: target refines_loop_def release_owner_target_def release_all_target_def
          reap_expired_target_def view_target_def pool_view_def ensure_current_gate_view
          split: option.splits if_splits)
  next
    case (enter r st1)
    let ?w = "max (ps_wall_high_water_ms st) now_ms"
    obtain st2 where 2: "take_lease d st1 = (leased st d, st2)" "pool_inv st2"
      "pool_view st2 = (?w, registered st, (leased st)(d := None))"
      using take_view [OF enter(5,6)] by blast
    have b: "Option.bind (map_of (ps_devices st1) d) pr_lease = leased st d"
      using pool_view_eqD(3) [OF enter(6)] by (simp add: leased_def [symmetric])
    show ?thesis
      using enter(5,6) 2(2,3)
      by (cases "leased st d")
        (auto simp: target enter(1-4) b 2(1) refines_loop_def release_owner_target_def release_all_target_def
          reap_expired_target_def expire_lease_def view_target_def pool_view_def Let_def fun_upd_idem)
  qed
  then show "refines_loop (release_owner_target owner now_ms now target (released, st))
      (view_target (\<lambda>l. owner_of l = owner) (\<lambda>l. lr_deadline l > now) now_ms target (released, pool_view st))"
    and "refines_loop (release_all_target now_ms target (released, st))
      (view_target (\<lambda>l. True) (\<lambda>l. True) now_ms target (released, pool_view st))"
    and "refines_loop (reap_expired_target now_ms now target (released, st))
      (view_target (\<lambda>l. lr_deadline l \<le> now) (\<lambda>l. True) now_ms target (released, pool_view st))"
    by blast+
qed

end
