(* ===== verification/Pool_Loops.thy ===== *)
theory Pool_Loops
  imports Pool_Refinement
begin

text \<open>
  The three multi-device operations of the device pool, run without interference: they take the
  lease ids from an index, look up their devices, and visit them one by one. The lemmas give
  their closed form on the abstract pool.
\<close>

subsection \<open>Targets\<close>

abbreviation device_of :: "lease_record \<Rightarrow> device_id" where
  "device_of l \<equiv> dl_device_id (lr_value l)"

definition target_of :: "pool_state \<Rightarrow> lease_record \<Rightarrow> device_id \<times> gate" where
  "target_of st l = (device_of l, pr_gate (the (registered st (device_of l))))"

lemma pool_inv_index:
  "pool_inv st \<Longrightarrow> index_inv (leased st) (ps_lease_devices st) (ps_owner_leases st) (ps_lease_deadlines st)"
  by (simp add: pool_inv_alt)

lemma leased_device: "pool_inv st \<Longrightarrow> l \<in> ran (leased st) \<Longrightarrow> leased st (device_of l) = Some l"
  by (auto simp: ran_def pool_inv_alt devices_ok_def)

lemma lease_targets_of:
  assumes "pool_inv st" "set ls \<subseteq> ran (leased st)"
  shows "lease_targets st (map lease_of ls) = map (target_of st) ls"
  using assms(2)
proof (induction ls)
  case (Cons l ls)
  then have l: "leased st (device_of l) = Some l" using leased_device [OF assms(1)] by simp
  then obtain r where "registered st (device_of l) = Some r" using leased_registered by blast
  then show ?case
    using Cons index_inv_lookup [OF pool_inv_index [OF assms(1)] l]
    by (simp add: lease_targets_def List.map_filter_simps target_of_def device_record)
qed (simp add: lease_targets_def)

subsection \<open>The loop\<close>

lemma view_loop:
  assumes "distinct ls" "set ls \<subseteq> ran L" "\<And>d l. L d = Some l \<Longrightarrow> device_of l = d"
    and "\<And>l. l \<in> set ls \<Longrightarrow> P l" "\<And>l. l \<in> ran L \<Longrightarrow> R (device_of l) \<noteq> None"
  shows "fold (view_target P Q now_ms) (map (\<lambda>l. (device_of l, pr_gate (the (R (device_of l))))) ls)
      (released, (w, R, L)) =
    (released @ map lr_value (filter Q ls),
     (if ls = [] then w else max w now_ms, R,
      \<lambda>d. case L d of Some l \<Rightarrow> if l \<in> set ls then None else Some l | None \<Rightarrow> None))"
  using assms
proof (induction ls arbitrary: released w L)
  case Nil
  then show ?case by (auto simp: fun_eq_iff split: option.split)
next
  case (Cons l ls)
  define L' where "L' = L(device_of l := None)"
  have dev: "L (device_of k) = Some k" if "k \<in> ran L" for k
    using that Cons.prems(3) by (auto simp: ran_def)
  have l: "l \<in> ran L" "L (device_of l) = Some l" "P l" using Cons.prems dev by auto
  have sub: "ran L' \<subseteq> ran L" by (auto simp: L'_def ran_def)
  have rest: "set ls \<subseteq> ran L'"
  proof
    fix k assume "k \<in> set ls"
    then have "k \<noteq> l" "L (device_of k) = Some k" using Cons.prems dev by auto
    then show "k \<in> ran L'" using l(2) unfolding L'_def by (intro ranI [of _ "device_of k"]) auto
  qed
  have dev': "device_of k = d" if "L' d = Some k" for k d
    using that Cons.prems(3) by (auto simp: L'_def split: if_splits)
  have P: "\<And>k. k \<in> set ls \<Longrightarrow> P k" and R: "\<And>k. k \<in> ran L' \<Longrightarrow> R (device_of k) \<noteq> None"
    using Cons.prems(4,5) sub by auto
  have IH: "fold (view_target P Q now_ms) (map (\<lambda>l. (device_of l, pr_gate (the (R (device_of l))))) ls)
      (released @ (if Q l then [lr_value l] else []), (max w now_ms, R, L')) =
    ((released @ (if Q l then [lr_value l] else [])) @ map lr_value (filter Q ls),
     (max w now_ms, R, \<lambda>d. case L' d of Some k \<Rightarrow> if k \<in> set ls then None else Some k | None \<Rightarrow> None))"
    using Cons.IH [where L = L' and released = "released @ (if Q l then [lr_value l] else [])"
        and w = "max w now_ms", OF _ rest dev' P R] Cons.prems(1)
    by simp
  have first: "view_target P Q now_ms (device_of l, pr_gate (the (R (device_of l)))) (released, (w, R, L)) =
      (released @ (if Q l then [lr_value l] else []), (max w now_ms, R, L'))"
    using Cons.prems(5) [OF l(1)] l by (auto simp: view_target_def L'_def)
  have "(case L' d of Some k \<Rightarrow> if k \<in> set ls then None else Some k | None \<Rightarrow> None) =
      (case L d of Some k \<Rightarrow> if k \<in> set (l # ls) then None else Some k | None \<Rightarrow> None)" for d
  proof (cases "L d")
    case (Some k)
    then have k: "device_of k = d" using Cons.prems(3) by blast
    show ?thesis
    proof (cases "k = l")
      case True
      with k Some show ?thesis by (simp add: L'_def)
    next
      case False
      then have "d \<noteq> device_of l" using Some l(2) by auto
      with False Some show ?thesis by (simp add: L'_def)
    qed
  qed (simp add: L'_def)
  then show ?case by (simp add: first IH)
qed

lemma fold_refines:
  assumes "\<And>t released st. pool_inv st \<Longrightarrow> refines_loop (f t (released, st)) (h t (released, pool_view st))"
    and "pool_inv st"
  shows "refines_loop (fold f ts (released, st)) (fold h ts (released, pool_view st))"
  using assms(2)
proof (induction ts arbitrary: released st)
  case (Cons t ts)
  obtain released' st' where "f t (released, st) = (released', st')" by (cases "f t (released, st)")
  with assms(1) [OF Cons.prems, of t released] Cons.IH [of st' released'] show ?case
    by (simp add: refines_loop_def)
qed (simp add: refines_loop_def)

text \<open>What such an operation leaves and returns, for the list of the leases it takes.\<close>

definition takes_leases ::
  "lease_record list \<Rightarrow> (lease_record \<Rightarrow> bool) \<Rightarrow> pool_state \<Rightarrow> device_lease list \<times> pool_state \<Rightarrow> bool" where
  "takes_leases ls Q st result \<longleftrightarrow>
     fst result = map lr_value (filter Q ls) \<and> pool_inv (snd result)
     \<and> registered (snd result) = registered st
     \<and> leased (snd result) =
         (\<lambda>d. case leased st d of Some l \<Rightarrow> if l \<in> set ls then None else Some l | None \<Rightarrow> None)"

lemma loop_takes:
  assumes "pool_inv st" "distinct ls" "set ls \<subseteq> ran (leased st)" "\<And>l. l \<in> set ls \<Longrightarrow> P l"
    and "\<And>t released st. pool_inv st \<Longrightarrow>
      refines_loop (f t (released, st)) (view_target P Q now_ms t (released, pool_view st))"
  shows "takes_leases ls Q st (fold f (map (target_of st) ls) ([], st))"
proof -
  have "registered st (device_of l) \<noteq> None" if "l \<in> ran (leased st)" for l
    using leased_registered [OF leased_device [OF assms(1) that]] by auto
  with view_loop [of ls "leased st" P "registered st" Q now_ms "[]" "ps_wall_high_water_ms st"]
    assms(1) [unfolded pool_inv_alt devices_ok_def] assms(2-4)
  have "fold (view_target P Q now_ms) (map (target_of st) ls) ([], pool_view st) =
    (map lr_value (filter Q ls),
     (if ls = [] then ps_wall_high_water_ms st else max (ps_wall_high_water_ms st) now_ms, registered st,
      \<lambda>d. case leased st d of Some l \<Rightarrow> if l \<in> set ls then None else Some l | None \<Rightarrow> None))"
    by (auto simp: target_of_def [abs_def] pool_view_def)
  with fold_refines [where f = f and ts = "map (target_of st) ls" and released = "[]", OF assms(5,1)]
  show ?thesis
    by (auto simp: refines_loop_def takes_leases_def pool_view_def)
qed

subsection \<open>Closed forms\<close>

lemma lease_of_inj: "pool_inv st \<Longrightarrow> inj_on lease_of (ran (leased st))"
  by (intro inj_onI) (metis index_inv_unique_lease leased_device option.inject pool_inv_index)

lemma list_of_image:
  assumes "inj_on h A" "distinct ys" "set ys = h ` {x \<in> A. P x}"
  shows "\<exists>xs. map h xs = ys \<and> distinct xs \<and> set xs = {x \<in> A. P x}"
proof (intro exI conjI)
  have inj: "inj_on h {x \<in> A. P x}" using assms(1) by (rule inj_on_subset) auto
  let ?xs = "map (inv_into {x \<in> A. P x} h) ys"
  have "h (inv_into {x \<in> A. P x} h y) = y" if "y \<in> set ys" for y
    using that assms(3) by (intro f_inv_into_f) simp
  then show "map h ?xs = ys" by (simp add: map_idI)
  then show "distinct ?xs" using assms(2) by (metis distinct_map)
  show "set ?xs = {x \<in> A. P x}"
    unfolding set_map assms(3) by (simp add: image_image inv_into_f_f [OF inj] cong: image_cong_simp)
qed

text \<open>The three operations, each from the entries its index gives it.\<close>

lemma loop_from_index:
  assumes inv: "pool_inv st" and "inj_on h (ran (leased st))"
    and "distinct ids" "set ids = h ` {l \<in> ran (leased st). P l}"
    and targets: "targets = lease_targets st (map g ids)" and "\<And>l. g (h l) = lease_of l"
    and step: "\<And>t released st. pool_inv st \<Longrightarrow>
      refines_loop (f t (released, st)) (view_target P Q now_ms t (released, pool_view st))"
  shows "\<exists>ls. map h ls = ids \<and> set ls = {l \<in> ran (leased st). P l}
    \<and> takes_leases ls Q st (fold f targets ([], st))"
proof -
  obtain ls where ls: "map h ls = ids" "distinct ls" "set ls = {l \<in> ran (leased st). P l}"
    using list_of_image [OF assms(2-4)] by blast
  have "targets = lease_targets st (map lease_of ls)"
    using targets ls(1) assms(6) by (auto simp: comp_def)
  also have "\<dots> = map (target_of st) ls"
    using ls(3) by (intro lease_targets_of inv) auto
  finally have t: "targets = map (target_of st) ls" .
  have "takes_leases ls Q st (fold f (map (target_of st) ls) ([], st))"
    using ls(3) by (intro loop_takes [where P = P and f = f, OF inv ls(2) _ _ step]) auto
  then show ?thesis unfolding t using ls(1,3) by blast
qed

lemma release_owner_takes:
  assumes "pool_inv st"
  shows "\<exists>ls. sorted_wrt (<) (map lease_of ls) \<and> set ls = {l \<in> ran (leased st). owner_of l = owner}
    \<and> takes_leases ls (\<lambda>l. lr_deadline l > now) st (release_owner owner now_ms now st)"
proof -
  define ids where "ids = (case map_of (ps_owner_leases st) owner of Some ls \<Rightarrow> ls | None \<Rightarrow> [])"
  note D = index_invD [OF pool_inv_index [OF assms]]
  have sorted: "sorted_wrt (<) ids"
    using D(1) by (auto simp: ids_def index_wf_def split: option.split)
  have set: "set ids = lease_of ` {l \<in> ran (leased st). owner_of l = owner}"
    using D(3) [of owner] by (auto simp: ids_def owned_by_def split: option.splits)
  have targets: "release_owner_targets owner st = lease_targets st (map (\<lambda>x. x) ids)"
    by (simp add: release_owner_targets_def ids_def)
  have "distinct ids" using sorted by (simp add: strict_sorted_iff)
  have "\<exists>ls. map lease_of ls = ids \<and> set ls = {l \<in> ran (leased st). owner_of l = owner}
      \<and> takes_leases ls (\<lambda>l. lr_deadline l > now) st (release_owner owner now_ms now st)"
    unfolding release_owner_def
    by (rule loop_from_index [OF assms lease_of_inj [OF assms] \<open>distinct ids\<close> set targets refl target_refines(1)])
  then show ?thesis using sorted by auto
qed

lemma release_all_takes:
  assumes "pool_inv st"
  shows "\<exists>ls. sorted_wrt (<) (map lease_of ls) \<and> set ls = ran (leased st)
    \<and> takes_leases ls (\<lambda>l. True) st (release_all now_ms st)"
proof -
  define ids where "ids = map fst (ps_lease_devices st)"
  have sorted: "sorted_wrt (<) ids"
    using index_invD(1) [OF pool_inv_index [OF assms]] by (simp add: ids_def index_wf_def bt_wf_def)
  have "lid \<in> set ids \<longleftrightarrow> lid \<in> lease_of ` ran (leased st)" for lid
    using lease_unused [OF assms, of lid] by (simp add: ids_def map_of_eq_None_iff)
  then have set: "set ids = lease_of ` {l \<in> ran (leased st). True}" by auto
  have targets: "release_all_targets st = lease_targets st (map (\<lambda>x. x) ids)"
    by (simp add: release_all_targets_def ids_def)
  have "distinct ids" using sorted by (simp add: strict_sorted_iff)
  have "\<exists>ls. map lease_of ls = ids \<and> set ls = {l \<in> ran (leased st). True}
      \<and> takes_leases ls (\<lambda>l. True) st (release_all now_ms st)"
    unfolding release_all_def
    by (rule loop_from_index [OF assms lease_of_inj [OF assms] \<open>distinct ids\<close> set targets refl target_refines(2)])
  then show ?thesis using sorted by auto
qed

lemma takeWhile_due:
  "sorted_wrt (<) (xs :: (nat \<times> nat) list) \<Longrightarrow>
   takeWhile (\<lambda>(t, _). t \<le> now) xs = filter (\<lambda>(t, _). t \<le> now) xs"
proof (induction xs)
  case (Cons x xs)
  show ?case
  proof (cases "fst x \<le> now")
    case True
    with Cons show ?thesis by (simp add: case_prod_unfold)
  next
    case False
    with Cons.prems have "filter (\<lambda>(t, _). t \<le> now) xs = []"
      by (auto simp: filter_empty_conv less_prod_def case_prod_unfold)
    with False show ?thesis by (simp add: case_prod_unfold)
  qed
qed simp

lemma reap_expired_takes:
  assumes "pool_inv st"
  shows "\<exists>ls. sorted_wrt (<) (map (\<lambda>l. (lr_deadline l, lease_of l)) ls)
    \<and> set ls = {l \<in> ran (leased st). lr_deadline l \<le> now}
    \<and> takes_leases ls (\<lambda>l. True) st (reap_expired now_ms now st)"
proof -
  define due where "due = takeWhile (\<lambda>(deadline, _). deadline \<le> now) (ps_lease_deadlines st)"
  note D = index_invD [OF pool_inv_index [OF assms]]
  have dls: "sorted_wrt (<) (ps_lease_deadlines st)" using D(1) by (simp add: index_wf_def)
  then have sorted: "sorted_wrt (<) due"
    unfolding due_def takeWhile_due [OF dls] by (rule sorted_wrt_filter)
  have set: "set due = (\<lambda>l. (lr_deadline l, lease_of l)) ` {l \<in> ran (leased st). lr_deadline l \<le> now}"
    unfolding due_def takeWhile_due [OF dls] by (auto simp: D(4))
  have inj: "inj_on (\<lambda>l. (lr_deadline l, lease_of l)) (ran (leased st))"
    using lease_of_inj [OF assms] by (auto simp: inj_on_def)
  have targets: "reap_expired_targets now st = lease_targets st (map snd due)"
    by (simp add: reap_expired_targets_def due_def)
  have "distinct due" using sorted by (simp add: strict_sorted_iff)
  have "\<exists>ls. map (\<lambda>l. (lr_deadline l, lease_of l)) ls = due
      \<and> set ls = {l \<in> ran (leased st). lr_deadline l \<le> now}
      \<and> takes_leases ls (\<lambda>l. True) st (reap_expired now_ms now st)"
    unfolding reap_expired_def
    by (rule loop_from_index [OF assms inj \<open>distinct due\<close> set targets snd_conv target_refines(3)])
  then show ?thesis using sorted by auto
qed

end
