(* ===== verification/Device_Gates.thy ===== *)
theory Device_Gates
  imports Pool_Loops
begin

text \<open>
  The device pool under concurrency. An operation reads a device's gate, waits for it (shared for
  the two access operations, exclusive for removal, acquisition and release), and then runs its
  body under the state lock. A body is therefore one step; an exclusive body runs only while no
  access guard holds its gate. The gate and the instant an operation carries may be arbitrarily
  old, so both are free in the steps. \<open>sy_guards\<close> are the live \<open>DeviceAccessGuard\<close>s with the owner
  they were given to, and \<open>sy_issued\<close> the gates allocated so far.
\<close>

subsection \<open>The system and its steps\<close>

type_synonym access_guard = "gate \<times> device_id \<times> lease_owner_id"

record pool_system =
  sy_state :: pool_state
  sy_guards :: "access_guard list"
  sy_issued :: "gate set"

definition pool_system_initial :: pool_system where
  "pool_system_initial =
     \<lparr>sy_state = \<lparr>ps_wall_high_water_ms = 0, ps_devices = [], ps_lease_devices = [],
                 ps_owner_leases = [], ps_lease_deadlines = []\<rparr>,
      sy_guards = [], sy_issued = {}\<rparr>"

definition unguarded :: "pool_system \<Rightarrow> gate \<Rightarrow> bool" where
  "unguarded s g \<longleftrightarrow> list_all (\<lambda>(h, _, _). h \<noteq> g) (sy_guards s)"

definition grant :: "access_guard \<Rightarrow> device_pool_error + device_id \<Rightarrow> pool_state \<Rightarrow> pool_system \<Rightarrow> pool_system" where
  "grant guard res st s =
     s\<lparr>sy_state := st, sy_guards := (if is_ok res then guard # sy_guards s else sy_guards s)\<rparr>"

inductive pool_step :: "device_pool_config \<Rightarrow> pool_system \<Rightarrow> pool_system \<Rightarrow> bool" for config where
  pool_register: "g \<notin> sy_issued s \<Longrightarrow> register g d (sy_state s) = Returns res st \<Longrightarrow>
    pool_step config s (s\<lparr>sy_state := st, sy_issued := insert g (sy_issued s)\<rparr>)"
| pool_remove: "unguarded s g \<Longrightarrow> remove_with_gate d now_ms g now (sy_state s) = Returns res st \<Longrightarrow>
    pool_step config s (s\<lparr>sy_state := st\<rparr>)"
| pool_health: "record_health tok health now_ms now (sy_state s) = Returns res st \<Longrightarrow>
    pool_step config s (s\<lparr>sy_state := st\<rparr>)"
| pool_acquire: "unguarded s g \<Longrightarrow>
    acquire_with_gate config draws d owner now_ms g now (sy_state s) = Returns res st \<Longrightarrow>
    pool_step config s (s\<lparr>sy_state := st\<rparr>)"
| pool_access: "access_with_lease_inner config lid d owner now_ms fresh g now (sy_state s) = Returns res st \<Longrightarrow>
    pool_step config s (grant (g, d, owner) res st s)"
| pool_available: "access_available_to_with_gate d owner now_ms g now (sy_state s) = Returns res st \<Longrightarrow>
    pool_step config s (grant (g, d, owner) res st s)"
| pool_drop: "pool_step config s (s\<lparr>sy_guards := remove1 guard (sy_guards s)\<rparr>)"
| pool_release: "unguarded s g \<Longrightarrow>
    release_with_gate lid owner now_ms d g now (sy_state s) = Returns res st \<Longrightarrow>
    pool_step config s (s\<lparr>sy_state := st\<rparr>)"
| pool_release_owner: "unguarded s g \<Longrightarrow>
    release_owner_target owner now_ms now (d, g) (released, sy_state s) = (released', st) \<Longrightarrow>
    pool_step config s (s\<lparr>sy_state := st\<rparr>)"
| pool_release_all: "unguarded s g \<Longrightarrow>
    release_all_target now_ms (d, g) (released, sy_state s) = (released', st) \<Longrightarrow>
    pool_step config s (s\<lparr>sy_state := st\<rparr>)"
| pool_reap: "unguarded s g \<Longrightarrow>
    reap_expired_target now_ms now (d, g) (released, sy_state s) = (released', st) \<Longrightarrow>
    pool_step config s (s\<lparr>sy_state := st\<rparr>)"
| pool_list: "pool_entries now_ms now (sy_state s) = (entries, st) \<Longrightarrow>
    pool_step config s (s\<lparr>sy_state := st\<rparr>)"

abbreviation pool_steps :: "device_pool_config \<Rightarrow> pool_system \<Rightarrow> pool_system \<Rightarrow> bool" where
  "pool_steps config \<equiv> (pool_step config)\<^sup>*\<^sup>*"

abbreviation pool_reachable :: "device_pool_config \<Rightarrow> pool_system \<Rightarrow> bool" where
  "pool_reachable config s \<equiv> pool_steps config pool_system_initial s"

inductive_cases pool_stepE: "pool_step config s s'"

subsection \<open>What a step does to the abstract pool\<close>

text \<open>
  \<open>guard_ok\<close>: the guarded registration is the current one and no other owner has its lease.
  \<open>gate_moves v v' d g\<close>: only the device \<open>d\<close> may have changed, and only if its gate is \<open>g\<close>.
\<close>

definition guard_ok :: "pool_view \<Rightarrow> access_guard \<Rightarrow> bool" where
  "guard_ok v guard =
     (case (v, guard) of ((w, R, L), (g, d, owner)) \<Rightarrow>
        (\<exists>r. R d = Some r \<and> pr_gate r = g) \<and> (\<forall>l. L d = Some l \<longrightarrow> owner_of l = owner))"

definition current :: "pool_view \<Rightarrow> device_id \<Rightarrow> gate \<Rightarrow> bool" where
  "current v d g \<longleftrightarrow> (\<exists>r. fst (snd v) d = Some r \<and> pr_gate r = g)"

definition gate_moves :: "pool_view \<Rightarrow> pool_view \<Rightarrow> device_id \<Rightarrow> gate \<Rightarrow> bool" where
  "gate_moves v v' d g \<longleftrightarrow>
     (\<forall>e. e \<noteq> d \<or> \<not> current v d g \<longrightarrow>
        fst (snd v') e = fst (snd v) e \<and> snd (snd v') e = snd (snd v) e)
     \<and> (\<forall>r. fst (snd v') d = Some r \<longrightarrow> (\<exists>q. fst (snd v) d = Some q \<and> pr_gate q = pr_gate r))"

lemma gate_moves_refl: "gate_moves v v d g"
  by (simp add: gate_moves_def)

lemma gate_moves_guard: "gate_moves v v' d g \<Longrightarrow> guard_ok v (h, e, owner) \<Longrightarrow> h \<noteq> g \<Longrightarrow> guard_ok v' (h, e, owner)"
proof -
  assume moves: "gate_moves v v' d g" and ok: "guard_ok v (h, e, owner)" and "h \<noteq> g"
  from ok obtain r where r: "fst (snd v) e = Some r" "pr_gate r = h"
    by (cases v) (auto simp: guard_ok_def)
  with \<open>h \<noteq> g\<close> have "e \<noteq> d \<or> \<not> current v d g" by (auto simp: current_def)
  with moves have "fst (snd v') e = fst (snd v) e" "snd (snd v') e = snd (snd v) e"
    unfolding gate_moves_def by blast+
  with ok show ?thesis by (cases v; cases v') (simp add: guard_ok_def)
qed

lemma gate_moves_current: "gate_moves v v' d g \<Longrightarrow> current v' e h \<Longrightarrow> current v e h"
  by (cases "e = d") (auto simp: gate_moves_def current_def)

lemmas view_defs = view_gated_def view_remove_def view_acquire_def view_access_def view_available_def
  view_release_def view_target_def drop_expired_def Let_def

definition only_at :: "device_id \<Rightarrow> pool_view \<Rightarrow> pool_view \<Rightarrow> bool" where
  "only_at d v v' \<longleftrightarrow>
     (\<exists>x. snd (snd v') = (snd (snd v))(d := x))
     \<and> (fst (snd v') = fst (snd v) \<or> fst (snd v') = (fst (snd v))(d := None))"

lemma only_at_simps [simp]:
  "only_at d (w, R, L) (w', R', L(d := x)) \<longleftrightarrow> R' = R \<or> R' = R(d := None)"
  "only_at d (w, R, L) (w', R', L) \<longleftrightarrow> R' = R \<or> R' = R(d := None)"
proof -
  have "\<exists>x. L = L(d := x)" by (rule exI [of _ "L d"]) simp
  then show "only_at d (w, R, L) (w', R', L) \<longleftrightarrow> R' = R \<or> R' = R(d := None)"
    by (simp add: only_at_def)
qed (auto simp: only_at_def)

lemma only_at_moves: "only_at d v v' \<Longrightarrow> current v d g \<Longrightarrow> gate_moves v v' d g"
  by (auto simp: only_at_def gate_moves_def)

lemma view_gated_moves:
  assumes "\<And>r. only_at d v (snd (f r))"
  shows "gate_moves v (snd (view_gated d g v f)) d g"
  using assms only_at_moves [of d v _ g]
  by (auto simp: view_gated_def gate_moves_refl current_def split: option.split)

lemma writer_moves:
  "gate_moves v (snd (view_remove d now_ms g now v)) d g"
  "gate_moves v (snd (view_acquire config lid d owner now_ms g now v)) d g"
  "gate_moves v (snd (view_release lid owner now_ms d g now v)) d g"
proof -
  obtain w R L where v: "v = (w, R, L)" by (cases v)
  show "gate_moves v (snd (view_remove d now_ms g now v)) d g"
    unfolding v view_remove_def prod.case by (rule view_gated_moves) (simp add: drop_expired_def Let_def)
  show "gate_moves v (snd (view_acquire config lid d owner now_ms g now v)) d g"
    unfolding v view_acquire_def prod.case
    by (rule view_gated_moves) (simp add: drop_expired_def Let_def split: sum.split option.split)
  show "gate_moves v (snd (view_release lid owner now_ms d g now v)) d g"
    unfolding v view_release_def prod.case
    by (rule view_gated_moves) (simp add: Let_def split: option.split)
qed

lemma target_moves: "gate_moves v (snd (view_target P Q now_ms (d, g) (released, v))) d g"
proof -
  obtain w R L where v: "v = (w, R, L)" by (cases v)
  show ?thesis
  proof (cases "current v d g")
    case True
    then show ?thesis
      by (intro only_at_moves) (auto simp: v view_target_def current_def split: option.split)
  next
    case False
    then have "view_target P Q now_ms (d, g) (released, v) = (released, v)"
      by (auto simp: v view_target_def current_def split: option.split)
    then show ?thesis by (simp add: gate_moves_refl)
  qed
qed

text \<open>The shared operations keep every registration and either keep, renew or drop a lease.\<close>

definition only_drops :: "pool_view \<Rightarrow> pool_view \<Rightarrow> bool" where
  "only_drops v v' \<longleftrightarrow>
     fst (snd v') = fst (snd v)
     \<and> (\<forall>e l'. snd (snd v') e = Some l' \<longrightarrow> (\<exists>l. snd (snd v) e = Some l \<and> owner_of l = owner_of l'))"

lemma only_drops_guard: "only_drops v v' \<Longrightarrow> guard_ok v guard \<Longrightarrow> guard_ok v' guard"
  by (cases v; cases v'; cases guard) (fastforce simp: only_drops_def guard_ok_def)

lemma only_drops_current: "only_drops v v' \<Longrightarrow> current v' e h \<longleftrightarrow> current v e h"
  by (simp add: only_drops_def current_def)

lemma reader_only_drops:
  "only_drops v (snd (view_access config lid d owner now_ms fresh g now v))"
  "only_drops v (snd (view_available d owner now_ms g now v))"
  by (cases v; simp add: view_defs only_drops_def renewed_def split: option.split sum.split)+

lemma view_gated_ok:
  assumes "is_ok (fst (view_gated d g (w, R, L) f))"
  obtains r where "R d = Some r" "pr_gate r = g" "view_gated d g (w, R, L) f = f r"
  using assms by (cases "R d") (auto simp: view_gated_def split: if_splits)

lemma reader_grants:
  "is_ok (fst (view_access config lid d owner now_ms fresh g now v)) \<Longrightarrow>
   guard_ok (snd (view_access config lid d owner now_ms fresh g now v)) (g, d, owner)"
  "is_ok (fst (view_available d owner now_ms g now v)) \<Longrightarrow>
   guard_ok (snd (view_available d owner now_ms g now v)) (g, d, owner)"
proof -
  obtain w R L where v: "v = (w, R, L)" by (cases v)
  show "guard_ok (snd (view_access config lid d owner now_ms fresh g now v)) (g, d, owner)"
    if ok: "is_ok (fst (view_access config lid d owner now_ms fresh g now v))"
  proof -
    note ok' = ok [unfolded v view_access_def prod.case]
    from ok' obtain r where r: "R d = Some r" "pr_gate r = g" by (rule view_gated_ok)
    let ?h = "if fresh then ensure_healthy r now (health_validity config) else Inr ()"
    have "is_ok ?h" using ok' r by (cases ?h) (simp_all add: view_gated_def Let_def)
    then obtain u where h: "?h = Inr u" by (auto simp: is_ok_iff)
    show ?thesis
      using ok r h by (cases "L d")
        (auto simp: v view_access_def view_gated_def Let_def guard_ok_def renewed_def split: if_splits)
  qed
  show "guard_ok (snd (view_available d owner now_ms g now v)) (g, d, owner)"
    if ok: "is_ok (fst (view_available d owner now_ms g now v))"
  proof -
    note ok' = ok [unfolded v view_available_def prod.case]
    from ok' obtain r where r: "R d = Some r" "pr_gate r = g" by (rule view_gated_ok)
    show ?thesis
      using ok r by (cases "drop_expired now d L d")
        (auto simp: v view_available_def view_gated_def Let_def guard_ok_def split: if_splits)
  qed
qed

lemma health_keeps:
  "guard_ok v guard \<Longrightarrow> guard_ok (snd (view_record_health tok health now_ms now v)) guard"
  "current (snd (view_record_health tok health now_ms now v)) e h \<longleftrightarrow> current v e h"
proof -
  obtain w R L g d owner where v: "v = (w, R, L)" and guard: "guard = (g, d, owner)"
    by (cases v; cases guard)
  show "guard_ok (snd (view_record_health tok health now_ms now v)) guard" if "guard_ok v guard"
    using that by (cases "validate_health health"; cases "R (rt_device_id tok)")
      (auto simp: v guard view_record_health_def view_gated_def guard_ok_def Let_def)
  show "current (snd (view_record_health tok health now_ms now v)) e h \<longleftrightarrow> current v e h"
    by (cases "validate_health health"; cases "R (rt_device_id tok)")
      (auto simp: v view_record_health_def view_gated_def current_def Let_def)
qed

lemma register_keeps:
  "guard_ok v guard \<Longrightarrow> guard_ok (snd (view_register g d v)) guard"
  "current (snd (view_register g d v)) e h \<Longrightarrow> current v e h \<or> h = g"
  by (cases v; cases guard; auto simp: view_register_def guard_ok_def current_def split: if_splits)+

subsection \<open>The invariant of the system\<close>

abbreviation sys_view :: "pool_system \<Rightarrow> pool_view" where
  "sys_view s \<equiv> pool_view (sy_state s)"

definition sys_inv :: "pool_system \<Rightarrow> bool" where
  "sys_inv s \<longleftrightarrow>
     pool_inv (sy_state s) \<and> (\<forall>guard \<in> set (sy_guards s). guard_ok (sys_view s) guard)
     \<and> (\<forall>d g. current (sys_view s) d g \<longrightarrow> g \<in> sy_issued s)"

lemma refinesD:
  "refines run a \<Longrightarrow> run = Returns res st \<Longrightarrow> pool_inv st \<and> res = fst a \<and> pool_view st = snd a"
  by (auto simp: refines_def)

lemma unguardedD: "unguarded s g \<Longrightarrow> (h, e, owner) \<in> set (sy_guards s) \<Longrightarrow> h \<noteq> g"
  by (auto simp: unguarded_def list_all_iff)

text \<open>
  The effect of a step: the invariant of the pool is kept, no gate becomes current but a new one,
  and every guard that is live afterwards is honoured.
\<close>

definition good_step :: "pool_system \<Rightarrow> pool_system \<Rightarrow> bool" where
  "good_step s s' \<longleftrightarrow>
     sys_inv s' \<and> sy_issued s \<subseteq> sy_issued s'
     \<and> (\<forall>d g. current (sys_view s') d g \<longrightarrow> current (sys_view s) d g \<or> g \<notin> sy_issued s)"

lemma good_step_same: "sys_inv s \<Longrightarrow> good_step s s"
  by (simp add: good_step_def)

lemma writer_effect:
  assumes "sys_inv s" "unguarded s g" "pool_inv st" "gate_moves (sys_view s) (pool_view st) d g"
  shows "good_step s (s\<lparr>sy_state := st\<rparr>)"
proof -
  have current: "current (pool_view st) e h \<Longrightarrow> current (sys_view s) e h" for e h
    by (rule gate_moves_current [OF assms(4)])
  have "sys_inv (s\<lparr>sy_state := st\<rparr>)"
    unfolding sys_inv_def
  proof (intro conjI ballI allI impI)
    show "pool_inv (sy_state (s\<lparr>sy_state := st\<rparr>))" using assms(3) by simp
    show "guard_ok (sys_view (s\<lparr>sy_state := st\<rparr>)) guard"
      if "guard \<in> set (sy_guards (s\<lparr>sy_state := st\<rparr>))" for guard
    proof -
      obtain h e owner where guard: "guard = (h, e, owner)" by (cases guard)
      then have "h \<noteq> g" "guard_ok (sys_view s) (h, e, owner)"
        using that assms(1) unguardedD [OF assms(2)] by (auto simp: sys_inv_def)
      then show ?thesis using gate_moves_guard [OF assms(4)] guard by simp
    qed
    show "h \<in> sy_issued (s\<lparr>sy_state := st\<rparr>)" if "current (sys_view (s\<lparr>sy_state := st\<rparr>)) e h" for e h
      using assms(1) current [of e h] that unfolding sys_inv_def by auto
  qed
  then show ?thesis using current by (auto simp: good_step_def)
qed

lemma reader_effect:
  assumes "sys_inv s" "pool_inv st" "only_drops (sys_view s) (pool_view st)"
    and "is_ok res \<Longrightarrow> guard_ok (pool_view st) guard"
  shows "good_step s (grant guard res st s)"
  using assms only_drops_guard [OF assms(3)] only_drops_current [OF assms(3)]
  by (auto simp: good_step_def sys_inv_def grant_def)

lemma access_out_of_range:
  assumes "\<not> now + lease_ttl config < INSTANT_LIMIT"
  shows "access_with_lease_inner config lid d owner now_ms fresh g now st = Returns (Inl PoolInvalidConfiguration) st"
    and "acquire_with_gate config draws d owner now_ms g now st = Returns (Inl PoolInvalidConfiguration) st"
  using assms by (simp_all add: access_with_lease_inner_def acquire_with_gate_def instant_checked_add_def)

lemma access_effect:
  assumes "sys_inv s" "access_with_lease_inner config lid d owner now_ms fresh g now (sy_state s) = Returns res st"
  shows "good_step s (grant (g, d, owner) res st s)"
proof (cases "now + lease_ttl config < INSTANT_LIMIT")
  case True
  have "pool_inv (sy_state s)" using assms(1) by (simp add: sys_inv_def)
  from refinesD [OF access_refines [OF this True] assms(2)] show ?thesis
    using reader_only_drops(1) reader_grants(1) by (intro reader_effect assms(1)) simp_all
next
  case False
  then have "res = Inl PoolInvalidConfiguration" "st = sy_state s"
    using assms(2) access_out_of_range(1) [OF False] by auto
  then show ?thesis using assms(1) by (simp add: grant_def good_step_same)
qed

lemma acquire_effect:
  assumes "sys_inv s" "unguarded s g"
    and "acquire_with_gate config draws d owner now_ms g now (sy_state s) = Returns res st"
  shows "good_step s (s\<lparr>sy_state := st\<rparr>)"
proof (cases "now + lease_ttl config < INSTANT_LIMIT")
  case True
  have inv: "pool_inv (sy_state s)" using assms(1) by (simp add: sys_inv_def)
  obtain lid where "refines (acquire_with_gate config draws d owner now_ms g now (sy_state s))
      (view_acquire config lid d owner now_ms g now (sys_view s))"
    using acquire_refines [OF inv True refl, of draws d owner now_ms g 0] assms(3) by auto
  from refinesD [OF this assms(3)] show ?thesis
    using writer_moves(2) by (intro writer_effect [OF assms(1,2)]) simp_all
next
  case False
  then have "st = sy_state s" using assms(3) access_out_of_range(2) [OF False] by auto
  then show ?thesis using assms(1) by (simp add: good_step_same)
qed

lemma register_effect:
  assumes "sys_inv s" "g \<notin> sy_issued s" "register g d (sy_state s) = Returns res st"
  shows "good_step s (s\<lparr>sy_state := st, sy_issued := insert g (sy_issued s)\<rparr>)"
proof -
  have "pool_inv (sy_state s)" using assms(1) by (simp add: sys_inv_def)
  from refinesD [OF register_refines [OF this] assms(3)]
  have "pool_inv st" "pool_view st = snd (view_register g d (sys_view s))" by auto
  then show ?thesis
    using assms(1,2)
    by (auto simp: good_step_def sys_inv_def intro: register_keeps(1) dest!: register_keeps(2))
qed

lemma target_effect:
  assumes "sys_inv s" "unguarded s g"
    and "refines_loop (released', st) (view_target P Q now_ms (d, g) (released, sys_view s))"
  shows "good_step s (s\<lparr>sy_state := st\<rparr>)"
proof (rule writer_effect [OF assms(1,2)])
  show "pool_inv st" using assms(3) by (simp add: refines_loop_def)
  have "pool_view st = snd (view_target P Q now_ms (d, g) (released, sys_view s))"
    using assms(3) unfolding refines_loop_def by (metis snd_conv)
  then show "gate_moves (sys_view s) (pool_view st) d g" using target_moves by simp
qed

lemma health_effect:
  assumes "sys_inv s" "record_health tok health now_ms now (sy_state s) = Returns res st"
  shows "good_step s (s\<lparr>sy_state := st\<rparr>)"
proof -
  have "pool_inv (sy_state s)" using assms(1) by (simp add: sys_inv_def)
  from refinesD [OF record_health_refines [OF this] assms(2)]
  have "pool_inv st" "pool_view st = snd (view_record_health tok health now_ms now (sys_view s))" by auto
  then show ?thesis using assms(1) by (simp add: good_step_def sys_inv_def health_keeps)
qed

lemma list_effect:
  assumes "sys_inv s" "pool_entries now_ms now (sy_state s) = (entries, st)"
  shows "good_step s (s\<lparr>sy_state := st\<rparr>)"
proof -
  have "pool_inv (sy_state s)" using assms(1) by (simp add: sys_inv_def)
  from advance_wall_clock_spec [OF this, of now_ms] assms(2)
  have "pool_inv st" "registered st = registered (sy_state s)" "leased st = leased (sy_state s)"
    by (auto simp: pool_entries_def Let_def)
  then show ?thesis
    using assms(1) by (auto simp: good_step_def sys_inv_def pool_view_def guard_ok_def current_def)
qed

lemma sys_inv_pool: "sys_inv s \<Longrightarrow> pool_inv (sy_state s)"
  by (simp add: sys_inv_def)

lemma remove_effect:
  assumes "sys_inv s" "unguarded s g" "remove_with_gate d now_ms g now (sy_state s) = Returns res st"
  shows "good_step s (s\<lparr>sy_state := st\<rparr>)"
  using refinesD [OF remove_refines [OF sys_inv_pool [OF assms(1)]] assms(3)] writer_moves(1)
  by (intro writer_effect [OF assms(1,2)]) simp_all

lemma release_effect:
  assumes "sys_inv s" "unguarded s g" "release_with_gate lid owner now_ms d g now (sy_state s) = Returns res st"
  shows "good_step s (s\<lparr>sy_state := st\<rparr>)"
  using refinesD [OF release_refines [OF sys_inv_pool [OF assms(1)]] assms(3)] writer_moves(3)
  by (intro writer_effect [OF assms(1,2)]) simp_all

lemma available_effect:
  assumes "sys_inv s" "access_available_to_with_gate d owner now_ms g now (sy_state s) = Returns res st"
  shows "good_step s (grant (g, d, owner) res st s)"
  using refinesD [OF available_refines [OF sys_inv_pool [OF assms(1)]] assms(2)]
    reader_only_drops(2) reader_grants(2)
  by (intro reader_effect assms(1)) simp_all

lemma drop_effect: "sys_inv s \<Longrightarrow> good_step s (s\<lparr>sy_guards := remove1 guard (sy_guards s)\<rparr>)"
  using notin_set_remove1 by (auto simp: sys_inv_def good_step_def)

lemma pool_step_good:
  assumes "pool_step config s s'" "sys_inv s"
  shows "good_step s s'"
  using assms
proof (cases rule: pool_step.cases)
  case (pool_release_owner g owner now_ms now d released released' st)
  then show ?thesis
    using target_refines(1) [OF sys_inv_pool [OF assms(2)], of owner now_ms now "(d, g)" released] assms(2)
    by (auto intro: target_effect)
next
  case (pool_release_all g now_ms d released released' st)
  then show ?thesis
    using target_refines(2) [OF sys_inv_pool [OF assms(2)], of now_ms "(d, g)" released] assms(2)
    by (auto intro: target_effect)
next
  case (pool_reap g now_ms now d released released' st)
  then show ?thesis
    using target_refines(3) [OF sys_inv_pool [OF assms(2)], of now_ms now "(d, g)" released] assms(2)
    by (auto intro: target_effect)
qed (use assms(2) in \<open>auto intro: register_effect remove_effect health_effect acquire_effect
      access_effect available_effect drop_effect release_effect list_effect\<close>)

lemma sys_inv_initial: "sys_inv pool_system_initial"
  by (simp add: sys_inv_def pool_system_initial_def pool_inv_alt devices_ok_def bt_wf_def index_inv_def
      index_wf_def owned_by_def leased_def registered_def current_def pool_view_def ran_def)

lemma sys_inv_reachable: "pool_reachable config s \<Longrightarrow> sys_inv s"
  by (induction rule: rtranclp_induct) (auto simp: good_step_def intro: sys_inv_initial dest: pool_step_good)

lemma stale_gate_stays:
  assumes "pool_steps config s s'" "sys_inv s" "g \<in> sy_issued s" "\<not> current (sys_view s) d g"
  shows "sys_inv s' \<and> g \<in> sy_issued s' \<and> \<not> current (sys_view s') d g"
  using assms
proof (induction rule: rtranclp_induct)
  case (step s' s'')
  with pool_step_good [of config s' s''] show ?case by (auto simp: good_step_def)
qed simp

lemma stale_record_health:
  assumes "\<not> current (pool_view st) d g"
  shows "\<exists>e. record_health \<lparr>rt_device_id = d, rt_gate = g\<rparr> health now_ms now st = Returns (Inl e) st"
proof -
  obtain e where "ensure_current_gate st d g = Inl e"
    using assms by (cases "registered st d") (auto simp: current_def pool_view_def ensure_current_gate_view)
  then show ?thesis by (cases "validate_health health") (simp_all add: record_health_def)
qed

end
