(* ===== verification/Pool_Properties.thy ===== *)
theory Pool_Properties
  imports Device_Gates
begin

text \<open>
  What the device pool guarantees its clients, with a concrete run of one device: it is
  registered, probed, leased by owner 1 and accessed by them.
\<close>

subsection \<open>An example run\<close>

definition ex_config :: device_pool_config where
  "ex_config = \<lparr>pc_lease_ttl_ms = 300000, pc_health_validity_ms = 30000\<rparr>"

definition ex_lease :: device_lease where
  "ex_lease = \<lparr>dl_id = 7, dl_device_id = ''d'', dl_owner_id = 1, dl_issued_at_ms = 5, dl_expires_at_ms = 300005\<rparr>"

definition ex_record :: "lease_record option \<Rightarrow> pool_record" where
  "ex_record lease =
     \<lparr>pr_device_id = ''d'', pr_health = pool_health_healthy 5, pr_health_checked_at = Some 10,
      pr_lease = lease, pr_gate = 0\<rparr>"

definition ex_registered :: pool_system where
  "ex_registered =
     \<lparr>sy_state = \<lparr>ps_wall_high_water_ms = 0,
        ps_devices = [(''d'', \<lparr>pr_device_id = ''d'', pr_health = pool_health_unknown,
                              pr_health_checked_at = None, pr_lease = None, pr_gate = 0\<rparr>)],
        ps_lease_devices = [], ps_owner_leases = [], ps_lease_deadlines = []\<rparr>,
      sy_guards = [], sy_issued = {0}\<rparr>"

definition ex_probed :: pool_system where
  "ex_probed =
     \<lparr>sy_state = \<lparr>ps_wall_high_water_ms = 5, ps_devices = [(''d'', ex_record None)],
        ps_lease_devices = [], ps_owner_leases = [], ps_lease_deadlines = []\<rparr>,
      sy_guards = [], sy_issued = {0}\<rparr>"

definition ex_leased :: "nat \<Rightarrow> access_guard list \<Rightarrow> pool_system" where
  "ex_leased deadline guards =
     \<lparr>sy_state = \<lparr>ps_wall_high_water_ms = 5,
        ps_devices = [(''d'', ex_record (Some \<lparr>lr_value = ex_lease, lr_deadline = deadline\<rparr>))],
        ps_lease_devices = [(7, ''d'')], ps_owner_leases = [(1, [7])],
        ps_lease_deadlines = [(deadline, 7)]\<rparr>,
      sy_guards = guards, sy_issued = {0}\<rparr>"

lemmas ex_defs = ex_config_def ex_lease_def ex_record_def ex_registered_def ex_probed_def ex_leased_def
  pool_system_initial_def

lemmas pool_eval = ensure_current_gate_def advance_wall_clock_def expire_lease_def take_lease_def
  renew_lease_def install_lease_def set_lease_def owner_insert_def owner_remove_def ensure_healthy_def
  instant_checked_add_def INSTANT_LIMIT_def lease_ttl_def health_validity_def NANOS_PER_MILLI_def
  saturating_add_u64_def U64_MAX_def validate_health_def pool_health_healthy_def pool_health_unknown_def
  Let_def

lemma ex_step_register: "pool_step ex_config pool_system_initial ex_registered"
proof -
  have "\<not> trim_is_empty ''d''" by (simp add: trim_is_empty_def ws1_def)
  then have "register 0 ''d'' (sy_state pool_system_initial) =
      Returns (Inr \<lparr>rt_device_id = ''d'', rt_gate = 0\<rparr>) (sy_state ex_registered)"
    by (simp add: register_def ex_defs)
  from pool_register [OF _ this] show ?thesis by (simp add: ex_defs)
qed

lemma ex_step_probe: "pool_step ex_config ex_registered ex_probed"
proof -
  have "record_health \<lparr>rt_device_id = ''d'', rt_gate = 0\<rparr> (pool_health_healthy 4) 5 10 (sy_state ex_registered) =
      Returns (Inr (pool_health_healthy 5)) (sy_state ex_probed)"
    by (simp add: record_health_def ex_defs pool_eval)
  from pool_health [OF this] show ?thesis by (simp add: ex_defs)
qed

lemma ex_step_acquire: "pool_step ex_config ex_probed (ex_leased 300000000010 [])"
proof -
  have "acquire_with_gate ex_config [7] ''d'' 1 5 0 10 (sy_state ex_probed) =
      Returns (Inr ex_lease) (sy_state (ex_leased 300000000010 []))"
    by (simp add: acquire_with_gate_def ex_defs pool_eval)
  from pool_acquire [OF _ this] show ?thesis by (simp add: ex_defs unguarded_def)
qed

lemma ex_step_access: "pool_step ex_config (ex_leased 300000000010 []) (ex_leased 300000000020 [(0, ''d'', 1)])"
proof -
  have "access_with_lease_inner ex_config 7 ''d'' 1 5 True 0 20 (sy_state (ex_leased 300000000010 [])) =
      Returns (Inr ''d'') (sy_state (ex_leased 300000000020 []))"
    by (simp add: access_with_lease_inner_def ex_defs pool_eval)
  from pool_access [OF this] show ?thesis by (simp add: ex_defs grant_def)
qed

lemma ex_reachable_leased: "pool_reachable ex_config (ex_leased 300000000010 [])"
  using ex_step_register ex_step_probe ex_step_acquire by (meson rtranclp.rtrancl_into_rtrancl rtranclp.rtrancl_refl)

lemma ex_reachable_access: "pool_reachable ex_config (ex_leased 300000000020 [(0, ''d'', 1)])"
  using ex_reachable_leased ex_step_access by (rule rtranclp.rtrancl_into_rtrancl)

subsection \<open>Properties\<close>

text \<open>
  C23. However the operations of the pool interleave, the three lease indexes are always exactly
  the ones the device records determine, so the consistency check of the unit tests never fails.
\<close>

theorem pool_indexes_consistent:
  assumes "pool_reachable config s"
  shows "indexes_are_consistent (sy_state s)"
  using sys_inv_reachable [OF assms] by (simp add: sys_inv_def pool_inv_consistent)

theorem pool_indexes_consistent_witness:
  "indexes_are_consistent (sy_state (ex_leased 300000000020 [(0, ''d'', 1)]))"
  using pool_indexes_consistent [OF ex_reachable_access] .

text \<open>
  C22. While an access guard is alive its device stays in the pool under the same registration, and
  no lease of another owner is installed on it: removal, release and acquisition by another owner
  wait for the guard.
\<close>

theorem guard_pins_device:
  assumes "pool_reachable config s" "(g, d, owner) \<in> set (sy_guards s)"
  shows "\<exists>r. map_of (ps_devices (sy_state s)) d = Some r \<and> pr_gate r = g
    \<and> (\<forall>l. pr_lease r = Some l \<longrightarrow> dl_owner_id (lr_value l) = owner)"
proof -
  have "guard_ok (sys_view s) (g, d, owner)"
    using sys_inv_reachable [OF assms(1)] assms(2) by (auto simp: sys_inv_def)
  then show ?thesis
    by (auto simp: guard_ok_def pool_view_def device_record)
qed

theorem guard_pins_device_witness:
  "\<exists>r. map_of (ps_devices (sy_state (ex_leased 300000000020 [(0, ''d'', 1)]))) ''d'' = Some r \<and> pr_gate r = 0
    \<and> (\<forall>l. pr_lease r = Some l \<longrightarrow> dl_owner_id (lr_value l) = 1)"
  using guard_pins_device [OF ex_reachable_access, of 0 "''d''" 1] by (simp add: ex_leased_def)

text \<open>
  C26. A health report carrying the token of a registration that is no longer current never changes
  the pool, whatever happened since: not after the device was removed, and not after its id was
  registered again.
\<close>

theorem stale_token_never_writes:
  assumes "pool_reachable config s" "g \<in> sy_issued s" "\<not> current (sys_view s) d g"
    and "pool_steps config s s'"
  shows "\<exists>e. record_health \<lparr>rt_device_id = d, rt_gate = g\<rparr> health now_ms now (sy_state s') =
    Returns (Inl e) (sy_state s')"
  using stale_gate_stays [OF assms(4) sys_inv_reachable [OF assms(1)] assms(2,3)]
  by (intro stale_record_health) simp

lemma ex_reachable_removed:
  "pool_reachable ex_config (ex_registered\<lparr>sy_state := (sy_state ex_registered)\<lparr>ps_devices := []\<rparr>\<rparr>)"
proof -
  have "remove_with_gate ''d'' 0 0 0 (sy_state ex_registered) =
      Returns (Inr ()) ((sy_state ex_registered)\<lparr>ps_devices := []\<rparr>)"
    by (simp add: remove_with_gate_def ex_defs pool_eval)
  moreover have "unguarded ex_registered 0" by (simp add: unguarded_def ex_registered_def)
  ultimately have "pool_step ex_config ex_registered
      (ex_registered\<lparr>sy_state := (sy_state ex_registered)\<lparr>ps_devices := []\<rparr>\<rparr>)"
    by (intro pool_remove)
  with ex_step_register show ?thesis
    by (blast intro: rtranclp.rtrancl_into_rtrancl rtranclp.rtrancl_refl)
qed

theorem stale_token_never_writes_witness:
  "\<exists>e. record_health \<lparr>rt_device_id = ''d'', rt_gate = 0\<rparr> (pool_health_healthy 4) 5 10
       ((sy_state ex_registered)\<lparr>ps_devices := []\<rparr>) =
     Returns (Inl e) ((sy_state ex_registered)\<lparr>ps_devices := []\<rparr>)"
  using stale_token_never_writes [OF ex_reachable_removed _ _ rtranclp.rtrancl_refl, of 0 "''d''"]
  by (simp add: ex_registered_def current_def pool_view_def registered_def)

text \<open>
  C25. Every operation of the pool refines its counterpart on a pool without indexes: from a
  reachable state it returns without a panic, with the same result, in a state with the same
  registrations and leases. The wall clock only moves the reported timestamps; expiry is decided
  by the monotonic instant. Acquisition may still be drawing lease ids when all drawn ids are in use.
\<close>

theorem pool_operations_refine:
  assumes "pool_reachable config s" "now + lease_ttl config < INSTANT_LIMIT"
  shows "refines (register g d (sy_state s)) (view_register g d (sys_view s)) \<and>
    refines (remove_with_gate d now_ms g now (sy_state s)) (view_remove d now_ms g now (sys_view s)) \<and>
    refines (record_health tok health now_ms now (sy_state s))
      (view_record_health tok health now_ms now (sys_view s)) \<and>
    (first_unused draws (drop_expired now d (leased (sy_state s))) = Some lid \<longrightarrow>
      refines (acquire_with_gate config draws d owner now_ms g now (sy_state s))
        (view_acquire config lid d owner now_ms g now (sys_view s))) \<and>
    refines (access_with_lease_inner config lid d owner now_ms fresh g now (sy_state s))
      (view_access config lid d owner now_ms fresh g now (sys_view s)) \<and>
    refines (access_available_to_with_gate d owner now_ms g now (sy_state s))
      (view_available d owner now_ms g now (sys_view s)) \<and>
    refines (release_with_gate lid owner now_ms d g now (sy_state s))
      (view_release lid owner now_ms d g now (sys_view s))"
proof -
  note inv = sys_inv_pool [OF sys_inv_reachable [OF assms(1)]]
  have "first_unused draws (drop_expired now d (leased (sy_state s))) = Some lid \<longrightarrow>
      refines (acquire_with_gate config draws d owner now_ms g now (sy_state s))
        (view_acquire config lid d owner now_ms g now (sys_view s))"
    using acquire_refines [OF inv assms(2), of draws d "Some lid" owner now_ms g 0] by simp
  then show ?thesis
    by (intro conjI register_refines remove_refines record_health_refines access_refines
        available_refines release_refines inv assms(2))
qed

theorem pool_operations_refine_witness:
  "refines (acquire_with_gate ex_config [7, 8] ''d'' 1 5 0 20 (sy_state (ex_leased 300000000010 [])))
     (view_acquire ex_config 8 ''d'' 1 5 0 20 (sys_view (ex_leased 300000000010 [])))"
proof -
  have "20 + lease_ttl ex_config < INSTANT_LIMIT"
    by (simp add: lease_ttl_def ex_config_def NANOS_PER_MILLI_def INSTANT_LIMIT_def)
  moreover have "first_unused [7, 8] (drop_expired 20 ''d'' (leased (sy_state (ex_leased 300000000010 [])))) = Some 8"
    by (auto simp: first_unused_def drop_expired_def leased_def ran_def ex_defs)
  ultimately show ?thesis
    using pool_operations_refine [OF ex_reachable_leased, of 20] by blast
qed

text \<open>
  C27. Run without interference, the bulk operations take exactly the leases they are for, keep every
  other lease and every registration, and report them in index order: \<open>release_owner\<close> those of the
  owner (reporting the ones not yet expired), \<open>release_all\<close> all of them, \<open>reap_expired\<close> the
  expired ones, earliest deadline first.
\<close>

theorem pool_bulk_operations:
  assumes "pool_reachable config s"
  shows "(\<exists>ls. sorted_wrt (<) (map lease_of ls) \<and> set ls = {l \<in> ran (leased (sy_state s)). owner_of l = owner}
      \<and> takes_leases ls (\<lambda>l. lr_deadline l > now) (sy_state s) (release_owner owner now_ms now (sy_state s))) \<and>
    (\<exists>ls. sorted_wrt (<) (map lease_of ls) \<and> set ls = ran (leased (sy_state s))
      \<and> takes_leases ls (\<lambda>l. True) (sy_state s) (release_all now_ms (sy_state s))) \<and>
    (\<exists>ls. sorted_wrt (<) (map (\<lambda>l. (lr_deadline l, lease_of l)) ls)
      \<and> set ls = {l \<in> ran (leased (sy_state s)). lr_deadline l \<le> now}
      \<and> takes_leases ls (\<lambda>l. True) (sy_state s) (reap_expired now_ms now (sy_state s)))"
  using sys_inv_pool [OF sys_inv_reachable [OF assms]]
  by (intro conjI release_owner_takes release_all_takes reap_expired_takes)

theorem pool_bulk_operations_witness:
  "\<exists>ls. set ls = ran (leased (sy_state (ex_leased 300000000010 [])))
     \<and> takes_leases ls (\<lambda>l. True) (sy_state (ex_leased 300000000010 []))
         (release_all 5 (sy_state (ex_leased 300000000010 [])))"
  using pool_bulk_operations [OF ex_reachable_leased] by blast

subsection \<open>An expired lease is handed over under a live guard\<close>

text \<open>
  The comment on \<open>DeviceAccessGuard\<close> says that the handoff of an expired lease waits for the
  guard. \<open>access_available_to\<close> expires the lease under a shared gate: in the run below owner 1
  still holds its guard when owner 2 is given one for the same device.
\<close>

theorem expired_lease_handoff_without_waiting:
  "\<exists>s. pool_reachable ex_config s \<and> sy_guards s = [(0, ''d'', 2), (0, ''d'', 1)]"
proof -
  let ?s = "ex_leased 300000000020 [(0, ''d'', 1)]"
  let ?st = "(sy_state ?s)\<lparr>ps_devices := [(''d'', ex_record None)], ps_lease_devices := [],
    ps_owner_leases := [], ps_lease_deadlines := []\<rparr>"
  have "access_available_to_with_gate ''d'' 2 5 0 300000000020 (sy_state ?s) = Returns (Inr ''d'') ?st"
    by (simp add: access_available_to_with_gate_def ex_defs pool_eval AList.delete_eq)
  from pool_available [OF this] ex_reachable_access
  have "pool_reachable ex_config (grant (0, ''d'', 2) (Inr ''d'') ?st ?s)"
    by (meson rtranclp.rtrancl_into_rtrancl)
  moreover have "sy_guards (grant (0, ''d'', 2) (Inr ''d'') ?st ?s) = [(0, ''d'', 2), (0, ''d'', 1)]"
    by (simp add: grant_def ex_leased_def)
  ultimately show ?thesis by blast
qed

end
