(* ===== verification/Error_Info.thy ===== *)
theory Error_Info
  imports Event_Store Control
begin

text \<open>
  The errors of the store, the Drivers and the runtime as they reach the wire:
  \<open>EventStoreError::to_error_info\<close> (\<open>event_store.rs\<close>), \<open>DriverError\<close> and \<open>RuntimeError\<close>
  (\<open>lib.rs\<close>). \<open>uuid_str\<close> is the hyphenated form of a UUID. The lemmas show what the messages do
  not carry: adapter text, arguments and internal failures stay out of every public error.
\<close>

subsection \<open>Event store errors\<close>

fun decimal :: "nat \<Rightarrow> string" where
  "decimal n = (if n < 10 then [char_of (48 + n)] else decimal (n div 10) @ [char_of (48 + n mod 10)])"

declare decimal.simps [simp del]

definition event_store_error_message :: "(uuid \<Rightarrow> string) \<Rightarrow> event_store_error \<Rightarrow> string" where
  "event_store_error_message uuid_str e =
     (case e of
        StoreSessionAlreadyExists sid \<Rightarrow> ''session already exists: '' @ uuid_str sid
      | StoreSessionNotFound sid \<Rightarrow> ''session not found: '' @ uuid_str sid
      | StoreSessionEnded sid \<Rightarrow> ''session is already ended: '' @ uuid_str sid
      | StoreSessionActive sid \<Rightarrow> ''active session cannot be deleted: '' @ uuid_str sid
      | StoreActionsInFlight sid n \<Rightarrow>
          ''session '' @ uuid_str sid @ '' still has '' @ decimal n @ '' action(s) in flight''
      | StoreObservationsInFlight sid n \<Rightarrow>
          ''session '' @ uuid_str sid @ '' still has '' @ decimal n @ '' observation(s) in flight''
      | StoreInvalidObservationLease sid lease \<Rightarrow>
          ''observation lease '' @ uuid_str lease @ '' does not belong to session '' @ uuid_str sid
      | StoreLifecycleEventReserved \<Rightarrow>
          ''session lifecycle events can only be written by start_session/end_session''
      | StoreDuplicateActionCall call \<Rightarrow>
          ''action call id is already used in this session: '' @ uuid_str call
      | StoreActionNotStarted call \<Rightarrow> ''action was not started in this session: '' @ uuid_str call
      | StoreActionCorrelationMismatch call \<Rightarrow>
          ''action event correlation changed for call '' @ uuid_str call
      | StoreActionResultMismatch call \<Rightarrow>
          ''successful action result call id does not match completed call '' @ uuid_str call
      | StoreDuplicateMediaStream stream \<Rightarrow> ''media stream id is already used: '' @ uuid_str stream
      | StoreInvalidMediaStream \<Rightarrow> ''media stream declaration is invalid''
      | StoreMediaStreamNotActive stream \<Rightarrow> ''media stream is not active: '' @ uuid_str stream
      | StoreMediaFrameOutOfOrder \<Rightarrow> ''media stream frame is out of order''
      | StoreMediaFrameMismatch \<Rightarrow> ''media stream frame does not match its declared stream''
      | StoreMediaFrameCountMismatch \<Rightarrow> ''media stream ended with an inconsistent frame count''
      | StoreMediaStreamsInFlight sid n \<Rightarrow>
          ''session '' @ uuid_str sid @ '' still has '' @ decimal n @ '' media stream(s) in flight''
      | StoreSequenceExhausted sid \<Rightarrow> ''event sequence exhausted for session: '' @ uuid_str sid
      | StoreCursorAhead sid after last_sequence \<Rightarrow>
          ''session '' @ uuid_str sid @ '' export cursor EventSequence('' @ decimal after @
          '') is ahead of last sequence EventSequence('' @ decimal last_sequence @ '')''
      | StoreInvalidPageLimit limit maximum \<Rightarrow>
          ''event page limit '' @ decimal limit @ '' is outside 1..='' @ decimal maximum
      | StoreShuttingDown \<Rightarrow> ''event store is shutting down''
      | StoreTimestampOutOfRange \<Rightarrow> ''timestamp exceeds the cross-language safe integer limit''
      | StoreInternal detail \<Rightarrow> ''event store failed: '' @ detail)"

definition event_store_error_class ::
  "(uuid \<Rightarrow> string) \<Rightarrow> event_store_error \<Rightarrow> string \<times> bool \<times> json option" where
  "event_store_error_class uuid_str e =
     (let id = (\<lambda>key v. Some (json_object [(key, JString (uuid_str v))]));
          busy = (\<lambda>sid key n. Some (json_object [(''sessionId'', JString (uuid_str sid)), (key, json_u64 n)]))
      in case e of
        StoreSessionAlreadyExists sid \<Rightarrow> (''session_already_exists'', False, id ''sessionId'' sid)
      | StoreSessionNotFound sid \<Rightarrow> (''session_not_found'', False, id ''sessionId'' sid)
      | StoreSessionEnded sid \<Rightarrow> (''session_ended'', False, id ''sessionId'' sid)
      | StoreSessionActive sid \<Rightarrow> (''session_active'', False, id ''sessionId'' sid)
      | StoreActionsInFlight sid n \<Rightarrow> (''session_busy'', True, busy sid ''inFlightActions'' n)
      | StoreObservationsInFlight sid n \<Rightarrow> (''session_busy'', True, busy sid ''inFlightObservations'' n)
      | StoreInvalidObservationLease sid lease \<Rightarrow>
          (''invalid_observation_lease'', False,
           Some (json_object [(''sessionId'', JString (uuid_str sid)), (''leaseId'', JString (uuid_str lease))]))
      | StoreLifecycleEventReserved \<Rightarrow> (''invalid_event'', False, None)
      | StoreDuplicateActionCall call \<Rightarrow> (''duplicate_action_call'', False, id ''callId'' call)
      | StoreActionNotStarted call \<Rightarrow> (''action_not_started'', False, id ''callId'' call)
      | StoreActionCorrelationMismatch call \<Rightarrow> (''action_correlation_mismatch'', False, id ''callId'' call)
      | StoreActionResultMismatch call \<Rightarrow> (''action_result_mismatch'', False, id ''callId'' call)
      | StoreDuplicateMediaStream stream \<Rightarrow> (''duplicate_media_stream'', False, id ''streamId'' stream)
      | StoreInvalidMediaStream \<Rightarrow> (''invalid_media_stream'', False, None)
      | StoreMediaStreamNotActive stream \<Rightarrow> (''media_stream_not_active'', False, id ''streamId'' stream)
      | StoreMediaFrameOutOfOrder \<Rightarrow> (''media_frame_out_of_order'', False, None)
      | StoreMediaFrameMismatch \<Rightarrow> (''media_frame_mismatch'', False, None)
      | StoreMediaFrameCountMismatch \<Rightarrow> (''media_frame_count_mismatch'', False, None)
      | StoreMediaStreamsInFlight sid n \<Rightarrow> (''session_busy'', True, busy sid ''inFlightMediaStreams'' n)
      | StoreSequenceExhausted sid \<Rightarrow> (''event_sequence_exhausted'', False, id ''sessionId'' sid)
      | StoreCursorAhead sid after last_sequence \<Rightarrow>
          (''event_cursor_ahead'', False,
           Some (json_object [(''sessionId'', JString (uuid_str sid)), (''afterSequence'', json_u64 after),
                              (''lastSequence'', json_u64 last_sequence)]))
      | StoreInvalidPageLimit limit maximum \<Rightarrow>
          (''invalid_page_limit'', False,
           Some (json_object [(''limit'', json_u64 limit), (''maximum'', json_u64 maximum)]))
      | StoreShuttingDown \<Rightarrow> (''event_store_shutting_down'', False, None)
      | StoreTimestampOutOfRange \<Rightarrow> (''timestamp_out_of_range'', False, None)
      | StoreInternal _ \<Rightarrow> (''event_store_error'', True, None))"

definition event_store_error_info :: "(uuid \<Rightarrow> string) \<Rightarrow> event_store_error \<Rightarrow> error_info" where
  "event_store_error_info uuid_str e =
     (case event_store_error_class uuid_str e of
        (code, retryable, details) \<Rightarrow>
          \<lparr>ei_code = code, ei_message = event_store_error_message uuid_str e,
           ei_retryable = retryable, ei_details = details\<rparr>)"

subsection \<open>Driver errors\<close>

datatype driver_error =
    DriverNotConnected device_id
  | DriverUnknownAction string
  | DriverInvalidArguments string string
  | DriverElementNotFound
  | DriverElementAmbiguous
  | DriverElementStale
  | DriverElementNotInteractable
  | DriverUiContextNotFound
  | DriverUiContextAmbiguous
  | DriverUiContextChanged
  | DriverSemanticChannelUnavailable
  | DriverProtocol string
  | DriverCancelled
  | DriverTimedOut
  | DriverPlatform string bool
  | DriverInternal string

definition public_platform_code :: "string \<Rightarrow> string" where
  "public_platform_code code =
     (if code \<noteq> [] \<and> length code \<le> 64
         \<and> list_all (\<lambda>c. is_ascii_lowercase c \<or> is_ascii_digit c \<or> c \<in> set ''_-.'') code
      then code else ''unknown'')"

definition driver_error_class :: "driver_error \<Rightarrow> string \<times> string \<times> bool \<times> json option" where
  "driver_error_class e =
     (case e of
        DriverNotConnected device_id \<Rightarrow>
          (''device_not_connected'', ''device '' @ device_id @ '' is not connected'', True,
           Some (json_object [(''deviceId'', JString device_id)]))
      | DriverUnknownAction action \<Rightarrow>
          (''unknown_action'', ''unknown action: '' @ action, False,
           Some (json_object [(''action'', JString action)]))
      | DriverInvalidArguments action _ \<Rightarrow>
          (''invalid_arguments'', ''invalid arguments for action '' @ action, False,
           Some (json_object [(''action'', JString action)]))
      | DriverElementNotFound \<Rightarrow> (''element_not_found'', ''element was not found'', False, None)
      | DriverElementAmbiguous \<Rightarrow>
          (''element_ambiguous'', ''element selector matched more than one element'', False, None)
      | DriverElementStale \<Rightarrow> (''element_stale'', ''element reference is stale'', True, None)
      | DriverElementNotInteractable \<Rightarrow>
          (''element_not_interactable'', ''element is not interactable'', False, None)
      | DriverUiContextNotFound \<Rightarrow> (''ui_context_not_found'', ''UI context was not found'', False, None)
      | DriverUiContextAmbiguous \<Rightarrow>
          (''ui_context_ambiguous'', ''UI context selector matched more than one context'', False, None)
      | DriverUiContextChanged \<Rightarrow> (''ui_context_changed'', ''UI context changed'', True, None)
      | DriverSemanticChannelUnavailable \<Rightarrow>
          (''semantic_channel_unavailable'', ''semantic UI channel is unavailable'', False, None)
      | DriverProtocol _ \<Rightarrow> (''protocol_error'', ''driver protocol error'', False, None)
      | DriverCancelled \<Rightarrow> (''driver_cancelled'', ''driver operation was cancelled'', False, None)
      | DriverTimedOut \<Rightarrow> (''driver_timed_out'', ''driver operation timed out'', True, None)
      | DriverPlatform code retryable \<Rightarrow>
          (''platform_error'', ''platform operation failed'', retryable,
           Some (json_object [(''platformCode'', JString (public_platform_code code))]))
      | DriverInternal _ \<Rightarrow> (''internal_error'', ''internal driver error'', True, None))"

definition driver_error_info :: "driver_error \<Rightarrow> error_info" where
  "driver_error_info e =
     (case driver_error_class e of
        (code, message, retryable, details) \<Rightarrow>
          \<lparr>ei_code = code, ei_message = message, ei_retryable = retryable, ei_details = details\<rparr>)"

subsection \<open>Runtime errors\<close>

datatype device_operation_error = OperationDriver driver_error | OperationEvidence evidence_error

datatype runtime_error =
    RuntimeDriver driver_error
  | RuntimeEventStore event_store_error
  | RuntimeEvidence evidence_error
  | RuntimeCancelled cancellation_reason
  | RuntimeTimedOut timeout_scope nat

definition cancellation_reason_debug :: "cancellation_reason \<Rightarrow> string" where
  "cancellation_reason_debug r = (case r of Requested \<Rightarrow> ''Requested'' | ShutdownReason \<Rightarrow> ''Shutdown'')"

definition timeout_scope_debug :: "timeout_scope \<Rightarrow> string" where
  "timeout_scope_debug s =
     (case s of RequestScope \<Rightarrow> ''Request'' | ActionScope \<Rightarrow> ''Action'' | ShutdownScope \<Rightarrow> ''Shutdown'')"

definition cancelled_info :: "string \<Rightarrow> cancellation_reason \<Rightarrow> error_info" where
  "cancelled_info code reason =
     \<lparr>ei_code = code, ei_message = ''request was cancelled: '' @ cancellation_reason_debug reason,
      ei_retryable = False,
      ei_details = Some (json_object [(''reason'', JString (cancellation_reason_as_str reason))])\<rparr>"

definition timed_out_info :: "string \<Rightarrow> timeout_scope \<Rightarrow> nat \<Rightarrow> error_info" where
  "timed_out_info code scope timeout_ms =
     \<lparr>ei_code = code,
      ei_message = timeout_scope_debug scope @ '' timed out after '' @ decimal timeout_ms @ '' ms'',
      ei_retryable = True,
      ei_details = Some (json_object [(''scope'', JString (timeout_scope_as_str scope)),
                                      (''timeoutMs'', json_u64 timeout_ms)])\<rparr>"

definition runtime_error_info :: "(uuid \<Rightarrow> string) \<Rightarrow> runtime_error \<Rightarrow> error_info" where
  "runtime_error_info uuid_str e =
     (case e of
        RuntimeDriver err \<Rightarrow> driver_error_info err
      | RuntimeEventStore err \<Rightarrow> event_store_error_info uuid_str err
      | RuntimeEvidence err \<Rightarrow> evidence_error_info uuid_str err
      | RuntimeCancelled reason \<Rightarrow> cancelled_info ''request_cancelled'' reason
      | RuntimeTimedOut scope timeout_ms \<Rightarrow>
          timed_out_info (if scope = ActionScope then ''action_timed_out'' else ''request_timed_out'')
            scope timeout_ms)"

definition action_error_info :: "(uuid \<Rightarrow> string) \<Rightarrow> runtime_error \<Rightarrow> error_info" where
  "action_error_info uuid_str e =
     (case e of
        RuntimeCancelled reason \<Rightarrow> cancelled_info ''action_cancelled'' reason
      | RuntimeTimedOut scope timeout_ms \<Rightarrow> timed_out_info ''action_timeout'' scope timeout_ms
      | _ \<Rightarrow> runtime_error_info uuid_str e)"

subsection \<open>What a public Driver error does not carry\<close>

text \<open>Two Driver errors with the same public part: the adapter's free text is the difference.\<close>

definition same_public :: "driver_error \<Rightarrow> driver_error \<Rightarrow> bool" where
  "same_public e e' \<longleftrightarrow>
     (case (e, e') of
        (DriverInvalidArguments a _, DriverInvalidArguments b _) \<Rightarrow> a = b
      | (DriverProtocol _, DriverProtocol _) \<Rightarrow> True
      | (DriverInternal _, DriverInternal _) \<Rightarrow> True
      | (DriverPlatform c r, DriverPlatform d q) \<Rightarrow> public_platform_code c = public_platform_code d \<and> r = q
      | _ \<Rightarrow> e = e')"

lemma driver_error_info_public: "same_public e e' \<Longrightarrow> driver_error_info e = driver_error_info e'"
  by (cases e; cases e') (auto simp: same_public_def driver_error_info_def driver_error_class_def)

lemma public_platform_code_safe:
  "public_platform_code code \<noteq> [] \<and> length (public_platform_code code) \<le> 64
   \<and> list_all (\<lambda>c. is_ascii_lowercase c \<or> is_ascii_digit c \<or> c \<in> set ''_-.'') (public_platform_code code)"
  by (auto simp: public_platform_code_def is_ascii_lowercase_def)

end
