(* ===== verification/Runtime.thy ===== *)
theory Runtime
  imports Error_Info
begin

text \<open>
  The device runtime, \<open>crates/core/src/lib.rs\<close>, with the operation contexts of \<open>session.rs\<close>:
  \<open>observe\<close> and \<open>execute\<close>, and every check between a Driver's answer and the event log.

  The Driver is an argument: its static classifier \<open>action_protection\<close>, its reply to
  \<open>capabilities\<close>, and its reply to one operation, which is the list of calls it makes on the
  evidence writer and how the \<open>select!\<close> around its future ends. The event store is an argument too
  (\<open>store_ops\<close>). \<open>others n\<close> is what the other clients of the store do while the operation waits at
  its \<open>n\<close>-th await point, and a \<open>reading\<close> is the cancellation reason and the instant seen when the
  control is read.
\<close>

subsection \<open>Contexts\<close>

datatype screenshot_policy = Capture | Omit

record operation_context =
  oc_session_id :: session_id
  oc_request_id :: "rpc_id option"
  oc_control :: execution_control
  oc_action_timeout_ms :: "nat option"
  oc_screenshot_policy_override :: "screenshot_policy option"
  oc_ui_snapshots_enabled :: bool
  oc_semantic_actions_enabled :: bool

definition operation_context_new :: "session_id \<Rightarrow> rpc_id option \<Rightarrow> operation_context" where
  "operation_context_new session_id request_id =
     \<lparr>oc_session_id = session_id, oc_request_id = request_id, oc_control = snd controller_new,
      oc_action_timeout_ms = None, oc_screenshot_policy_override = None,
      oc_ui_snapshots_enabled = False, oc_semantic_actions_enabled = False\<rparr>"

definition context_with_control :: "execution_control \<Rightarrow> operation_context \<Rightarrow> operation_context" where
  "context_with_control control context = context\<lparr>oc_control := control\<rparr>"

definition context_with_action_timeout_ms :: "nat \<Rightarrow> operation_context \<Rightarrow> operation_context" where
  "context_with_action_timeout_ms timeout_ms context = context\<lparr>oc_action_timeout_ms := Some timeout_ms\<rparr>"

definition context_with_screenshot_policy :: "screenshot_policy \<Rightarrow> operation_context \<Rightarrow> operation_context" where
  "context_with_screenshot_policy policy context = context\<lparr>oc_screenshot_policy_override := Some policy\<rparr>"

definition context_with_ui_snapshots_enabled :: "bool \<Rightarrow> operation_context \<Rightarrow> operation_context" where
  "context_with_ui_snapshots_enabled enabled context = context\<lparr>oc_ui_snapshots_enabled := enabled\<rparr>"

definition context_with_semantic_actions_enabled :: "bool \<Rightarrow> operation_context \<Rightarrow> operation_context" where
  "context_with_semantic_actions_enabled enabled context = context\<lparr>oc_semantic_actions_enabled := enabled\<rparr>"

definition effective_screenshot_policy :: "screenshot_policy \<Rightarrow> operation_context \<Rightarrow> screenshot_policy" where
  "effective_screenshot_policy runtime_policy context =
     (if runtime_policy = Omit \<or> oc_screenshot_policy_override context = Some Omit then Omit else Capture)"

definition context_execution_control :: "nat \<Rightarrow> operation_context \<Rightarrow> execution_control" where
  "context_execution_control now context =
     (case oc_action_timeout_ms context of
        None \<Rightarrow> oc_control context
      | Some timeout_ms \<Rightarrow> with_timeout now timeout_ms ActionScope (oc_control context))"

record driver_operation_context =
  dc_control :: execution_control
  dc_session_id :: session_id
  dc_screenshot_policy :: screenshot_policy
  dc_ui_snapshots_enabled :: bool
  dc_semantic_actions_enabled :: bool

definition pending_for_operation ::
  "operation_context \<Rightarrow> device_id option \<Rightarrow> nat \<Rightarrow> test_event_payload \<Rightarrow> pending_event" where
  "pending_for_operation context device_id at_ms payload =
     \<lparr>pv_session_id = oc_session_id context, pv_request_id = oc_request_id context,
      pv_device_id = device_id, pv_at_ms = at_ms, pv_payload = payload\<rparr>"

record device_runtime =
  rt_driver_id :: device_id
  rt_strict_evidence_receipts :: bool
  rt_screenshot_policy :: screenshot_policy

text \<open>
  The runtime's identity is its Driver's; the evidence store, \<open>UnavailableEvidenceStore\<close> for
  \<open>new\<close>, is an argument of the operations.
\<close>

definition device_runtime_new :: "device_id \<Rightarrow> device_runtime" where
  "device_runtime_new driver_id =
     \<lparr>rt_driver_id = driver_id, rt_strict_evidence_receipts = False, rt_screenshot_policy = Capture\<rparr>"

definition device_runtime_with_evidence :: "device_id \<Rightarrow> device_runtime" where
  "device_runtime_with_evidence driver_id =
     \<lparr>rt_driver_id = driver_id, rt_strict_evidence_receipts = True, rt_screenshot_policy = Capture\<rparr>"

definition runtime_with_screenshot_policy :: "screenshot_policy \<Rightarrow> device_runtime \<Rightarrow> device_runtime" where
  "runtime_with_screenshot_policy policy rt = rt\<lparr>rt_screenshot_policy := policy\<rparr>"

definition driver_context ::
  "execution_control \<Rightarrow> operation_context \<Rightarrow> screenshot_policy \<Rightarrow> driver_operation_context" where
  "driver_context control operation policy =
     \<lparr>dc_control = control, dc_session_id = oc_session_id operation, dc_screenshot_policy = policy,
      dc_ui_snapshots_enabled = oc_ui_snapshots_enabled operation,
      dc_semantic_actions_enabled = oc_semantic_actions_enabled operation\<rparr>"

text \<open>The evidence store the context's writer is bound to: none at all under \<open>Omit\<close>.\<close>

definition context_put :: "('i, 'e) store_put \<Rightarrow> screenshot_policy \<Rightarrow> ('i, 'e) store_put" where
  "context_put put policy = (case policy of Capture \<Rightarrow> put | Omit \<Rightarrow> unavailable_put)"

definition context_attach :: "'e store_attach \<Rightarrow> screenshot_policy \<Rightarrow> 'e store_attach" where
  "context_attach att policy = (case policy of Capture \<Rightarrow> att | Omit \<Rightarrow> unavailable_attach)"

subsection \<open>Waiting for a Driver\<close>

record reading =
  rd_cancel :: cancellation_state
  rd_now :: nat

datatype 'r select_outcome = FutureReady 'r | CancelSignalled cancellation_reason | DeadlineFired

definition timeout_error :: "execution_control \<Rightarrow> runtime_error" where
  "timeout_error control =
     (case (case control_timeout control of Some t \<Rightarrow> t | None \<Rightarrow> (RequestScope, 0)) of
        (scope, timeout_ms) \<Rightarrow> RuntimeTimedOut scope timeout_ms)"

definition inactive_control_error :: "reading \<Rightarrow> execution_control \<Rightarrow> runtime_error option" where
  "inactive_control_error r control =
     (case rd_cancel r of
        Some reason \<Rightarrow> Some (RuntimeCancelled reason)
      | None \<Rightarrow> if is_expired (rd_now r) control then Some (timeout_error control) else None)"

definition normalize_driver_result ::
  "reading \<Rightarrow> execution_control \<Rightarrow> driver_error + 'a \<Rightarrow> runtime_error + 'a" where
  "normalize_driver_result r control res =
     (case res of
        Inr x \<Rightarrow> Inr x
      | Inl e \<Rightarrow>
          if e = DriverCancelled \<and> rd_cancel r \<noteq> None then Inl (RuntimeCancelled (the (rd_cancel r)))
          else if e = DriverTimedOut \<and> is_expired (rd_now r) control then Inl (timeout_error control)
          else Inl (RuntimeDriver e))"

definition normalize_device_operation_result ::
  "reading \<Rightarrow> execution_control \<Rightarrow> device_operation_error + 'a \<Rightarrow> runtime_error + 'a" where
  "normalize_device_operation_result r control res =
     (case res of
        Inr x \<Rightarrow> Inr x
      | Inl (OperationDriver e) \<Rightarrow> normalize_driver_result r control (Inl e)
      | Inl (OperationEvidence e) \<Rightarrow> Inl (RuntimeEvidence e))"

definition await_driver ::
  "reading \<Rightarrow> reading \<Rightarrow> execution_control \<Rightarrow> (driver_error + 'a) select_outcome \<Rightarrow> runtime_error + 'a" where
  "await_driver before after control outcome =
     (case rd_cancel before of
        Some reason \<Rightarrow> Inl (RuntimeCancelled reason)
      | None \<Rightarrow>
          if is_expired (rd_now before) control then Inl (timeout_error control)
          else
            (case outcome of
               FutureReady res \<Rightarrow> normalize_driver_result after control res
             | CancelSignalled reason \<Rightarrow> Inl (RuntimeCancelled reason)
             | DeadlineFired \<Rightarrow> Inl (timeout_error control)))"

definition await_device_operation ::
  "reading \<Rightarrow> reading \<Rightarrow> execution_control \<Rightarrow> (device_operation_error + 'a) select_outcome \<Rightarrow>
   runtime_error + 'a" where
  "await_device_operation before after control outcome =
     (case rd_cancel before of
        Some reason \<Rightarrow> Inl (RuntimeCancelled reason)
      | None \<Rightarrow>
          if is_expired (rd_now before) control then Inl (timeout_error control)
          else
            (case outcome of
               FutureReady res \<Rightarrow> normalize_device_operation_result after control res
             | CancelSignalled reason \<Rightarrow> Inl (RuntimeCancelled reason)
             | DeadlineFired \<Rightarrow> Inl (timeout_error control)))"

definition runtime_connect ::
  "reading \<Rightarrow> reading \<Rightarrow> execution_control \<Rightarrow> (driver_error + device_info) select_outcome \<Rightarrow>
   runtime_error + device_info" where
  "runtime_connect before after control reply = await_driver before after control reply"

definition runtime_disconnect ::
  "reading \<Rightarrow> reading \<Rightarrow> execution_control \<Rightarrow> (driver_error + unit) select_outcome \<Rightarrow> runtime_error + unit" where
  "runtime_disconnect before after control reply = await_driver before after control reply"

definition runtime_health_check ::
  "reading \<Rightarrow> reading \<Rightarrow> execution_control \<Rightarrow> (driver_error + unit) select_outcome \<Rightarrow> runtime_error + unit" where
  "runtime_health_check before after control reply = await_driver before after control reply"

subsection \<open>Capabilities and protection\<close>

definition action_protection_debug :: "action_protection \<Rightarrow> string" where
  "action_protection_debug p = (case p of Standard \<Rightarrow> ''Standard'' | Protected \<Rightarrow> ''Protected'')"

definition option_debug :: "('a \<Rightarrow> string) \<Rightarrow> 'a option \<Rightarrow> string" where
  "option_debug f x = (case x of None \<Rightarrow> ''None'' | Some v \<Rightarrow> ''Some('' @ f v @ '')'')"

definition validate_capability_protections ::
  "(string \<Rightarrow> action_protection option) \<Rightarrow> action_definition list \<Rightarrow> runtime_error + unit" where
  "validate_capability_protections classify definitions =
     res_fold (\<lambda>_ d.
        let declared = classify (ad_name d) in
        if declared \<noteq> Some (ad_protection d)
        then Inl (RuntimeDriver (DriverProtocol
               (''action protection for `'' @ ad_name d @ ''` is '' @ option_debug action_protection_debug declared
                @ '', expected '' @ action_protection_debug (ad_protection d))))
        else Inr ()) () definitions"

definition runtime_capabilities ::
  "reading \<Rightarrow> reading \<Rightarrow> execution_control \<Rightarrow> (string \<Rightarrow> action_protection option) \<Rightarrow>
   (driver_error + action_definition list) select_outcome \<Rightarrow> runtime_error + action_definition list" where
  "runtime_capabilities before after control classify reply =
     res_bind (await_driver before after control reply) (\<lambda>definitions.
     res_bind (validate_capability_protections classify definitions) (\<lambda>_. Inr definitions))"

definition validated_action_protection ::
  "reading \<Rightarrow> reading \<Rightarrow> execution_control \<Rightarrow> (string \<Rightarrow> action_protection option) \<Rightarrow>
   (driver_error + action_definition list) select_outcome \<Rightarrow> string \<Rightarrow>
   runtime_error + action_protection option" where
  "validated_action_protection before after control classify reply name =
     res_bind (await_driver before after control reply) (\<lambda>definitions.
     res_bind (validate_capability_protections classify definitions) (\<lambda>_.
       case find (\<lambda>d. ad_name d = name) definitions of
         Some d \<Rightarrow> Inr (Some (ad_protection d))
       | None \<Rightarrow> Inr (classify name)))"

subsection \<open>Checks on a Driver's answer\<close>

abbreviation protocol_error :: "string \<Rightarrow> runtime_error + 'a" where
  "protocol_error message \<equiv> Inl (RuntimeDriver (DriverProtocol message))"

definition screenshot_omission_debug :: "screenshot_omission_reason \<Rightarrow> string" where
  "screenshot_omission_debug r =
     (case r of ScreenshotByPolicy \<Rightarrow> ''Policy'' | ScreenshotProtectedAction \<Rightarrow> ''ProtectedAction'')"

definition ui_omission_debug :: "ui_snapshot_omission_reason \<Rightarrow> string" where
  "ui_omission_debug r =
     (case r of UiDriverUnsupported \<Rightarrow> ''DriverUnsupported'' | UiPolicy \<Rightarrow> ''Policy''
      | UiProtectedAction \<Rightarrow> ''ProtectedAction'')"

definition expected_ui_omission :: "screenshot_omission_reason option \<Rightarrow> ui_snapshot_omission_reason option" where
  "expected_ui_omission expected =
     (case expected of
        Some ScreenshotByPolicy \<Rightarrow> Some UiPolicy
      | Some ScreenshotProtectedAction \<Rightarrow> Some UiProtectedAction
      | None \<Rightarrow> None)"

definition validate_observation_omission ::
  "observation \<Rightarrow> screenshot_omission_reason option \<Rightarrow> bool \<Rightarrow> runtime_error + unit" where
  "validate_observation_omission o1 expected ui_snapshots_enabled =
     (let expected_ui = expected_ui_omission expected in
      if ob_screenshot_omission o1 \<noteq> expected
      then protocol_error (''observation screenshot omission ''
             @ option_debug screenshot_omission_debug (ob_screenshot_omission o1)
             @ '' does not match expected '' @ option_debug screenshot_omission_debug expected)
      else if expected \<noteq> None \<and> ob_screenshot o1 \<noteq> None
      then protocol_error ''screenshot-omitted observation returned a screenshot''
      else if \<not> ui_snapshots_enabled \<and> (ob_ui_snapshot o1 \<noteq> None \<or> ob_ui_snapshot_omission o1 \<noteq> None)
      then protocol_error ''observation returned Protocol 1.5 UI Snapshot fields without operation support''
      else if \<not> ui_snapshot_state_is_valid o1
      then protocol_error ''observation returned both a UI snapshot and an omission reason''
      else if (case (expected_ui, ob_ui_snapshot_omission o1) of
                 (Some e, Some actual) \<Rightarrow> actual \<noteq> e | _ \<Rightarrow> False)
      then protocol_error (''observation UI snapshot omission ''
             @ ui_omission_debug (the (ob_ui_snapshot_omission o1))
             @ '' does not match expected '' @ ui_omission_debug (the expected_ui))
      else if expected_ui = None \<and> ob_ui_snapshot_omission o1 = Some UiProtectedAction
      then protocol_error ''observation reported a protected UI snapshot omission unexpectedly''
      else if expected_ui \<noteq> None \<and> ob_ui_snapshot o1 \<noteq> None
      then protocol_error ''UI-snapshot-omitted observation returned a UI snapshot''
      else if (case ob_ui_snapshot o1 of Some s \<Rightarrow> \<not> is_ok (ui_snapshot_ref_validate s) | None \<Rightarrow> False)
      then protocol_error ''observation returned an invalid UI snapshot reference''
      else Inr ())"

definition validate_action_result ::
  "(uuid \<Rightarrow> string) \<Rightarrow> uuid \<Rightarrow> bool \<Rightarrow> action_result \<Rightarrow> runtime_error + action_result" where
  "validate_action_result uuid_str call_id semantic_action res =
     (if rs_call_id res \<noteq> call_id
      then protocol_error (''action result call id '' @ uuid_str (rs_call_id res)
             @ '' does not match request '' @ uuid_str call_id)
      else
        (case (rs_execution res, semantic_action) of
           (Some _, False) \<Rightarrow> protocol_error ''non-semantic action returned semantic execution metadata''
         | (None, True) \<Rightarrow> protocol_error ''semantic action omitted execution metadata''
         | (Some execution, True) \<Rightarrow>
             if \<not> is_ok (action_execution_validate execution)
             then protocol_error ''semantic action returned invalid execution metadata''
             else Inr res
         | (None, False) \<Rightarrow> Inr res))"

definition validate_observation_evidence ::
  "device_runtime \<Rightarrow> driver_operation_context \<Rightarrow> session_evidence_writer \<Rightarrow> observation \<Rightarrow>
   screenshot_omission_reason option \<Rightarrow> runtime_error + unit" where
  "validate_observation_evidence rt context writer o1 expected =
     res_bind (validate_observation_omission o1 expected (dc_ui_snapshots_enabled context)) (\<lambda>_.
       if expected \<noteq> None \<and> \<not> receipts_match [] writer
       then protocol_error ''screenshot-omitted observation persisted evidence''
       else if \<not> rt_strict_evidence_receipts rt \<or> receipts_match (observation_asset_refs o1) writer
       then Inr ()
       else protocol_error ''observation evidence does not match this operation's receipts'')"

definition option_list :: "'a option \<Rightarrow> 'a list" where
  "option_list x = (case x of Some v \<Rightarrow> [v] | None \<Rightarrow> [])"

definition validate_action_evidence ::
  "device_runtime \<Rightarrow> driver_operation_context \<Rightarrow> session_evidence_writer \<Rightarrow> action_result \<Rightarrow>
   screenshot_omission_reason option \<Rightarrow> runtime_error + unit" where
  "validate_action_evidence rt context writer res expected =
     (if expected \<noteq> None \<and> rs_after res = None
      then protocol_error ''screenshot-omitted action did not return an after observation''
      else if expected = Some ScreenshotProtectedAction \<and> rs_before res = None
      then protocol_error ''protected action did not return a before observation''
      else
        res_bind
          (res_fold (\<lambda>_ o1. validate_observation_omission o1 expected (dc_ui_snapshots_enabled context)) ()
             (option_list (rs_before res) @ option_list (rs_after res))) (\<lambda>_.
          if expected \<noteq> None
          then (if rs_evidence res \<noteq> [] then protocol_error ''screenshot-omitted action returned evidence''
                else if \<not> receipts_match [] writer
                then protocol_error ''screenshot-omitted action persisted evidence''
                else Inr ())
          else if \<not> rt_strict_evidence_receipts rt \<or> receipts_match (action_result_asset_refs res) writer
          then Inr ()
          else protocol_error ''action evidence does not match this operation's receipts''))"

subsection \<open>Operations\<close>

record 's store_ops =
  so_append :: "event_id \<Rightarrow> pending_event \<Rightarrow> 's \<Rightarrow> (event_store_error + test_event) \<times> 's"
  so_reserve :: "observation_lease list \<Rightarrow> session_id \<Rightarrow> 's \<Rightarrow>
    ((event_store_error + observation_lease) \<times> 's) option"
  so_release :: "session_id \<Rightarrow> observation_lease \<Rightarrow> 's \<Rightarrow> (event_store_error + unit) \<times> 's"

record ('i, 'e) evidence_ops =
  eo_put :: "('i, 'e) store_put"
  eo_attach :: "'e store_attach"

text \<open>One Driver call: its evidence calls, and how the wait for it ends.\<close>

record ('i, 'r) driver_reply =
  dr_before :: reading
  dr_calls :: "'i writer_call list"
  dr_outcome :: "(device_operation_error + 'r) select_outcome"
  dr_after :: reading

definition run_driver ::
  "('i, 'e) evidence_ops \<Rightarrow> driver_operation_context \<Rightarrow> ('i, 'r) driver_reply \<Rightarrow> 'e \<Rightarrow>
   (runtime_error + 'r) \<times> session_evidence_writer \<times> 'e" where
  "run_driver ev context reply es =
     (case writer_run (context_put (eo_put ev) (dc_screenshot_policy context))
             (context_attach (eo_attach ev) (dc_screenshot_policy context))
             (dr_calls reply) (evidence_writer_new (dc_session_id context)) es of
        (_, writer, es') \<Rightarrow>
          (await_device_operation (dr_before reply) (dr_after reply) (dc_control context) (dr_outcome reply),
           writer, es'))"

definition OBSERVATION_RELEASE_MAX_ATTEMPTS :: nat where
  "OBSERVATION_RELEASE_MAX_ATTEMPTS = 3"

function release_observation_lease ::
  "'s store_ops \<Rightarrow> session_id \<Rightarrow> observation_lease \<Rightarrow> (nat \<Rightarrow> 's \<Rightarrow> 's) \<Rightarrow> nat \<Rightarrow> 's \<Rightarrow>
   (event_store_error + unit) \<times> 's" where
  "release_observation_lease ops sid lease others attempt st =
     (case so_release ops sid lease st of
        (Inr _, st') \<Rightarrow> (Inr (), st')
      | (Inl e, st') \<Rightarrow>
          if attempt < OBSERVATION_RELEASE_MAX_ATTEMPTS
          then release_observation_lease ops sid lease others (attempt + 1) (others attempt st')
          else (Inl e, st'))"
  by pat_completeness auto

termination
  by (relation "measure (\<lambda>(ops, sid, lease, others, attempt, st). OBSERVATION_RELEASE_MAX_ATTEMPTS - attempt)") auto

declare release_observation_lease.simps [simp del]

definition append_for ::
  "'s store_ops \<Rightarrow> device_runtime \<Rightarrow> operation_context \<Rightarrow> event_id \<times> nat \<Rightarrow> test_event_payload \<Rightarrow> 's \<Rightarrow>
   (event_store_error + test_event) \<times> 's" where
  "append_for ops rt context stamp payload st =
     so_append ops (fst stamp) (pending_for_operation context (Some (rt_driver_id rt)) (snd stamp) payload) st"

definition emit_error ::
  "'s store_ops \<Rightarrow> device_runtime \<Rightarrow> operation_context \<Rightarrow> event_id \<times> nat \<Rightarrow> error_info \<Rightarrow> 's \<Rightarrow>
   (event_store_error + unit) \<times> 's" where
  "emit_error ops rt context stamp error st =
     (case append_for ops rt context stamp (ErrorEvent error) st of
        (Inl e, st') \<Rightarrow> (Inl e, st')
      | (Inr _, st') \<Rightarrow> (Inr (), st'))"

definition omission_for_policy :: "screenshot_policy \<Rightarrow> screenshot_omission_reason option" where
  "omission_for_policy policy = (case policy of Capture \<Rightarrow> None | Omit \<Rightarrow> Some ScreenshotByPolicy)"

definition observation_operation ::
  "('i, 'e) evidence_ops \<Rightarrow> device_runtime \<Rightarrow> operation_context \<Rightarrow> ('i, observation) driver_reply \<Rightarrow> 'e \<Rightarrow>
   (runtime_error + observation) \<times> 'e" where
  "observation_operation ev rt context reply es =
     (let policy = effective_screenshot_policy (rt_screenshot_policy rt) context;
          dctx = driver_context (oc_control context) context policy
      in case run_driver ev dctx reply es of
           (answer, writer, es') \<Rightarrow>
             (res_bind answer (\<lambda>o1.
                res_bind (validate_observation_evidence rt dctx writer o1 (omission_for_policy policy))
                  (\<lambda>_. Inr o1)), es'))"

definition record_observation ::
  "'s store_ops \<Rightarrow> device_runtime \<Rightarrow> (uuid \<Rightarrow> string) \<Rightarrow> operation_context \<Rightarrow> event_id \<times> nat \<Rightarrow>
   runtime_error + observation \<Rightarrow> 's \<Rightarrow> (runtime_error + observation) \<times> 's" where
  "record_observation ops rt uuid_str context stamp operation st =
     (case operation of
        Inr o1 \<Rightarrow>
          (case append_for ops rt context stamp (ObservationCaptured o1) st of
             (Inr _, st') \<Rightarrow> (Inr o1, st')
           | (Inl e, st') \<Rightarrow> (Inl (RuntimeEventStore e), st'))
      | Inl error \<Rightarrow>
          (case emit_error ops rt context stamp (runtime_error_info uuid_str error) st of
             (Inr _, st') \<Rightarrow> (Inl error, st')
           | (Inl e, st') \<Rightarrow> (Inl (RuntimeEventStore e), st')))"

definition runtime_observe ::
  "'s store_ops \<Rightarrow> ('i, 'e) evidence_ops \<Rightarrow> device_runtime \<Rightarrow> (uuid \<Rightarrow> string) \<Rightarrow> operation_context \<Rightarrow>
   observation_lease list \<Rightarrow> ('i, observation) driver_reply \<Rightarrow> event_id \<times> nat \<Rightarrow> (nat \<Rightarrow> 's \<Rightarrow> 's) \<Rightarrow>
   's \<times> 'e \<Rightarrow> ((runtime_error + observation) \<times> 's \<times> 'e) option" where
  "runtime_observe ops ev rt uuid_str context draws reply stamp others state =
     (case state of (st, es) \<Rightarrow>
     (case so_reserve ops draws (oc_session_id context) st of
        None \<Rightarrow> None
      | Some (Inl e, st1) \<Rightarrow> Some (Inl (RuntimeEventStore e), st1, es)
      | Some (Inr lease, st1) \<Rightarrow>
          (case observation_operation ev rt context reply es of (operation, es') \<Rightarrow>
           case record_observation ops rt uuid_str context stamp operation (others 0 st1) of (res, st2) \<Rightarrow>
           case release_observation_lease ops (oc_session_id context) lease (\<lambda>n. others (n + 1)) 1
                  (others 1 st2) of
             (Inr _, st3) \<Rightarrow> Some (res, st3, es')
           | (Inl e, st3) \<Rightarrow> Some (Inl (RuntimeEventStore e), st3, es'))))"

record 'i action_run =
  xr_entry :: reading
  xr_capabilities_before :: reading
  xr_capabilities :: "(driver_error + action_definition list) select_outcome"
  xr_capabilities_after :: reading
  xr_started :: "event_id \<times> nat"
  xr_action_now :: nat
  xr_reply :: "('i, action_result) driver_reply"
  xr_completed :: "event_id \<times> nat"

definition expected_action_omission ::
  "action_protection option \<Rightarrow> screenshot_policy \<Rightarrow> screenshot_omission_reason option" where
  "expected_action_omission protection policy =
     (if protection = Some Standard then omission_for_policy policy else Some ScreenshotProtectedAction)"

definition action_operation ::
  "('i, 'e) evidence_ops \<Rightarrow> device_runtime \<Rightarrow> (uuid \<Rightarrow> string) \<Rightarrow> operation_context \<Rightarrow> action_call \<Rightarrow>
   action_protection option \<Rightarrow> nat \<Rightarrow> ('i, action_result) driver_reply \<Rightarrow> 'e \<Rightarrow>
   (runtime_error + action_result) \<times> 'e" where
  "action_operation ev rt uuid_str context call protection now reply es =
     (let control = context_execution_control now context;
          policy = effective_screenshot_policy (rt_screenshot_policy rt) context;
          expected = expected_action_omission protection policy;
          action_policy = (if expected \<noteq> None then Omit else Capture);
          dctx = driver_context control context action_policy
      in case run_driver ev dctx reply es of
           (answer, writer, es') \<Rightarrow>
             (res_bind answer (\<lambda>res.
              res_bind (validate_action_result uuid_str (ac_id call) (is_semantic_action_name (ac_name call)) res)
                (\<lambda>res. res_bind (validate_action_evidence rt dctx writer res expected) (\<lambda>_. Inr res))), es'))"

definition action_outcome_of :: "(uuid \<Rightarrow> string) \<Rightarrow> runtime_error + action_result \<Rightarrow> action_outcome" where
  "action_outcome_of uuid_str res =
     (case res of
        Inr r \<Rightarrow> ActionSucceeded r
      | Inl (RuntimeCancelled reason) \<Rightarrow>
          ActionCancelled (action_error_info uuid_str (RuntimeCancelled reason))
      | Inl (RuntimeTimedOut scope timeout_ms) \<Rightarrow>
          ActionTimedOut (action_error_info uuid_str (RuntimeTimedOut scope timeout_ms)) timeout_ms
      | Inl e \<Rightarrow> ActionFailed (runtime_error_info uuid_str e))"

definition runtime_execute ::
  "'s store_ops \<Rightarrow> ('i, 'e) evidence_ops \<Rightarrow> device_runtime \<Rightarrow> (uuid \<Rightarrow> string) \<Rightarrow>
   (string \<Rightarrow> action_protection option) \<Rightarrow> operation_context \<Rightarrow> action_call \<Rightarrow> 'i action_run \<Rightarrow>
   (nat \<Rightarrow> 's \<Rightarrow> 's) \<Rightarrow> 's \<times> 'e \<Rightarrow> (runtime_error + action_result) \<times> 's \<times> 'e" where
  "runtime_execute ops ev rt uuid_str classify context call run others state =
     (case state of (st, es) \<Rightarrow>
     (case inactive_control_error (xr_entry run) (oc_control context) of
        Some error \<Rightarrow> (Inl error, st, es)
      | None \<Rightarrow>
          if is_semantic_action_name (ac_name call)
             \<and> (\<not> oc_semantic_actions_enabled context \<or> \<not> oc_ui_snapshots_enabled context)
          then (Inl (RuntimeDriver DriverSemanticChannelUnavailable), st, es)
          else
            (case validated_action_protection (xr_capabilities_before run) (xr_capabilities_after run)
                    (oc_control context) classify (xr_capabilities run) (ac_name call) of
               Inl error \<Rightarrow> (Inl error, st, es)
             | Inr protection \<Rightarrow>
                 (case append_for ops rt context (xr_started run)
                         (ActionStarted (from_action_call call protection)) (others 0 st) of
                    (Inl e, st1) \<Rightarrow> (Inl (RuntimeEventStore e), st1, es)
                  | (Inr _, st1) \<Rightarrow>
                      (case action_operation ev rt uuid_str context call protection (xr_action_now run)
                              (xr_reply run) es of
                         (res, es') \<Rightarrow>
                           (case append_for ops rt context (xr_completed run)
                                   (ActionCompleted (ac_id call) (action_outcome_of uuid_str res))
                                   (others 1 st1) of
                              (Inl e, st2) \<Rightarrow> (Inl (RuntimeEventStore e), st2, es')
                            | (Inr _, st2) \<Rightarrow> (res, st2, es')))))))"

end
