(* ===== verification/Runtime_Store.thy ===== *)
theory Runtime_Store
  imports Runtime
begin

text \<open>
  What the runtime relies on of a \<open>SessionEventStore\<close>, as a locale, and what \<open>observe\<close> and
  \<open>execute\<close> then guarantee for every such store. The other clients of the store do anything that
  \<open>others_may\<close> allows them between two operations of the runtime; they do not know its leases.

  The first part holds for every store: it follows the Driver's answer through the checks.
\<close>

subsection \<open>Results of an operation, whatever the store\<close>

lemma classifier_is_advertised:
  "validate_capability_protections classify definitions = Inr u \<Longrightarrow> d \<in> set definitions \<Longrightarrow>
   classify (ad_name d) = Some (ad_protection d)"
  unfolding validate_capability_protections_def
  by (induction definitions) (auto simp: Let_def split: if_splits)

lemma validated_protection_is_classified:
  assumes "validated_action_protection b a control classify reply name = Inr p"
  shows "p = classify name"
proof -
  obtain definitions u where v: "validate_capability_protections classify definitions = Inr u"
    and p: "p = (case find (\<lambda>d. ad_name d = name) definitions of Some d \<Rightarrow> Some (ad_protection d)
                  | None \<Rightarrow> classify name)"
    using assms
    by (auto simp: validated_action_protection_def res_bind_eq_Inr split: option.splits)
  show ?thesis
  proof (cases "find (\<lambda>d. ad_name d = name) definitions")
    case (Some d)
    then have "d \<in> set definitions" "ad_name d = name" by (auto dest: find_SomeD)
    with classifier_is_advertised [OF v] p Some show ?thesis by auto
  qed (simp add: p)
qed

text \<open>Under \<open>Omit\<close> the writer is bound to no store: nothing is stored and no receipt is issued.\<close>

lemma omitted_run:
  "writer_run unavailable_put unavailable_attach calls w es = ([], w, es)"
proof (induction calls)
  case (Cons c calls)
  then show ?case
    by (cases c) (simp_all add: writer_put_def writer_put_with_declared_size_def writer_attach_def
        unavailable_put_def unavailable_attach_def split: sum.splits)
qed simp

lemma run_driver_omit:
  assumes "dc_screenshot_policy context = Omit" "run_driver ev context reply es = (answer, writer, es')"
  shows "es' = es" "sw_receipts writer = []"
  using assms by (auto simp: run_driver_def context_put_def context_attach_def omitted_run evidence_writer_new_def)

text \<open>What an observation looks like once the omission check has passed.\<close>

lemma observation_omission_ok:
  assumes "validate_observation_omission o1 expected ui = Inr u"
  shows "ob_screenshot_omission o1 = expected"
    and "expected \<noteq> None \<Longrightarrow> observation_asset_refs o1 = []"
    and "\<not> ui \<Longrightarrow> ob_ui_snapshot o1 = None \<and> ob_ui_snapshot_omission o1 = None"
    and "ob_ui_snapshot_omission o1 \<noteq> None \<Longrightarrow> expected \<noteq> None \<Longrightarrow>
         ob_ui_snapshot_omission o1 = expected_ui_omission expected"
    and "ob_ui_snapshot_omission o1 = Some UiProtectedAction \<Longrightarrow> expected = Some ScreenshotProtectedAction"
    and "ob_ui_snapshot o1 = Some s \<Longrightarrow> is_ok (ui_snapshot_ref_validate s)"
proof -
  note v = assms [unfolded validate_observation_omission_def Let_def]
  from v show 1: "ob_screenshot_omission o1 = expected" by (auto split: if_splits)
  have ui: "expected_ui_omission expected = None \<longleftrightarrow> expected = None"
    by (auto simp: expected_ui_omission_def split: option.splits screenshot_omission_reason.splits)
  from v ui show "observation_asset_refs o1 = []" if "expected \<noteq> None"
    using that by (auto simp: observation_asset_refs_def split: if_splits)
  from v show "ob_ui_snapshot o1 = None \<and> ob_ui_snapshot_omission o1 = None" if "\<not> ui"
    using that by (auto split: if_splits)
  from v ui show "ob_ui_snapshot_omission o1 = expected_ui_omission expected"
    if "ob_ui_snapshot_omission o1 \<noteq> None" "expected \<noteq> None"
    using that by (auto split: if_splits)
  from v show "is_ok (ui_snapshot_ref_validate s)" if "ob_ui_snapshot o1 = Some s"
    using that by (auto split: if_splits)
  from v show "expected = Some ScreenshotProtectedAction"
    if "ob_ui_snapshot_omission o1 = Some UiProtectedAction"
    using that by (auto simp: expected_ui_omission_def split: if_splits option.splits screenshot_omission_reason.splits)
qed

lemma res_fold_unit_all:
  "res_fold (\<lambda>_ x. f x) () xs = Inr u \<Longrightarrow> x \<in> set xs \<Longrightarrow> f x = Inr ()"
  by (induction xs) (auto simp: res_bind_eq_Inr)

text \<open>A successful Action that was to omit its screenshots returned no evidence at all.\<close>

lemma omitted_action_result:
  assumes "validate_action_evidence rt context writer res expected = Inr u" "expected \<noteq> None"
  shows "action_result_asset_refs res = []" "rs_after res \<noteq> None"
    and "expected = Some ScreenshotProtectedAction \<Longrightarrow> rs_before res \<noteq> None"
    and "o1 \<in> set (option_list (rs_before res) @ option_list (rs_after res)) \<Longrightarrow>
      ob_screenshot_omission o1 = expected"
proof -
  have fold: "res_fold (\<lambda>_ o1. validate_observation_omission o1 expected (dc_ui_snapshots_enabled context)) ()
      (option_list (rs_before res) @ option_list (rs_after res)) = Inr ()"
    and "rs_evidence res = []" "rs_after res \<noteq> None"
    "expected = Some ScreenshotProtectedAction \<longrightarrow> rs_before res \<noteq> None"
    using assms by (auto simp: validate_action_evidence_def res_bind_eq_Inr split: if_splits)
  note each = observation_omission_ok [OF res_fold_unit_all [OF fold]]
  then show "ob_screenshot_omission o1 = expected"
    if "o1 \<in> set (option_list (rs_before res) @ option_list (rs_after res))"
    using that by blast
  have "concat (map observation_asset_refs (option_list (rs_before res) @ option_list (rs_after res))) = []"
    using each(2) assms(2) by auto
  then show "action_result_asset_refs res = []"
    using \<open>rs_evidence res = []\<close>
    by (auto simp: action_result_asset_refs_def option_list_def split: option.splits)
  show "rs_after res \<noteq> None" by fact
  show "expected = Some ScreenshotProtectedAction \<Longrightarrow> rs_before res \<noteq> None"
    using \<open>expected = Some ScreenshotProtectedAction \<longrightarrow> rs_before res \<noteq> None\<close> by blast
qed

subsection \<open>The course of an Action\<close>

lemma execute_cases:
  assumes "runtime_execute ops ev rt uuid_str classify context call run others (st, es) = (res, st', es')"
  obtains (refused) error where "res = Inl error" "st' = st" "es' = es"
    | (not_started) e where "res = Inl (RuntimeEventStore e)" "es' = es"
        "append_for ops rt context (xr_started run)
           (ActionStarted (from_action_call call (classify (ac_name call)))) (others 0 st) = (Inl e, st')"
    | (ran) started st1 res0 where
        "append_for ops rt context (xr_started run)
           (ActionStarted (from_action_call call (classify (ac_name call)))) (others 0 st) = (Inr started, st1)"
        "action_operation ev rt uuid_str context call (classify (ac_name call)) (xr_action_now run)
           (xr_reply run) es = (res0, es')"
        "(\<exists>completed. append_for ops rt context (xr_completed run)
             (ActionCompleted (ac_id call) (action_outcome_of uuid_str res0)) (others 1 st1) = (Inr completed, st')
           \<and> res = res0)
         \<or> (\<exists>e. append_for ops rt context (xr_completed run)
             (ActionCompleted (ac_id call) (action_outcome_of uuid_str res0)) (others 1 st1) = (Inl e, st')
           \<and> res = Inl (RuntimeEventStore e))"
proof (cases "inactive_control_error (xr_entry run) (oc_control context)")
  case (Some error)
  then show ?thesis using assms by (auto simp: runtime_execute_def intro: refused)
next
  case active: None
  show ?thesis
  proof (cases "is_semantic_action_name (ac_name call)
      \<and> (\<not> oc_semantic_actions_enabled context \<or> \<not> oc_ui_snapshots_enabled context)")
    case True
    then show ?thesis using assms active by (auto simp: runtime_execute_def intro: refused)
  next
    case enabled: False
    show ?thesis
    proof (cases "validated_action_protection (xr_capabilities_before run) (xr_capabilities_after run)
        (oc_control context) classify (xr_capabilities run) (ac_name call)")
      case (Inl error)
      then show ?thesis using assms active enabled by (auto simp: runtime_execute_def intro: refused)
    next
      case (Inr p)
      note p = validated_protection_is_classified [OF Inr]
      obtain a st1 where start: "append_for ops rt context (xr_started run)
          (ActionStarted (from_action_call call (classify (ac_name call)))) (others 0 st) = (a, st1)"
        by fastforce
      note run = assms [unfolded runtime_execute_def, simplified, unfolded active Inr p]
      show ?thesis
      proof (cases a)
        case (Inl e)
        then show ?thesis using run not_started enabled start by auto
      next
        case started: (Inr started)
        obtain res0 es1 where op: "action_operation ev rt uuid_str context call (classify (ac_name call))
            (xr_action_now run) (xr_reply run) es = (res0, es1)"
          by fastforce
        obtain b st2 where finish: "append_for ops rt context (xr_completed run)
            (ActionCompleted (ac_id call) (action_outcome_of uuid_str res0)) (others 1 st1) = (b, st2)"
          by fastforce
        show ?thesis
          using run enabled start started op finish ran
          by (cases b) auto
      qed
    qed
  qed
qed

text \<open>What the Driver may leave behind when the Action is protected or its policy omits screenshots.\<close>

lemma action_operation_omitted:
  assumes "action_operation ev rt uuid_str context call protection now reply es = (res, es')"
    and "expected_action_omission protection (effective_screenshot_policy (rt_screenshot_policy rt) context) \<noteq> None"
  shows "es' = es"
    and "res = Inr r \<Longrightarrow> action_result_asset_refs r = [] \<and> rs_after r \<noteq> None \<and>
      (protection \<noteq> Some Standard \<longrightarrow> rs_before r \<noteq> None)"
proof -
  let ?expected = "expected_action_omission protection (effective_screenshot_policy (rt_screenshot_policy rt) context)"
  let ?dctx = "driver_context (context_execution_control now context) context Omit"
  obtain answer writer es1 where run: "run_driver ev ?dctx reply es = (answer, writer, es1)"
    by (metis prod_cases3)
  have op: "res = res_bind answer (\<lambda>res.
      res_bind (validate_action_result uuid_str (ac_id call) (is_semantic_action_name (ac_name call)) res)
        (\<lambda>res. res_bind (validate_action_evidence rt ?dctx writer res ?expected) (\<lambda>_. Inr res)))" "es' = es1"
    using assms run by (simp_all add: action_operation_def Let_def)
  then show "es' = es" using run_driver_omit(1) [OF _ run] by (simp add: driver_context_def)
  show "action_result_asset_refs r = [] \<and> rs_after r \<noteq> None \<and> (protection \<noteq> Some Standard \<longrightarrow> rs_before r \<noteq> None)"
    if ok: "res = Inr r"
  proof -
    obtain u where "validate_action_evidence rt ?dctx writer r ?expected = Inr u"
      using op(1) [unfolded ok, symmetric] by (auto simp: res_bind_eq_Inr)
    from omitted_action_result [OF this assms(2)] show ?thesis
      by (auto simp: expected_action_omission_def)
  qed
qed

subsection \<open>The interface of an event store\<close>

definition is_media_payload :: "test_event_payload \<Rightarrow> bool" where
  "is_media_payload p =
     (case p of MediaStreamStarted _ \<Rightarrow> True | MediaFrameCaptured _ \<Rightarrow> True
      | MediaStreamEnded _ _ \<Rightarrow> True | _ \<Rightarrow> False)"

locale session_event_store =
  fixes ops :: "'s store_ops"
    and log_of :: "session_id \<Rightarrow> 's \<Rightarrow> test_event list option"
    and open_leases :: "session_id \<Rightarrow> 's \<Rightarrow> observation_lease set"
    and okay :: "'s \<Rightarrow> bool"
    and others_may :: "observation_lease option \<Rightarrow> 's \<Rightarrow> 's \<Rightarrow> bool"
  assumes append_okay: "okay st \<Longrightarrow> so_append ops eid p st = (r, st') \<Longrightarrow> okay st'"
    and append_log: "okay st \<Longrightarrow> so_append ops eid p st = (Inr e, st') \<Longrightarrow>
      \<not> is_media_payload (pv_payload p) \<Longrightarrow>
      \<exists>events. log_of (pv_session_id p) st = Some events \<and> log_of (pv_session_id p) st' = Some (events @ [e])
        \<and> te_payload e = pv_payload p \<and> te_request_id e = pv_request_id p \<and> te_device_id e = pv_device_id p"
    and append_error: "okay st \<Longrightarrow> so_append ops eid p st = (Inl err, st') \<Longrightarrow> st' = st"
    and append_leases: "okay st \<Longrightarrow> so_append ops eid p st = (r, st') \<Longrightarrow> open_leases sid st' = open_leases sid st"
    and reserve_okay: "okay st \<Longrightarrow> so_reserve ops draws sid st = Some (Inr lease, st') \<Longrightarrow>
      okay st' \<and> lease \<in> open_leases sid st'"
    and reserve_error: "so_reserve ops draws sid st = Some (Inl err, st') \<Longrightarrow> st' = st"
    and release_open: "okay st \<Longrightarrow> lease \<in> open_leases sid st \<Longrightarrow>
      \<exists>st'. so_release ops sid lease st = (Inr (), st') \<and> okay st' \<and> lease \<notin> open_leases sid st'
        \<and> log_of sid st' = log_of sid st"
    and others_okay: "okay st \<Longrightarrow> others_may held st st' \<Longrightarrow> okay st'"
    and others_log: "okay st \<Longrightarrow> others_may held st st' \<Longrightarrow> log_of sid st = Some events \<Longrightarrow>
      log_of sid st' = None \<or> (\<exists>more. log_of sid st' = Some (events @ more))"
    and others_lease: "okay st \<Longrightarrow> others_may (Some lease) st st' \<Longrightarrow> lease \<in> open_leases sid st \<Longrightarrow>
      lease \<in> open_leases sid st'"
begin

text \<open>
  An observation releases its lease at the first attempt, whatever its outcome, and what it
  returns is what it recorded.
\<close>

lemma record_observation_effect:
  assumes "okay st" "record_observation ops rt uuid_str context stamp operation st = (res, st')"
  shows "okay st'" "open_leases sid st' = open_leases sid st"
    and "res = Inr o1 \<Longrightarrow> operation = Inr o1 \<and>
      (\<exists>events e. log_of (oc_session_id context) st' = Some (events @ [e]) \<and> te_payload e = ObservationCaptured o1
        \<and> te_device_id e = Some (rt_driver_id rt) \<and> te_request_id e = oc_request_id context)"
    and "res = Inl error \<Longrightarrow>
      (\<exists>events e. log_of (oc_session_id context) st' = Some (events @ [e])
         \<and> te_payload e = ErrorEvent (runtime_error_info uuid_str error))
      \<or> (\<exists>e. error = RuntimeEventStore e \<and> st' = st)"
proof -
  let ?p = "case operation of Inr o1 \<Rightarrow> ObservationCaptured o1
    | Inl error \<Rightarrow> ErrorEvent (runtime_error_info uuid_str error)"
  obtain a st1 where app: "append_for ops rt context stamp ?p st = (a, st1)" by fastforce
  then have so: "so_append ops (fst stamp)
      (pending_for_operation context (Some (rt_driver_id rt)) (snd stamp) ?p) st = (a, st1)"
    by (simp add: append_for_def)
  have st': "st' = st1" "res = (case a of Inr _ \<Rightarrow> operation | Inl e \<Rightarrow> Inl (RuntimeEventStore e))"
    using assms(2) app
    by (auto simp: record_observation_def emit_error_def split: sum.splits prod.splits)
  show "okay st'" "open_leases sid st' = open_leases sid st"
    using append_okay [OF assms(1) so] append_leases [OF assms(1) so] st' by auto
  have media: "\<not> is_media_payload ?p" by (simp add: is_media_payload_def split: sum.split)
  have logged: "\<exists>events e. log_of (oc_session_id context) st' = Some (events @ [e]) \<and> te_payload e = ?p
      \<and> te_device_id e = Some (rt_driver_id rt) \<and> te_request_id e = oc_request_id context"
    if "a = Inr e" for e
    using append_log [OF assms(1) so [unfolded that]] media st'(1)
    by (fastforce simp: pending_for_operation_def)
  show "operation = Inr o1 \<and>
      (\<exists>events e. log_of (oc_session_id context) st' = Some (events @ [e]) \<and> te_payload e = ObservationCaptured o1
        \<and> te_device_id e = Some (rt_driver_id rt) \<and> te_request_id e = oc_request_id context)"
    if "res = Inr o1"
    using that st'(2) logged by (cases a) auto
  show "(\<exists>events e. log_of (oc_session_id context) st' = Some (events @ [e])
         \<and> te_payload e = ErrorEvent (runtime_error_info uuid_str error))
      \<or> (\<exists>e. error = RuntimeEventStore e \<and> st' = st)"
    if "res = Inl error"
    using that st' logged append_error [OF assms(1), of "fst stamp"] so by (cases a) fastforce+
qed

lemma observe_course:
  assumes okay: "okay st"
    and reserved: "so_reserve ops draws (oc_session_id context) st = Some (Inr lease, st1)"
    and others: "\<And>n s. others_may (Some lease) s (others n s)"
  shows "\<exists>res st2 st3 es' operation.
    runtime_observe ops ev rt uuid_str context draws reply stamp others (st, es) = Some (res, st3, es')
    \<and> observation_operation ev rt context reply es = (operation, es')
    \<and> record_observation ops rt uuid_str context stamp operation (others 0 st1) = (res, st2)
    \<and> okay (others 0 st1) \<and> okay st3
    \<and> lease \<in> open_leases (oc_session_id context) (others 0 st1)
    \<and> lease \<notin> open_leases (oc_session_id context) st3
    \<and> log_of (oc_session_id context) st3 = log_of (oc_session_id context) (others 1 st2)"
proof -
  let ?sid = "oc_session_id context"
  note r = reserve_okay [OF okay reserved]
  have ok0: "okay (others 0 st1)" and l0: "lease \<in> open_leases ?sid (others 0 st1)"
    using r others_okay others_lease others by blast+
  obtain operation es' where op: "observation_operation ev rt context reply es = (operation, es')" by fastforce
  obtain res st2 where rec: "record_observation ops rt uuid_str context stamp operation (others 0 st1) = (res, st2)"
    by fastforce
  have ok2: "okay st2" and l2: "lease \<in> open_leases ?sid st2"
    using record_observation_effect(1,2) [OF ok0 rec] l0 by auto
  have ok3: "okay (others 1 st2)" and l3: "lease \<in> open_leases ?sid (others 1 st2)"
    using others_okay [OF ok2] others_lease [OF ok2] l2 others by blast+
  obtain st3 where "so_release ops ?sid lease (others 1 st2) = (Inr (), st3)" "okay st3"
    "lease \<notin> open_leases ?sid st3" "log_of ?sid st3 = log_of ?sid (others 1 st2)"
    using release_open [OF ok3 l3] by blast
  then show ?thesis
    using op rec reserved ok0 l0
    by (simp add: runtime_observe_def release_observation_lease.simps [where attempt = "Suc 0"])
qed

text \<open>An Action that started records its start and its outcome, in this order, and returns that outcome.\<close>

lemma execute_course:
  assumes "okay st" and others: "\<And>n s. others_may None s (others n s)"
    and run: "runtime_execute ops ev rt uuid_str classify context call run others (st, es) = (res, st', es')"
    and no_store_error: "\<And>e. res \<noteq> Inl (RuntimeEventStore e)" and "st' \<noteq> st"
  shows "\<exists>before started between completed.
      log_of (oc_session_id context) st' = Some (before @ started # between @ [completed])
    \<and> te_payload started = ActionStarted (from_action_call call (classify (ac_name call)))
    \<and> te_payload completed = ActionCompleted (ac_id call) (action_outcome_of uuid_str res)
    \<and> te_request_id completed = te_request_id started \<and> te_device_id completed = te_device_id started"
  using run
proof (cases rule: execute_cases)
  case (ran started st1 res0)
  let ?sid = "oc_session_id context"
  have ok0: "okay (others 0 st)" using others_okay [OF assms(1)] others by blast
  from append_log [OF ok0 ran(1) [unfolded append_for_def]] obtain before where
    s: "log_of ?sid st1 = Some (before @ [started])"
      "te_payload started = ActionStarted (from_action_call call (classify (ac_name call)))"
      "te_request_id started = oc_request_id context" "te_device_id started = Some (rt_driver_id rt)"
    by (auto simp: pending_for_operation_def is_media_payload_def)
  have ok1: "okay st1" using append_okay [OF ok0 ran(1) [unfolded append_for_def]] .
  have ok2: "okay (others 1 st1)" using others_okay [OF ok1] others by blast
  from ran(3) no_store_error obtain completed where
    c: "append_for ops rt context (xr_completed run)
      (ActionCompleted (ac_id call) (action_outcome_of uuid_str res0)) (others 1 st1) = (Inr completed, st')"
      "res = res0"
    by auto
  from append_log [OF ok2 c(1) [unfolded append_for_def]] obtain events where
    e: "log_of ?sid (others 1 st1) = Some events" "log_of ?sid st' = Some (events @ [completed])"
      "te_payload completed = ActionCompleted (ac_id call) (action_outcome_of uuid_str res0)"
      "te_request_id completed = oc_request_id context" "te_device_id completed = Some (rt_driver_id rt)"
    by (auto simp: pending_for_operation_def is_media_payload_def)
  from others_log [OF ok1 others s(1), of 1] e(1) obtain more where "events = (before @ [started]) @ more"
    by auto
  then have "log_of ?sid st' = Some (before @ started # more @ [completed])" using e(2) by simp
  then show ?thesis
    using s e c(2)
    by (intro exI [of _ before] exI [of _ started] exI [of _ more] exI [of _ completed]) simp
qed (use assms in auto)

end

end
