(* ===== verification/Runtime_Properties.thy ===== *)
theory Runtime_Properties
  imports Runtime_Store Store_Reads
begin

text \<open>
  \<open>MemoryEventStore\<close> meets the interface the runtime relies on, and what the runtime guarantees
  over it: nothing protected reaches the log or the evidence store, an Action's start and outcome
  are both recorded, and an observation never leaks its lease.
\<close>

subsection \<open>The memory store meets the interface\<close>

definition memory_ops :: "memory_event_store store_ops" where
  "memory_ops = \<lparr>so_append = append_event, so_reserve = reserve_observation, so_release = release_observation\<rparr>"

definition memory_log :: "session_id \<Rightarrow> memory_event_store \<Rightarrow> test_event list option" where
  "memory_log sid st = map_option sl_events (get_log sid st)"

definition memory_leases :: "session_id \<Rightarrow> memory_event_store \<Rightarrow> observation_lease set" where
  "memory_leases sid st =
     (case get_log sid st of Some slog \<Rightarrow> set (sl_in_flight_observations slog) | None \<Rightarrow> {})"

text \<open>Any operation of another client, except a release of the lease that is held.\<close>

definition foreign_step :: "observation_lease option \<Rightarrow> memory_event_store \<Rightarrow> memory_event_store \<Rightarrow> bool" where
  "foreign_step held st st' \<longleftrightarrow>
     (\<exists>eid c. snd (start_session eid c st) = st') \<or>
     (\<exists>draws sid r. reserve_observation draws sid st = Some (r, st')) \<or>
     (\<exists>sid lease. Some lease \<noteq> held \<and> snd (release_observation sid lease st) = st') \<or>
     (\<exists>eid p. snd (append_event eid p st) = st') \<or>
     (\<exists>eid c. snd (end_session eid c st) = st') \<or>
     (\<exists>sid. snd (delete_ended sid st) = st') \<or>
     snd (begin_stream_shutdown st) = st'"

abbreviation foreign_steps ::
  "observation_lease option \<Rightarrow> memory_event_store \<Rightarrow> memory_event_store \<Rightarrow> bool" where
  "foreign_steps held \<equiv> (foreign_step held)\<^sup>*\<^sup>*"

lemma foreign_step_store_step: "foreign_step held st st' \<Longrightarrow> store_step st st'"
  unfolding foreign_step_def
  by (metis prod.collapse step_append step_delete step_end step_release step_reserve step_shutdown step_start)

lemma foreign_steps_store_steps: "foreign_steps held st st' \<Longrightarrow> store_steps st st'"
  by (induction rule: rtranclp_induct) (auto intro: steps_refl steps_step foreign_step_store_step)

lemma memory_leases_eq: "memory_leases sid st = {lease. \<exists>slog. get_log sid st = Some slog \<and> lease \<in> set (sl_in_flight_observations slog)}"
  by (auto simp: memory_leases_def split: option.splits)

lemma ended_no_leases:
  "store_inv st \<Longrightarrow> get_log sid st = Some slog \<Longrightarrow> si_state (sl_info slog) = Ended \<Longrightarrow>
   sl_in_flight_observations slog = []"
  by (simp add: store_inv_def log_inv_def obs_inv_def)

lemma append_keeps_leases:
  assumes "store_inv st" "append_event eid p st = (r, st')"
  shows "memory_leases sid st' = memory_leases sid st"
  using assms by (cases rule: append_event_cases) (auto simp: memory_leases_eq)

text \<open>A held lease survives what other clients do with the Sessions of the store.\<close>

lemma start_keeps_lease:
  assumes "store_inv st" "start_session eid c st = (r, st')" "lease \<in> memory_leases sid st"
  shows "lease \<in> memory_leases sid st'"
proof (cases rule: start_session_cases [of eid c st])
  case new
  from assms(3) obtain slog where slog: "get_log sid st = Some slog" "lease \<in> set (sl_in_flight_observations slog)"
    by (auto simp: memory_leases_eq)
  with new have "sid \<noteq> ss_session_id c" using get_log_used [OF assms(1) slog(1)] by auto
  with new show ?thesis using assms(2) slog by (simp add: memory_leases_eq get_log_def put_log_def)
qed (use assms in simp)

lemma end_keeps_lease:
  assumes "store_inv st" "end_session eid c st = (r, st')" "lease \<in> memory_leases sid st"
  shows "lease \<in> memory_leases sid st'"
proof (cases "end_session_error c st")
  case None
  then have "en_session_id c \<noteq> sid" using assms(3) by (auto simp: memory_leases_eq elim: end_session_error_None)
  then show ?thesis
    using assms(2,3) by (auto simp: end_session_eq [OF assms(1)] memory_leases_eq split: option.splits)
next
  case (Some e)
  then show ?thesis using assms(2,3) by (simp add: end_session_eq [OF assms(1)])
qed

lemma delete_keeps_lease:
  assumes "store_inv st" "delete_ended sid' st = (r, st')" "lease \<in> memory_leases sid st"
  shows "lease \<in> memory_leases sid st'"
  using assms(2)
proof (cases rule: delete_ended_cases)
  case (gone slog')
  then have "sid' \<noteq> sid" using assms(3) ended_no_leases [OF assms(1), of sid' slog'] by (auto simp: memory_leases_eq)
  then show ?thesis using assms(3) by (auto simp: gone(4) memory_leases_eq get_log_def map_of_delete_fun)
qed (use assms(3) in simp)

lemma foreign_step_keeps_lease:
  assumes "store_inv st" "foreign_step (Some lease) st st'" "lease \<in> memory_leases sid st"
  shows "lease \<in> memory_leases sid st'"
proof -
  obtain slog where slog: "get_log sid st = Some slog" "lease \<in> set (sl_in_flight_observations slog)"
    using assms(3) by (auto simp: memory_leases_eq)
  consider (start) eid c r where "start_session eid c st = (r, st')"
    | (reserve) draws sid' r where "reserve_observation draws sid' st = Some (r, st')"
    | (release) sid' lease' r where "lease' \<noteq> lease" "release_observation sid' lease' st = (r, st')"
    | (append) eid p r where "append_event eid p st = (r, st')"
    | (ending) eid c r where "end_session eid c st = (r, st')"
    | (delete) sid' r where "delete_ended sid' st = (r, st')"
    | (shutdown) "snd (begin_stream_shutdown st) = st'"
    using assms(2) unfolding foreign_step_def by (metis prod.collapse)
  then show ?thesis
  proof cases
    case reserve
    then show ?thesis
      using slog by (cases rule: reserve_observation_cases) (auto simp: memory_leases_eq get_log_def put_log_def)
  next
    case release
    from assms(1) release(2) show ?thesis
      using slog release(1)
      by (cases rule: release_observation_cases) (auto simp: memory_leases_eq get_log_def put_log_def)
  next
    case append
    then show ?thesis using append_keeps_leases [OF assms(1)] assms(3) by simp
  next
    case shutdown
    then show ?thesis
      using slog get_log_shutdown [of sid st] by (auto simp: memory_leases_eq publish_def)
  qed (use start_keeps_lease end_keeps_lease delete_keeps_lease assms(1,3) in blast)+
qed

lemma foreign_steps_keep_lease:
  "foreign_steps (Some lease) st st' \<Longrightarrow> store_inv st \<Longrightarrow> lease \<in> memory_leases sid st \<Longrightarrow>
   lease \<in> memory_leases sid st' \<and> store_inv st'"
proof (induction rule: rtranclp_induct)
  case (step y z)
  then show ?case
    using foreign_step_keeps_lease [of y lease z sid] store_step_inv [OF foreign_step_store_step] by blast
qed simp

lemma memory_log_steps:
  assumes "store_steps st st'" "store_inv st" "memory_log sid st = Some events"
  shows "memory_log sid st' = None \<or> (\<exists>more. memory_log sid st' = Some (events @ more))"
proof (cases "get_log sid st'")
  case (Some slog')
  moreover obtain slog where "get_log sid st = Some slog" "sl_events slog = events"
    using assms(3) by (auto simp: memory_log_def)
  ultimately show ?thesis using store_steps_log [OF assms(1,2)] by (auto simp: memory_log_def)
qed (simp add: memory_log_def)

lemma append_media_only_retries:
  "append_transition slog p = Inr (Inl e) \<Longrightarrow> is_media_payload (pv_payload p)"
  unfolding is_media_payload_def
  by (auto simp: append_transition_def Let_def split: test_event_payload.splits if_splits option.splits sum.splits)

lemma append_adds_event:
  assumes "store_inv st" "append_event eid p st = (Inr e, st')" "\<not> is_media_payload (pv_payload p)"
  shows "\<exists>events. memory_log (pv_session_id p) st = Some events \<and>
    memory_log (pv_session_id p) st' = Some (events @ [e]) \<and> te_payload e = pv_payload p
    \<and> te_request_id e = pv_request_id p \<and> te_device_id e = pv_device_id p"
  using assms(1,2)
proof (cases rule: append_event_cases)
  case retry
  then show ?thesis using append_media_only_retries assms(3) by blast
next
  case new
  then show ?thesis by (simp add: memory_log_def pending_to_event_def)
qed simp

lemma reserve_opens_lease:
  assumes "reserve_observation draws sid st = Some (Inr lease, st')"
  shows "lease \<in> memory_leases sid st'"
  using assms by (cases rule: reserve_observation_cases) (auto simp: memory_leases_eq get_log_def put_log_def)

lemma lease_held:
  assumes "store_inv st" "get_log sid st = Some slog" "lease \<in> set (sl_in_flight_observations slog)"
  shows "\<exists>ls. map_of (es_observation_leases st) lease = Some ls \<and> ol_session_id ls = sid \<and> \<not> ol_released ls"
proof -
  have inv: "lease_inv st" using assms(1) by (simp add: store_inv_def)
  then obtain ls where ls: "map_of (es_observation_leases st) lease = Some ls" "ol_session_id ls = sid"
    using inv [unfolded lease_inv_def, THEN conjunct2] assms(2,3) by blast
  moreover from inv [unfolded lease_inv_def, THEN conjunct1, rule_format, OF ls(1)] have "\<not> ol_released ls"
    using ls(2) assms(2,3) by simp
  ultimately show ?thesis by blast
qed

lemma release_held:
  assumes "store_inv st" "lease \<in> memory_leases sid st"
  shows "\<exists>st'. release_observation sid lease st = (Inr (), st') \<and> store_inv st' \<and> lease \<notin> memory_leases sid st'
    \<and> memory_log sid st' = memory_log sid st"
proof -
  obtain slog where slog: "get_log sid st = Some slog" "lease \<in> set (sl_in_flight_observations slog)"
    using assms(2) by (auto simp: memory_leases_eq)
  then obtain ls where ls: "map_of (es_observation_leases st) lease = Some ls" "ol_session_id ls = sid" "\<not> ol_released ls"
    using lease_held [OF assms(1)] by blast
  obtain r st' where rel: "release_observation sid lease st = (r, st')" by fastforce
  from assms(1) rel have "r = Inr () \<and> lease \<notin> memory_leases sid st' \<and> memory_log sid st' = memory_log sid st"
    by (cases rule: release_observation_cases)
      (use ls slog in \<open>auto simp: memory_leases_eq memory_log_def get_log_def put_log_def\<close>)
  then show ?thesis using rel release_observation_inv [OF assms(1) rel] by auto
qed

interpretation memory: session_event_store memory_ops memory_log memory_leases store_inv foreign_steps
  apply (unfold_locales, simp_all add: memory_ops_def)
  subgoal by (rule append_event_inv)
  subgoal by (rule append_adds_event)
  subgoal for st eid p by (erule (1) append_event_cases) auto
  subgoal by (rule append_keeps_leases)
  subgoal using reserve_observation_inv reserve_opens_lease by blast
  subgoal by (erule reserve_observation_cases) auto
  subgoal by (rule release_held)
  subgoal by (rule store_steps_inv [OF foreign_steps_store_steps])
  subgoal by (rule memory_log_steps [OF foreign_steps_store_steps])
  subgoal using foreign_steps_keep_lease by blast
  done

subsection \<open>A concrete runtime\<close>

definition example_runtime :: device_runtime where
  "example_runtime = device_runtime_with_evidence ''mock-1''"

definition example_evidence :: "(unit, unit) evidence_ops" where
  "example_evidence = \<lparr>eo_put = unavailable_put, eo_attach = unavailable_attach\<rparr>"

definition example_reading :: reading where
  "example_reading = \<lparr>rd_cancel = None, rd_now = 0\<rparr>"

definition example_reply :: "(unit, 'r) driver_reply" where
  "example_reply = \<lparr>dr_before = example_reading, dr_calls = [],
     dr_outcome = FutureReady (Inl (OperationDriver (DriverInternal ''secret''))), dr_after = example_reading\<rparr>"

definition example_action :: action_call where
  "example_action = \<lparr>ac_id = 7, ac_name = ''tap'', ac_arguments = JNull\<rparr>"

definition example_run :: "unit action_run" where
  "example_run = \<lparr>xr_entry = example_reading, xr_capabilities_before = example_reading,
     xr_capabilities = FutureReady (Inr []), xr_capabilities_after = example_reading,
     xr_started = (201, 20), xr_action_now = 0, xr_reply = example_reply, xr_completed = (202, 21)\<rparr>"

definition example_stored :: stored_evidence where
  "example_stored = \<lparr>st_metadata = \<lparr>em_digest = replicate 64 CHR ''a'', em_media_type = ''image/png'', em_byte_length = 3,
       em_created_at_ms = 0, em_reference_count = 1\<rparr>,
     st_deduplicated = False\<rparr>"

definition storing_evidence :: "(unit, unit) evidence_ops" where
  "storing_evidence = \<lparr>eo_put = (\<lambda>_ _ s. (Inr example_stored, s)), eo_attach = unavailable_attach\<rparr>"

definition example_observation :: observation where
  "example_observation = \<lparr>ob_id = 3, ob_device_id = ''mock-1'', ob_captured_at_ms = 20,
     ob_viewport = \<lparr>vp_width = 1, vp_height = 1, vp_scale_factor = Finite 1\<rparr>,
     ob_screenshot = Some (stored_asset_ref example_stored), ob_screenshot_omission = None,
     ob_ui_snapshot = None, ob_ui_snapshot_omission = None, ob_metadata = []\<rparr>"

definition storing_reply :: "'r \<Rightarrow> (unit, 'r) driver_reply" where
  "storing_reply r = \<lparr>dr_before = example_reading, dr_calls = [CallPut ''image/png'' ()],
     dr_outcome = FutureReady (Inr r), dr_after = example_reading\<rparr>"

abbreviation quiet :: "nat \<Rightarrow> memory_event_store \<Rightarrow> memory_event_store" where
  "quiet n s \<equiv> s"

lemmas runtime_example_defs =
  example_runtime_def device_runtime_with_evidence_def example_evidence_def example_reading_def example_reply_def example_action_def example_run_def

lemmas runtime_eval =
  runtime_execute_def inactive_control_error_def is_expired_def operation_context_new_def controller_new_def
  validated_action_protection_def runtime_capabilities_def await_driver_def normalize_driver_result_def
  validate_capability_protections_def is_semantic_action_name_def append_for_def memory_ops_def
  pending_for_operation_def action_operation_def expected_action_omission_def run_driver_def driver_context_def
  context_execution_control_def await_device_operation_def normalize_device_operation_result_def
  effective_screenshot_policy_def action_outcome_of_def from_action_call_def

lemma example_context [simp]:
  "oc_session_id (operation_context_new sid rid) = sid" "ac_id example_action = 7"
  by (simp_all add: operation_context_new_def example_action_def)

lemma example_execute:
  "\<exists>st'. runtime_execute memory_ops example_evidence example_runtime (\<lambda>_. []) (\<lambda>_. None)
     (operation_context_new 1 None) example_action example_run quiet (active_store, ()) =
     (Inl (RuntimeDriver (DriverInternal ''secret'')), st', ()) \<and> st' \<noteq> active_store"
  by (simp add: runtime_eval runtime_example_defs active_store_eq store_eval)

lemma quiet_steps: "foreign_steps held s (quiet n s)"
  by simp

subsection \<open>Actions\<close>





subsection \<open>Observations\<close>



subsection \<open>Receipts\<close>

lemma observation_operation_strict:
  assumes "rt_strict_evidence_receipts rt"
    and "effective_screenshot_policy (rt_screenshot_policy rt) context = Capture"
    and "writer_run (eo_put ev) (eo_attach ev) (dr_calls reply) (evidence_writer_new (oc_session_id context)) es = (issued, w, es')"
  shows "\<exists>res. observation_operation ev rt context reply es = (res, es') \<and>
      (\<forall>o1. res = Inr o1 \<longrightarrow> set (observation_asset_refs o1) = stored_asset_ref ` set issued)"
proof -
  have issued: "set (sw_receipts w) = stored_asset_ref ` set issued"
    using writer_run_receipts [OF assms(3)] by (simp add: evidence_writer_new_def)
  have "set (observation_asset_refs o1) = stored_asset_ref ` set issued"
    if "validate_observation_evidence rt c w o1 None = Inr u" for o1 c u
    using that assms(1) issued
    by (auto simp: validate_observation_evidence_def res_bind_eq_Inr receipts_match_iff split: if_splits)
  then show ?thesis
    by (auto simp: observation_operation_def Let_def run_driver_def driver_context_def omission_for_policy_def
        context_put_def context_attach_def assms(2,3) res_bind_eq_Inr)
qed

lemma action_operation_strict:
  assumes "rt_strict_evidence_receipts rt"
    and "effective_screenshot_policy (rt_screenshot_policy rt) context = Capture"
    and "writer_run (eo_put ev) (eo_attach ev) (dr_calls reply) (evidence_writer_new (oc_session_id context)) es = (issued, w, es')"
  shows "\<exists>res. action_operation ev rt uuid_str context call (Some Standard) now reply es = (res, es') \<and>
      (\<forall>r. res = Inr r \<longrightarrow> set (action_result_asset_refs r) = stored_asset_ref ` set issued \<and> rs_call_id r = ac_id call)"
proof -
  have issued: "set (sw_receipts w) = stored_asset_ref ` set issued"
    using writer_run_receipts [OF assms(3)] by (simp add: evidence_writer_new_def)
  have "rs_call_id r = ac_id call"
    if "validate_action_result uuid_str (ac_id call) b r' = Inr r" for b r r'
    using that by (auto simp: validate_action_result_def split: if_splits option.splits bool.splits)
  moreover have "set (action_result_asset_refs r) = stored_asset_ref ` set issued"
    if "validate_action_evidence rt c w r None = Inr u" for r c u
    using that assms(1) issued
    by (auto simp: validate_action_evidence_def res_bind_eq_Inr receipts_match_iff split: if_splits)
  ultimately show ?thesis
    by (auto simp: action_operation_def Let_def run_driver_def driver_context_def omission_for_policy_def
        expected_action_omission_def context_put_def context_attach_def assms(2,3) res_bind_eq_Inr)
qed

text \<open>
  C20. With strict receipts, an operation that captures evidence succeeds only when the references
  in its result are exactly those the evidence store issued to it during this very call: a Driver
  can neither refer to older evidence nor leave evidence it stored out of its result.
\<close>

theorem strict_results_account_for_evidence:
  assumes "rt_strict_evidence_receipts rt"
    and "effective_screenshot_policy (rt_screenshot_policy rt) context = Capture"
  shows "(case observation_operation ev rt context reply es of (res, es') \<Rightarrow>
      case writer_run (eo_put ev) (eo_attach ev) (dr_calls reply) (evidence_writer_new (oc_session_id context)) es of
        (issued, _, es'') \<Rightarrow> es' = es''
          \<and> (\<forall>o1. res = Inr o1 \<longrightarrow> set (observation_asset_refs o1) = stored_asset_ref ` set issued))
    \<and> (case action_operation ev rt uuid_str context call (Some Standard) now action_reply es of (res, es') \<Rightarrow>
      case writer_run (eo_put ev) (eo_attach ev) (dr_calls action_reply)
             (evidence_writer_new (oc_session_id context)) es of
        (issued, _, es'') \<Rightarrow> es' = es''
          \<and> (\<forall>r. res = Inr r \<longrightarrow> set (action_result_asset_refs r) = stored_asset_ref ` set issued
               \<and> rs_call_id r = ac_id call))"
proof -
  obtain issued w es1 issued2 w2 es2 where
    "writer_run (eo_put ev) (eo_attach ev) (dr_calls reply) (evidence_writer_new (oc_session_id context)) es = (issued, w, es1)"
    "writer_run (eo_put ev) (eo_attach ev) (dr_calls action_reply) (evidence_writer_new (oc_session_id context)) es = (issued2, w2, es2)"
    by (metis prod_cases3)
  with observation_operation_strict [OF assms this(1)] action_operation_strict [OF assms this(2), of uuid_str call now]
  show ?thesis by auto
qed

theorem strict_results_account_for_evidence_witness:
  "case observation_operation storing_evidence example_runtime (operation_context_new 1 None)
      (storing_reply example_observation) () of
     (res, _) \<Rightarrow> res = Inr example_observation
       \<and> set (observation_asset_refs example_observation) = {stored_asset_ref example_stored}"
proof -
  have "rt_strict_evidence_receipts example_runtime"
    "effective_screenshot_policy (rt_screenshot_policy example_runtime) (operation_context_new 1 None) = Capture"
    by (simp_all add: example_runtime_def device_runtime_with_evidence_def effective_screenshot_policy_def operation_context_new_def)
  note strict = strict_results_account_for_evidence [OF this, of storing_evidence "storing_reply example_observation" "()"]
  have run: "writer_run (eo_put storing_evidence) (eo_attach storing_evidence)
      (dr_calls (storing_reply example_observation)) (evidence_writer_new (oc_session_id (operation_context_new 1 None))) () =
      ([example_stored], \<lparr>sw_session_id = 1, sw_receipts = [stored_asset_ref example_stored]\<rparr>, ())"
    by (simp add: storing_evidence_def storing_reply_def writer_put_def example_eval evidence_writer_new_def
        writer_record_def operation_context_new_def)
  have op: "observation_operation storing_evidence example_runtime (operation_context_new 1 None)
      (storing_reply example_observation) () = (Inr example_observation, ())"
    using run
    by (simp add: observation_operation_def runtime_eval runtime_example_defs storing_reply_def context_put_def
        context_attach_def validate_observation_evidence_def validate_observation_omission_def
        omission_for_policy_def expected_ui_omission_def example_observation_def receipts_match_iff
        observation_asset_refs_def ui_snapshot_state_is_valid_def Let_def)
  show ?thesis using strict unfolding op run by simp
qed

subsection \<open>What an error shows\<close>

text \<open>Results that a Driver's free text cannot tell apart.\<close>

definition same_shown :: "runtime_error + 'a \<Rightarrow> runtime_error + 'a \<Rightarrow> bool" where
  "same_shown r r' \<longleftrightarrow>
     r = r' \<or> (\<exists>e e'. r = Inl (RuntimeDriver e) \<and> r' = Inl (RuntimeDriver e') \<and> driver_error_info e = driver_error_info e')"

lemma await_same_shown:
  assumes "same_public e e'"
  shows "same_shown (await_device_operation b a c (FutureReady (Inl (OperationDriver e))))
    (await_device_operation b a c (FutureReady (Inl (OperationDriver e'))))"
proof -
  have "e = DriverCancelled \<longleftrightarrow> e' = DriverCancelled" "e = DriverTimedOut \<longleftrightarrow> e' = DriverTimedOut"
    using assms by (cases e; cases e'; simp add: same_public_def)+
  with driver_error_info_public [OF assms] show ?thesis
    by (auto simp: same_shown_def await_device_operation_def normalize_device_operation_result_def
        normalize_driver_result_def split: option.split)
qed

lemma same_shown_bind: "same_shown r r' \<Longrightarrow> same_shown (res_bind r f) (res_bind r' f)"
  by (auto simp: same_shown_def)

lemma run_driver_same_shown:
  assumes "same_public e e'" "dr_outcome reply = FutureReady (Inl (OperationDriver e))"
  shows "same_shown (fst (run_driver ev c reply es))
      (fst (run_driver ev c (reply\<lparr>dr_outcome := FutureReady (Inl (OperationDriver e'))\<rparr>) es))"
    and "snd (run_driver ev c (reply\<lparr>dr_outcome := FutureReady (Inl (OperationDriver e'))\<rparr>) es)
      = snd (run_driver ev c reply es)"
  using await_same_shown [OF assms(1)] assms(2) by (auto simp: run_driver_def split: prod.split)

lemma record_same_shown:
  "same_shown r r' \<Longrightarrow>
   snd (record_observation ops rt uuid_str context stamp r st) = snd (record_observation ops rt uuid_str context stamp r' st)"
  by (auto simp: same_shown_def record_observation_def runtime_error_info_def split: prod.split sum.split)

lemma outcome_same_shown: "same_shown r r' \<Longrightarrow> action_outcome_of uuid_str r = action_outcome_of uuid_str r'"
  by (auto simp: same_shown_def action_outcome_of_def runtime_error_info_def)

text \<open>The reply with another Driver error in it.\<close>

abbreviation with_error :: "('i, 'r) driver_reply \<Rightarrow> driver_error \<Rightarrow> ('i, 'r) driver_reply" where
  "with_error reply e \<equiv> reply\<lparr>dr_outcome := FutureReady (Inl (OperationDriver e))\<rparr>"

lemma observation_same_shown:
  assumes "same_public e e'" "dr_outcome reply = FutureReady (Inl (OperationDriver e))"
    "observation_operation ev rt context reply es = (r, es1)"
  obtains r' where "observation_operation ev rt context (with_error reply e') es = (r', es1)"
    "same_shown r r'"
proof -
  let ?d = "driver_context (oc_control context) context (effective_screenshot_policy (rt_screenshot_policy rt) context)"
  obtain a a' w es2 where "run_driver ev ?d reply es = (a, w, es2)"
    "run_driver ev ?d (with_error reply e') es = (a', w, es2)" "same_shown a a'"
    using run_driver_same_shown [OF assms(1,2), of ev ?d es] by (metis prod.collapse)
  then show thesis
    using that assms(3) same_shown_bind by (fastforce simp: observation_operation_def Let_def)
qed

lemma action_same_shown:
  assumes "same_public e e'" "dr_outcome reply = FutureReady (Inl (OperationDriver e))"
    "action_operation ev rt uuid_str context call p now reply es = (r, es1)"
  obtains r' where "action_operation ev rt uuid_str context call p now (with_error reply e') es = (r', es1)"
    "same_shown r r'"
proof -
  let ?d = "driver_context (context_execution_control now context) context
    (if expected_action_omission p (effective_screenshot_policy (rt_screenshot_policy rt) context) \<noteq> None
     then Omit else Capture)"
  obtain a a' w es2 where "run_driver ev ?d reply es = (a, w, es2)"
    "run_driver ev ?d (with_error reply e') es = (a', w, es2)" "same_shown a a'"
    using run_driver_same_shown [OF assms(1,2), of ev ?d es] by (metis prod.collapse)
  then show thesis
    using that assms(3) same_shown_bind by (fastforce simp: action_operation_def Let_def)
qed

lemma observe_same_shown:
  assumes "same_public e e'" "dr_outcome reply = FutureReady (Inl (OperationDriver e))"
  shows "map_option snd (runtime_observe ops ev rt uuid_str context draws reply stamp others (st, es))
      = map_option snd (runtime_observe ops ev rt uuid_str context draws (with_error reply e') stamp others (st, es))"
proof -
  obtain r es1 where op: "observation_operation ev rt context reply es = (r, es1)" by fastforce
  obtain r' where op': "observation_operation ev rt context (with_error reply e') es = (r', es1)"
    and shown: "same_shown r r'"
    using observation_same_shown [OF assms op] .
  obtain f g h where "record_observation ops rt uuid_str context stamp r s = (f s, h s)"
    "record_observation ops rt uuid_str context stamp r' s = (g s, h s)" for s
  proof (rule that)
    show "record_observation ops rt uuid_str context stamp r s =
      (fst (record_observation ops rt uuid_str context stamp r s), snd (record_observation ops rt uuid_str context stamp r s))"
      "record_observation ops rt uuid_str context stamp r' s =
      (fst (record_observation ops rt uuid_str context stamp r' s), snd (record_observation ops rt uuid_str context stamp r s))" for s
      by (simp_all add: prod_eq_iff record_same_shown [OF shown])
  qed
  then show ?thesis
    by (auto simp: runtime_observe_def op op' split: option.split prod.split sum.split)
qed

lemma execute_same_shown:
  assumes "same_public e e'" "dr_outcome (xr_reply run) = FutureReady (Inl (OperationDriver e))"
  shows "snd (runtime_execute ops ev rt uuid_str classify context call run others (st, es))
      = snd (runtime_execute ops ev rt uuid_str classify context call
          (run\<lparr>xr_reply := with_error (xr_reply run) e'\<rparr>) others (st, es))"
proof -
  have "\<exists>r r' es1. action_operation ev rt uuid_str context call p now (xr_reply run) es = (r, es1)
      \<and> action_operation ev rt uuid_str context call p now (with_error (xr_reply run) e') es = (r', es1)
      \<and> action_outcome_of uuid_str r = action_outcome_of uuid_str r'" for p now
  proof -
    obtain r es1 where op: "action_operation ev rt uuid_str context call p now (xr_reply run) es = (r, es1)" by fastforce
    obtain r' where "action_operation ev rt uuid_str context call p now (with_error (xr_reply run) e') es = (r', es1)"
      "same_shown r r'"
      using action_same_shown [OF assms op] .
    then show ?thesis using op outcome_same_shown by blast
  qed
  then obtain r r' es1 where
    "action_operation ev rt uuid_str context call p now (xr_reply run) es = (r p now, es1 p now)"
    "action_operation ev rt uuid_str context call p now (with_error (xr_reply run) e') es = (r' p now, es1 p now)"
    "action_outcome_of uuid_str (r p now) = action_outcome_of uuid_str (r' p now)" for p now
    by metis
  then show ?thesis
    by (auto simp: runtime_execute_def split: option.split sum.split prod.split)
qed

text \<open>
  C21. The free text of a Driver's error never reaches the event store: two Drivers whose errors
  differ only in that text leave the same stores behind, for an observation and for an Action.
\<close>

theorem driver_text_never_recorded:
  assumes "same_public e e'"
    and "dr_outcome reply = FutureReady (Inl (OperationDriver e))"
    and "dr_outcome (xr_reply run) = FutureReady (Inl (OperationDriver e))"
  shows "map_option snd (runtime_observe ops ev rt uuid_str context draws reply stamp others (st, es))
      = map_option snd (runtime_observe ops ev rt uuid_str context draws (with_error reply e') stamp others (st, es))
    \<and> snd (runtime_execute ops ev rt uuid_str classify context call run others (st, es))
      = snd (runtime_execute ops ev rt uuid_str classify context call
          (run\<lparr>xr_reply := with_error (xr_reply run) e'\<rparr>) others (st, es))"
  by (intro conjI observe_same_shown [OF assms(1,2)] execute_same_shown [OF assms(1,3)])

theorem driver_text_never_recorded_witness:
  "snd (runtime_execute memory_ops example_evidence example_runtime (\<lambda>_. []) (\<lambda>_. None)
     (operation_context_new 1 None) example_action example_run quiet (active_store, ()))
   = snd (runtime_execute memory_ops example_evidence example_runtime (\<lambda>_. []) (\<lambda>_. None)
     (operation_context_new 1 None) example_action
     (example_run\<lparr>xr_reply := with_error (xr_reply example_run) (DriverInternal ''other'')\<rparr>) quiet (active_store, ()))"
proof -
  have "same_public (DriverInternal ''secret'') (DriverInternal ''other'')"
    "dr_outcome example_reply = FutureReady (Inl (OperationDriver (DriverInternal ''secret'')))"
    "dr_outcome (xr_reply example_run) = FutureReady (Inl (OperationDriver (DriverInternal ''secret'')))"
    by (simp_all add: same_public_def example_reply_def example_run_def)
  then show ?thesis by (rule conjunct2 [OF driver_text_never_recorded])
qed

end
