(* ===== verification/Bundle_Model.thy ===== *)
theory Bundle_Model
  imports Event_Store Handshake
begin

text \<open>
  Session Bundles, \<open>crates/session-bundle/src\<close>: the data of \<open>model.rs\<close>, the canonical JSON of
  \<open>canonical.rs\<close> and the validation of a manifest, \<open>event_validation.rs\<close>.

  \<open>serde_json\<close>'s printing of a key or a scalar, and the typed serialization of a manifest, are
  arguments. A \<open>usize\<close> has 64 bits. The loop of \<open>validate_json_value\<close> keeps its stack as a list
  whose head is the top.
\<close>

subsection \<open>Data\<close>

definition BUNDLE_MAGIC :: string where
  "BUNDLE_MAGIC = ''devicerail.session-bundle''"

definition BUNDLE_VERSION :: nat where
  "BUNDLE_VERSION = 1"

definition MANIFEST_FILE_NAME :: string where
  "MANIFEST_FILE_NAME = ''manifest.json''"

definition ASSET_PATH_PREFIX :: string where
  "ASSET_PATH_PREFIX = ''assets/sha256/''"

record bundle_source =
  bs_event_protocol_version :: protocol_version
  bs_session_export :: session_export

record bundle_asset =
  bn_sha256 :: string
  bn_media_type :: string
  bn_byte_length :: nat
  bn_path :: string

definition canonical_path :: "string \<Rightarrow> string" where
  "canonical_path digest = ASSET_PATH_PREFIX @ digest"

record bundle_manifest =
  bm_magic :: string
  bm_bundle_version :: nat
  bm_event_protocol_version :: protocol_version
  bm_session :: session_info
  bm_events :: "test_event list"
  bm_assets :: "bundle_asset list"

definition manifest_from_source :: "bundle_source \<Rightarrow> bundle_asset list \<Rightarrow> bundle_manifest" where
  "manifest_from_source source assets =
     \<lparr>bm_magic = BUNDLE_MAGIC, bm_bundle_version = BUNDLE_VERSION,
      bm_event_protocol_version = bs_event_protocol_version source,
      bm_session = sx_session (bs_session_export source),
      bm_events = sx_events (bs_session_export source), bm_assets = assets\<rparr>"

definition manifest_session_export :: "bundle_manifest \<Rightarrow> session_export" where
  "manifest_session_export manifest = \<lparr>sx_session = bm_session manifest, sx_events = bm_events manifest\<rparr>"

record bundle_limits =
  bl_max_manifest_bytes :: nat
  bl_max_events :: nat
  bl_max_assets :: nat
  bl_max_json_depth :: nat
  bl_max_json_nodes :: nat
  bl_max_typed_references :: nat
  bl_max_asset_bytes :: nat
  bl_max_total_asset_bytes :: nat

definition bundle_limits_default :: bundle_limits where
  "bundle_limits_default =
     \<lparr>bl_max_manifest_bytes = 16 * 1024 * 1024, bl_max_events = 100000, bl_max_assets = 10000,
      bl_max_json_depth = 128, bl_max_json_nodes = 1000000, bl_max_typed_references = 100000,
      bl_max_asset_bytes = 512 * 1024 * 1024, bl_max_total_asset_bytes = 4 * 1024 * 1024 * 1024\<rparr>"

record bundle_summary =
  bu_session_id :: session_id
  bu_event_count :: nat
  bu_asset_count :: nat
  bu_asset_bytes :: nat

definition summary_from_manifest :: "bundle_manifest \<Rightarrow> bundle_summary" where
  "summary_from_manifest manifest =
     \<lparr>bu_session_id = si_id (bm_session manifest), bu_event_count = length (bm_events manifest),
      bu_asset_count = length (bm_assets manifest),
      bu_asset_bytes = foldl (\<lambda>total asset. saturating_add_u64 total (bn_byte_length asset)) 0 (bm_assets manifest)\<rparr>"

record validated_bundle =
  vb_event_protocol_version :: protocol_version
  vb_session_export :: session_export
  vb_assets :: "bundle_asset list"
  vb_summary :: bundle_summary

definition validated_from_manifest :: "bundle_manifest \<Rightarrow> validated_bundle" where
  "validated_from_manifest manifest =
     \<lparr>vb_event_protocol_version = bm_event_protocol_version manifest,
      vb_session_export = manifest_session_export manifest, vb_assets = bm_assets manifest,
      vb_summary = summary_from_manifest manifest\<rparr>"

subsection \<open>Canonical JSON\<close>

text \<open>
  \<open>scalar\<close> prints a key or a value that is neither an array nor an object. The entries of an object
  are printed in the order of their keys, whatever the order of the map.
\<close>

fun write_value :: "(json \<Rightarrow> string) \<Rightarrow> json \<Rightarrow> string" where
  "write_value scalar (JArray vs) =
     ''['' @ concat (case map (write_value scalar) vs of [] \<Rightarrow> [] | w # ws \<Rightarrow> w # map (\<lambda>w. '','' @ w) ws) @ '']''"
| "write_value scalar (JObject members) =
     ''{'' @ concat (case map (\<lambda>(k, w). scalar (JString k) @ '':'' @ w)
                           (sort_key fst (map (\<lambda>(k, v). (k, write_value scalar v)) members))
                     of [] \<Rightarrow> [] | w # ws \<Rightarrow> w # map (\<lambda>w. '','' @ w) ws) @ ''}''"
| "write_value scalar v = scalar v"

definition to_canonical_bytes ::
  "('a \<Rightarrow> json option) \<Rightarrow> (json \<Rightarrow> string) \<Rightarrow> 'a \<Rightarrow> string option" where
  "to_canonical_bytes to_value scalar x = map_option (\<lambda>v. write_value scalar v @ [CHR 0x0A]) (to_value x)"

datatype canonical_json_error = CanonicalJson | NonCanonical

definition from_canonical_slice ::
  "(string \<Rightarrow> 'a option) \<Rightarrow> ('a \<Rightarrow> json option) \<Rightarrow> (json \<Rightarrow> string) \<Rightarrow> string \<Rightarrow> canonical_json_error + 'a" where
  "from_canonical_slice from_slice to_value scalar input =
     res_bind (ok_or (from_slice input) CanonicalJson) (\<lambda>x.
     res_bind (ok_or (to_canonical_bytes to_value scalar x) CanonicalJson) (\<lambda>canonical.
       if canonical \<noteq> input then Inl NonCanonical else Inr x))"

end
