(* ===== verification/Bundle_Validation.thy ===== *)
theory Bundle_Validation
  imports Bundle_Model
begin

text \<open>
  The validation of a Session Bundle, \<open>crates/session-bundle/src/event_validation.rs\<close>: the checks
  of one event, the loop over the events with its bookkeeping, the collected Evidence references,
  and the asset index of a manifest.
\<close>

subsection \<open>Errors\<close>

datatype model_error =
    UnsupportedMagic
  | UnsupportedBundleVersion nat
  | UnsupportedEventProtocol nat nat
  | FieldRequiresProtocol12 string
  | FieldRequiresProtocol14 string
  | FieldRequiresProtocol15 string
  | LimitExceeded string nat
  | JsonDepthLimit
  | SessionNotEnded
  | InvalidEndedSession
  | InvalidEventSequence
  | EventSessionMismatch
  | DuplicateEventId
  | InvalidLifecycle
  | DuplicateActionCall uuid
  | ActionNotStarted uuid
  | ActionCorrelationMismatch uuid
  | ActionResultMismatch uuid
  | ActionTimeMismatch uuid
  | ActionStillInFlight
  | InvalidMediaStream
  | MediaStreamStillInFlight
  | RedactedArgumentsNotNull
  | ObservationScreenshotConflict
  | ObservationUiSnapshotConflict
  | InvalidUiSnapshotReference
  | InvalidActionExecution
  | InvalidObservationViewport
  | InvalidProtectedActionOmission
  | UnexpectedProtectedActionOmission
  | InvalidEvidenceReference
  | ConflictingEvidenceMediaType string
  | ConflictingEvidenceByteLength string
  | InvalidAssetIndexEntry
  | InvalidAssetPath
  | AssetIndexNotSorted
  | AssetSizeLimit
  | AssetSetMismatch
  | AssetMediaTypeMismatch
  | AssetByteLengthMismatch

definition validate_event_protocol :: "protocol_version \<Rightarrow> model_error + unit" where
  "validate_event_protocol version =
     (if version_major version = 1 \<and> version_minor version \<le> 5 then Inr ()
      else Inl (UnsupportedEventProtocol (version_major version) (version_minor version)))"

definition require_protocol_12 :: "protocol_version \<Rightarrow> string \<Rightarrow> model_error + unit" where
  "require_protocol_12 protocol field =
     (if version_major protocol = 1 \<and> 2 \<le> version_minor protocol then Inr () else Inl (FieldRequiresProtocol12 field))"

definition require_protocol_14 :: "protocol_version \<Rightarrow> string \<Rightarrow> model_error + unit" where
  "require_protocol_14 protocol field =
     (if version_major protocol = 1 \<and> 4 \<le> version_minor protocol then Inr () else Inl (FieldRequiresProtocol14 field))"

definition require_protocol_15 :: "protocol_version \<Rightarrow> string \<Rightarrow> model_error + unit" where
  "require_protocol_15 protocol field =
     (if version_major protocol = 1 \<and> 5 \<le> version_minor protocol then Inr () else Inl (FieldRequiresProtocol15 field))"

definition check :: "bool \<Rightarrow> 'e \<Rightarrow> 'e + unit" where
  "check ok e = (if ok then Inr () else Inl e)"

subsection \<open>Arbitrary JSON\<close>

fun json_nodes :: "json \<Rightarrow> nat" where
  "json_nodes (JArray vs) = Suc (sum_list (map json_nodes vs))"
| "json_nodes (JObject ms) = Suc (sum_list (map (\<lambda>m. json_nodes (snd m)) ms))"
| "json_nodes _ = 1"

lemma json_nodes_pos: "0 < json_nodes v"
  by (cases v) auto

abbreviation json_node_limit :: "bundle_limits \<Rightarrow> model_error" where
  "json_node_limit limits \<equiv> LimitExceeded ''event JSON nodes'' (bl_max_json_nodes limits)"

definition json_children :: "json \<Rightarrow> json list" where
  "json_children v = (case v of JArray vs \<Rightarrow> vs | JObject ms \<Rightarrow> map snd ms | _ \<Rightarrow> [])"

lemma json_children_nodes: "json_nodes v = Suc (sum_list (map json_nodes (json_children v)))"
  by (cases v) (simp_all add: json_children_def comp_def)

lemma json_children_less: "sum_list (map json_nodes (json_children v)) < json_nodes v"
  using json_children_nodes [of v] by simp

function json_loop :: "bundle_limits \<Rightarrow> (json \<times> nat) list \<Rightarrow> nat \<Rightarrow> model_error + unit" where
  "json_loop limits [] observed_nodes = Inr ()"
| "json_loop limits ((v, depth) # pending) observed_nodes =
     (if depth > bl_max_json_depth limits then Inl JsonDepthLimit
      else case checked_add_u64 observed_nodes 1 of
        None \<Rightarrow> Inl (json_node_limit limits)
      | Some observed \<Rightarrow>
          if observed > bl_max_json_nodes limits then Inl (json_node_limit limits)
          else case checked_add_u64 depth 1 of
            None \<Rightarrow> Inl JsonDepthLimit
          | Some next_depth \<Rightarrow>
              let remaining = bl_max_json_nodes limits - observed in
              if length pending > remaining then Inl (json_node_limit limits)
              else if length (json_children v) > remaining - length pending then Inl (json_node_limit limits)
              else json_loop limits (rev (map (\<lambda>w. (w, next_depth)) (json_children v)) @ pending) observed)"
  by pat_completeness auto

termination
  by (relation "measure (\<lambda>(limits, pending, n). sum_list (map (json_nodes \<circ> fst) pending))")
    (auto simp: json_children_less comp_def rev_map [symmetric] sum_list_rev)

declare json_loop.simps(2) [simp del]

definition validate_json_value :: "json \<Rightarrow> nat \<Rightarrow> bundle_limits \<Rightarrow> model_error + unit" where
  "validate_json_value v initial_depth limits = json_loop limits [(v, initial_depth)] 0"

subsection \<open>Observations, errors and results\<close>

definition validate_error_details :: "error_info \<Rightarrow> bundle_limits \<Rightarrow> model_error + unit" where
  "validate_error_details error limits =
     (case ei_details error of Some details \<Rightarrow> validate_json_value details 1 limits | None \<Rightarrow> Inr ())"

definition validate_observation ::
  "observation \<Rightarrow> protocol_version \<Rightarrow> bundle_limits \<Rightarrow> model_error + unit" where
  "validate_observation o1 protocol limits =
     res_bind (check (\<not> (ob_screenshot o1 \<noteq> None \<and> ob_screenshot_omission o1 \<noteq> None))
        ObservationScreenshotConflict) (\<lambda>_.
     res_bind (if ob_screenshot_omission o1 \<noteq> None then require_protocol_12 protocol ''screenshotOmission''
               else Inr ()) (\<lambda>_.
     res_bind (check (\<not> (ob_ui_snapshot o1 \<noteq> None \<and> ob_ui_snapshot_omission o1 \<noteq> None))
        ObservationUiSnapshotConflict) (\<lambda>_.
     res_bind (if ob_ui_snapshot o1 \<noteq> None \<or> ob_ui_snapshot_omission o1 \<noteq> None
               then require_protocol_15 protocol ''uiSnapshot'' else Inr ()) (\<lambda>_.
     res_bind (check (case ob_ui_snapshot o1 of Some s \<Rightarrow> is_ok (ui_snapshot_ref_validate s) | None \<Rightarrow> True)
        InvalidUiSnapshotReference) (\<lambda>_.
     res_bind (check (is_finite (vp_scale_factor (ob_viewport o1))) InvalidObservationViewport) (\<lambda>_.
       res_fold (\<lambda>_ v. validate_json_value v 2 limits) () (map snd (ob_metadata o1))))))))"

definition protected_observation :: "protocol_version \<Rightarrow> observation option \<Rightarrow> bool" where
  "protected_observation protocol x =
     (case x of
        None \<Rightarrow> False
      | Some o1 \<Rightarrow> ob_screenshot o1 = None \<and> ob_screenshot_omission o1 = Some ScreenshotProtectedAction
          \<and> ob_ui_snapshot o1 = None
          \<and> (version_minor protocol < 5 \<or> ob_ui_snapshot_omission o1 = None
              \<or> ob_ui_snapshot_omission o1 = Some UiProtectedAction))"

definition unexpected_protected :: "observation \<Rightarrow> bool" where
  "unexpected_protected o1 \<longleftrightarrow>
     ob_screenshot_omission o1 = Some ScreenshotProtectedAction \<or> ob_ui_snapshot_omission o1 = Some UiProtectedAction"

definition observations_of :: "action_result \<Rightarrow> observation list" where
  "observations_of r =
     (case rs_before r of Some o1 \<Rightarrow> [o1] | None \<Rightarrow> []) @ (case rs_after r of Some o1 \<Rightarrow> [o1] | None \<Rightarrow> [])"

definition validate_success_omission ::
  "protocol_version \<Rightarrow> bool \<Rightarrow> action_result \<Rightarrow> model_error + unit" where
  "validate_success_omission protocol arguments_redacted r =
     (if arguments_redacted
      then check (rs_evidence r = [] \<and> protected_observation protocol (rs_before r)
                    \<and> protected_observation protocol (rs_after r)) InvalidProtectedActionOmission
      else check (\<not> list_ex unexpected_protected (observations_of r)) UnexpectedProtectedActionOmission)"

subsection \<open>Collected references\<close>

record reference_collector =
  rf_typed_reference_count :: nat
  rf_by_digest :: "(sha256_digest \<times> asset_ref) list"
  rf_declared_byte_lengths :: "(sha256_digest \<times> nat) list"

definition reference_collector_new :: reference_collector where
  "reference_collector_new =
     \<lparr>rf_typed_reference_count = 0, rf_by_digest = [], rf_declared_byte_lengths = []\<rparr>"

definition collector_add ::
  "bundle_limits \<Rightarrow> reference_collector \<Rightarrow> asset_ref \<Rightarrow> model_error + reference_collector" where
  "collector_add limits c reference =
     res_bind (ok_or (checked_add_u64 (rf_typed_reference_count c) 1)
        (LimitExceeded ''typed Evidence references'' (bl_max_typed_references limits))) (\<lambda>n.
     res_bind (check (n \<le> bl_max_typed_references limits)
        (LimitExceeded ''typed Evidence references'' (bl_max_typed_references limits))) (\<lambda>_.
     res_bind (res_map_err (\<lambda>_. InvalidEvidenceReference) (from_asset_ref reference)) (\<lambda>digest.
       let c = c\<lparr>rf_typed_reference_count := n\<rparr> in
       case map_of (rf_by_digest c) digest of
         Some existing \<Rightarrow>
           res_bind (check (ar_media_type existing = ar_media_type reference)
              (ConflictingEvidenceMediaType digest)) (\<lambda>_. Inr c)
       | None \<Rightarrow>
           res_bind (check (length (rf_by_digest c) < bl_max_assets limits)
              (LimitExceeded ''unique typed Evidence assets'' (bl_max_assets limits))) (\<lambda>_.
             Inr (c\<lparr>rf_by_digest := bt_insert digest reference (rf_by_digest c)\<rparr>)))))"

definition collector_add_with_length ::
  "bundle_limits \<Rightarrow> reference_collector \<Rightarrow> asset_ref \<times> nat \<Rightarrow> model_error + reference_collector" where
  "collector_add_with_length limits c rl =
     (case rl of (reference, byte_length) \<Rightarrow>
     res_bind (collector_add limits c reference) (\<lambda>c.
     res_bind (res_map_err (\<lambda>_. InvalidEvidenceReference) (from_asset_ref reference)) (\<lambda>digest.
       case map_of (rf_declared_byte_lengths c) digest of
         Some existing \<Rightarrow>
           res_bind (check (existing = byte_length) (ConflictingEvidenceByteLength digest)) (\<lambda>_. Inr c)
       | None \<Rightarrow>
           Inr (c\<lparr>rf_declared_byte_lengths := bt_insert digest byte_length (rf_declared_byte_lengths c)\<rparr>))))"

definition screenshots_of :: "observation list \<Rightarrow> asset_ref list" where
  "screenshots_of os = concat (map (\<lambda>o1. case ob_screenshot o1 of Some a \<Rightarrow> [a] | None \<Rightarrow> []) os)"

definition ui_snapshots_of :: "observation list \<Rightarrow> (asset_ref \<times> nat) list" where
  "ui_snapshots_of os =
     concat (map (\<lambda>o1. case ob_ui_snapshot o1 of Some s \<Rightarrow> [(sr_evidence s, sr_byte_length s)] | None \<Rightarrow> []) os)"

subsection \<open>One event\<close>

record bundle_correlation =
  bc_request_id :: "rpc_id option"
  bc_device_id :: "device_id option"
  bc_arguments_redacted :: bool

record export_scan =
  xs_event_ids :: "event_id list"
  xs_seen_calls :: "uuid list"
  xs_in_flight :: "(uuid \<times> bundle_correlation) list"
  xs_seen_media_streams :: "media_stream_id list"
  xs_media_streams :: "(media_stream_id \<times> string \<times> nat) list"
  xs_references :: reference_collector

definition export_scan_new :: export_scan where
  "export_scan_new =
     \<lparr>xs_event_ids = [], xs_seen_calls = [], xs_in_flight = [], xs_seen_media_streams = [],
      xs_media_streams = [], xs_references = reference_collector_new\<rparr>"

definition with_references ::
  "export_scan \<Rightarrow> model_error + reference_collector \<Rightarrow> model_error + export_scan" where
  "with_references s m = res_bind m (\<lambda>c. Inr (s\<lparr>xs_references := c\<rparr>))"

definition validate_execution :: "protocol_version \<Rightarrow> action_execution option \<Rightarrow> model_error + unit" where
  "validate_execution protocol x =
     (case x of
        None \<Rightarrow> Inr ()
      | Some execution \<Rightarrow>
          res_bind (require_protocol_15 protocol ''execution'') (\<lambda>_.
            check (case execution of
                     NativeSemantic context \<Rightarrow>
                       is_ok (ui_context_ref_validate context) \<and> cx_kind context = Native
                   | WebSemantic context \<Rightarrow>
                       is_ok (ui_context_ref_validate context) \<and> cx_kind context = Web
                   | CoordinateFallback context _ \<Rightarrow> is_ok (ui_context_ref_validate context))
              InvalidActionExecution))"

definition validate_success ::
  "protocol_version \<Rightarrow> bundle_limits \<Rightarrow> uuid \<Rightarrow> bool \<Rightarrow> action_result \<Rightarrow> reference_collector \<Rightarrow>
   model_error + reference_collector" where
  "validate_success protocol limits call_id arguments_redacted r c =
     res_bind (check (rs_call_id r = call_id) (ActionResultMismatch call_id)) (\<lambda>_.
     res_bind (check (rs_started_at_ms r \<le> rs_finished_at_ms r) (ActionTimeMismatch call_id)) (\<lambda>_.
     res_bind (validate_json_value (rs_output r) 1 limits) (\<lambda>_.
     res_bind (res_fold (\<lambda>_ o1. validate_observation o1 protocol limits) () (observations_of r)) (\<lambda>_.
     res_bind (validate_execution protocol (rs_execution r)) (\<lambda>_.
     res_bind (validate_success_omission protocol arguments_redacted r) (\<lambda>_.
     res_bind (res_fold (collector_add limits) c (screenshots_of (observations_of r) @ rs_evidence r)) (\<lambda>c.
       res_fold (collector_add_with_length limits) c (ui_snapshots_of (observations_of r)))))))))"

definition media_stream_started_ok :: "bool \<Rightarrow> bool \<Rightarrow> media_stream_id list \<Rightarrow> media_stream_info \<Rightarrow> bool" where
  "media_stream_started_ok is_first is_last seen stream \<longleftrightarrow>
     \<not> is_first \<and> \<not> is_last \<and> ms_media_type stream \<noteq> [] \<and> length (ms_media_type stream) \<le> 255
     \<and> \<not> list_ex is_ascii_control (ms_media_type stream) \<and> ms_id stream \<notin> set seen
     \<and> (case ms_viewport stream of
          None \<Rightarrow> True
        | Some v \<Rightarrow> vp_width v \<noteq> 0 \<and> vp_height v \<noteq> 0 \<and> is_finite (vp_scale_factor v)
            \<and> \<not> f64_le_zero (vp_scale_factor v))"

definition validate_payload ::
  "protocol_version \<Rightarrow> bundle_limits \<Rightarrow> session_info \<Rightarrow> nat \<Rightarrow> bool \<Rightarrow> bool \<Rightarrow> test_event \<Rightarrow> export_scan \<Rightarrow>
   model_error + export_scan" where
  "validate_payload protocol limits session ended_at_ms is_first is_last e s =
     (case te_payload e of
        SessionStarted \<Rightarrow>
          res_bind (check (is_first \<and> te_at_ms e = si_started_at_ms session) InvalidLifecycle) (\<lambda>_. Inr s)
      | SessionEnded _ _ \<Rightarrow>
          res_bind (check (is_last \<and> te_at_ms e = ended_at_ms) InvalidLifecycle) (\<lambda>_. Inr s)
      | ObservationCaptured o1 \<Rightarrow>
          res_bind (check (\<not> is_first \<and> \<not> is_last) InvalidLifecycle) (\<lambda>_.
          res_bind (validate_observation o1 protocol limits) (\<lambda>_.
          res_bind (check (\<not> unexpected_protected o1) UnexpectedProtectedActionOmission) (\<lambda>_.
            with_references s
              (res_bind (res_fold (collector_add limits) (xs_references s) (screenshots_of [o1])) (\<lambda>c.
                 res_fold (collector_add_with_length limits) c (ui_snapshots_of [o1]))))))
      | ActionStarted call \<Rightarrow>
          res_bind (check (\<not> is_first \<and> \<not> is_last) InvalidLifecycle) (\<lambda>_.
          res_bind (if rac_arguments_redacted call
                    then res_bind (require_protocol_12 protocol ''argumentsRedacted'') (\<lambda>_.
                           check (rac_arguments call = JNull) RedactedArgumentsNotNull)
                    else Inr ()) (\<lambda>_.
          res_bind (validate_json_value (rac_arguments call) 1 limits) (\<lambda>_.
          res_bind (check (rac_id call \<notin> set (xs_seen_calls s)) (DuplicateActionCall (rac_id call))) (\<lambda>_.
            Inr (s\<lparr>xs_seen_calls := bs_insert (rac_id call) (xs_seen_calls s),
                   xs_in_flight := bt_insert (rac_id call)
                     \<lparr>bc_request_id = te_request_id e, bc_device_id = te_device_id e,
                      bc_arguments_redacted = rac_arguments_redacted call\<rparr> (xs_in_flight s)\<rparr>)))))
      | ActionCompleted call_id outcome \<Rightarrow>
          res_bind (check (\<not> is_first \<and> \<not> is_last) InvalidLifecycle) (\<lambda>_.
          res_bind (ok_or (map_of (xs_in_flight s) call_id) (ActionNotStarted call_id)) (\<lambda>started.
          let s = s\<lparr>xs_in_flight := AList.delete call_id (xs_in_flight s)\<rparr> in
          res_bind (check (bc_request_id started = te_request_id e \<and> bc_device_id started = te_device_id e)
             (ActionCorrelationMismatch call_id)) (\<lambda>_.
            case outcome of
              ActionSucceeded r \<Rightarrow>
                with_references s
                  (validate_success protocol limits call_id (bc_arguments_redacted started) r (xs_references s))
            | ActionFailed error \<Rightarrow> res_bind (validate_error_details error limits) (\<lambda>_. Inr s)
            | ActionCancelled error \<Rightarrow> res_bind (validate_error_details error limits) (\<lambda>_. Inr s)
            | ActionTimedOut error _ \<Rightarrow> res_bind (validate_error_details error limits) (\<lambda>_. Inr s))))
      | MediaStreamStarted stream \<Rightarrow>
          res_bind (require_protocol_14 protocol ''mediaStreamStarted'') (\<lambda>_.
          res_bind (check (media_stream_started_ok is_first is_last (xs_seen_media_streams s) stream)
             InvalidMediaStream) (\<lambda>_.
            Inr (s\<lparr>xs_seen_media_streams := bs_insert (ms_id stream) (xs_seen_media_streams s),
                   xs_media_streams := bt_insert (ms_id stream) (ms_media_type stream, 1) (xs_media_streams s)\<rparr>)))
      | MediaFrameCaptured frame \<Rightarrow>
          res_bind (require_protocol_14 protocol ''mediaFrameCaptured'') (\<lambda>_.
          res_bind (check (\<not> is_first \<and> \<not> is_last) InvalidLifecycle) (\<lambda>_.
          res_bind (ok_or (map_of (xs_media_streams s) (mf_stream_id frame)) InvalidMediaStream) (\<lambda>(media_type, next_index).
          res_bind (check (mf_frame_index frame = next_index \<and> ar_media_type (mf_evidence frame) = media_type
                \<and> (case mf_duration_ms frame of Some d \<Rightarrow> d \<le> MAX_SAFE_INTEGER | None \<Rightarrow> True))
             InvalidMediaStream) (\<lambda>_.
            with_references
              (s\<lparr>xs_media_streams := bt_insert (mf_stream_id frame) (media_type, next_index + 1) (xs_media_streams s)\<rparr>)
              (collector_add limits (xs_references s) (mf_evidence frame))))))
      | MediaStreamEnded stream_id frame_count \<Rightarrow>
          res_bind (require_protocol_14 protocol ''mediaStreamEnded'') (\<lambda>_.
          res_bind (check (\<not> is_first \<and> \<not> is_last) InvalidLifecycle) (\<lambda>_.
          res_bind (ok_or (map_of (xs_media_streams s) stream_id) InvalidMediaStream) (\<lambda>(_, next_index).
          res_bind (check (frame_count = next_index - 1) InvalidMediaStream) (\<lambda>_.
            Inr (s\<lparr>xs_media_streams := AList.delete stream_id (xs_media_streams s)\<rparr>)))))
      | VerdictRecorded verdict \<Rightarrow>
          res_bind (check (\<not> is_first \<and> \<not> is_last) InvalidLifecycle) (\<lambda>_.
            with_references s (res_fold (collector_add limits) (xs_references s) (vd_evidence verdict)))
      | ErrorEvent error \<Rightarrow>
          res_bind (check (\<not> is_first \<and> \<not> is_last) InvalidLifecycle) (\<lambda>_.
          res_bind (validate_error_details error limits) (\<lambda>_. Inr s)))"

definition validate_export_event ::
  "protocol_version \<Rightarrow> bundle_limits \<Rightarrow> session_info \<Rightarrow> nat \<Rightarrow> nat \<Rightarrow> export_scan \<Rightarrow> nat \<times> test_event \<Rightarrow>
   model_error + export_scan" where
  "validate_export_event protocol limits session ended_at_ms count s ie =
     (case ie of (index, e) \<Rightarrow>
     res_bind (ok_or (event_sequence_new (index + 1)) InvalidEventSequence) (\<lambda>expected_sequence.
     res_bind (check (te_sequence e = expected_sequence) InvalidEventSequence) (\<lambda>_.
     res_bind (check (te_session_id e = si_id session) EventSessionMismatch) (\<lambda>_.
     res_bind (check (te_event_id e \<notin> set (xs_event_ids s)) DuplicateEventId) (\<lambda>_.
     let s = s\<lparr>xs_event_ids := bs_insert (te_event_id e) (xs_event_ids s)\<rparr>;
         is_first = (index = 0); is_last = (index + 1 = count) in
     res_bind (validate_payload protocol limits session ended_at_ms is_first is_last e s) (\<lambda>s.
     res_bind (check (is_first \<longrightarrow> te_payload e = SessionStarted) InvalidLifecycle) (\<lambda>_.
     res_bind (check (is_last \<longrightarrow> is_session_ended (te_payload e)) InvalidLifecycle) (\<lambda>_.
       Inr s))))))))"

subsection \<open>A whole export, a source and a manifest\<close>

definition validate_export ::
  "protocol_version \<Rightarrow> session_export \<Rightarrow> bundle_limits \<Rightarrow> model_error + reference_collector" where
  "validate_export protocol export limits =
     (let events = sx_events export; session = sx_session export in
     res_bind (check (length events \<le> bl_max_events limits)
        (LimitExceeded ''events'' (bl_max_events limits))) (\<lambda>_.
     res_bind (check (si_state session = Ended) SessionNotEnded) (\<lambda>_.
     res_bind (ok_or (si_ended_at_ms session) InvalidEndedSession) (\<lambda>ended_at_ms.
     res_bind (ok_or (event_sequence_new (length events)) InvalidEventSequence) (\<lambda>event_count.
     res_bind (check (si_event_count session = event_count \<and> si_last_sequence session = event_count)
        InvalidEventSequence) (\<lambda>_.
     res_bind (res_fold (validate_export_event protocol limits session ended_at_ms (length events))
        export_scan_new (List.enumerate 0 events)) (\<lambda>s.
     res_bind (check (xs_in_flight s = []) ActionStillInFlight) (\<lambda>_.
     res_bind (check (xs_media_streams s = []) MediaStreamStillInFlight) (\<lambda>_.
     res_bind (check (length (rf_by_digest (xs_references s)) \<le> bl_max_assets limits)
        (LimitExceeded ''unique typed Evidence assets'' (bl_max_assets limits))) (\<lambda>_.
       Inr (xs_references s)))))))))))"

definition validate_source ::
  "bundle_source \<Rightarrow> bundle_limits \<Rightarrow> model_error + (sha256_digest \<times> asset_ref) list" where
  "validate_source source limits =
     res_bind (validate_event_protocol (bs_event_protocol_version source)) (\<lambda>_.
     res_bind (validate_export (bs_event_protocol_version source) (bs_session_export source) limits)
       (\<lambda>references. Inr (rf_by_digest references)))"

record index_scan =
  ix_indexed :: "(sha256_digest \<times> bundle_asset) list"
  ix_previous_digest :: "sha256_digest option"
  ix_total_bytes :: nat

definition validate_asset :: "bundle_limits \<Rightarrow> index_scan \<Rightarrow> bundle_asset \<Rightarrow> model_error + index_scan" where
  "validate_asset limits s asset =
     res_bind (res_map_err (\<lambda>_. InvalidAssetIndexEntry) (digest_parse (bn_sha256 asset))) (\<lambda>digest.
     res_bind (res_map_err (\<lambda>_. InvalidAssetIndexEntry)
        (from_asset_ref \<lparr>ar_id = asset_id digest, ar_media_type = bn_media_type asset,
           ar_uri = asset_uri digest, ar_sha256 = Some (bn_sha256 asset)\<rparr>)) (\<lambda>_.
     res_bind (check (bn_path asset = canonical_path digest) InvalidAssetPath) (\<lambda>_.
     res_bind (check (case ix_previous_digest s of Some previous \<Rightarrow> previous < digest | None \<Rightarrow> True)
        AssetIndexNotSorted) (\<lambda>_.
     res_bind (check (bn_byte_length asset \<le> bl_max_asset_bytes limits) AssetSizeLimit) (\<lambda>_.
     res_bind (ok_or (checked_add_u64 (ix_total_bytes s) (bn_byte_length asset)) AssetSizeLimit) (\<lambda>total.
     res_bind (check (total \<le> bl_max_total_asset_bytes limits) AssetSizeLimit) (\<lambda>_.
       Inr \<lparr>ix_indexed = bt_insert digest asset (ix_indexed s), ix_previous_digest = Some digest,
            ix_total_bytes = total\<rparr>)))))))"

definition validate_asset_index ::
  "bundle_asset list \<Rightarrow> reference_collector \<Rightarrow> bundle_limits \<Rightarrow> model_error + unit" where
  "validate_asset_index assets references limits =
     res_bind (check (length assets \<le> bl_max_assets limits)
        (LimitExceeded ''Bundle assets'' (bl_max_assets limits))) (\<lambda>_.
     res_bind (res_fold (validate_asset limits)
        \<lparr>ix_indexed = [], ix_previous_digest = None, ix_total_bytes = 0\<rparr> assets) (\<lambda>s.
     res_bind (check (length (ix_indexed s) = length (rf_by_digest references)
          \<and> list_all (\<lambda>(i, r). i = r) (zip (map fst (ix_indexed s)) (map fst (rf_by_digest references))))
        AssetSetMismatch) (\<lambda>_.
       res_fold (\<lambda>_ (digest, reference).
         res_bind (ok_or (map_of (ix_indexed s) digest) AssetSetMismatch) (\<lambda>asset.
         res_bind (check (bn_media_type asset = ar_media_type reference) AssetMediaTypeMismatch) (\<lambda>_.
           check (case map_of (rf_declared_byte_lengths references) digest of
                    Some expected \<Rightarrow> bn_byte_length asset = expected | None \<Rightarrow> True)
             AssetByteLengthMismatch))) () (rf_by_digest references))))"

definition validate_manifest_events ::
  "bundle_manifest \<Rightarrow> bundle_limits \<Rightarrow> model_error + (sha256_digest \<times> asset_ref) list" where
  "validate_manifest_events manifest limits =
     res_bind (check (bm_magic manifest = BUNDLE_MAGIC) UnsupportedMagic) (\<lambda>_.
     res_bind (check (bm_bundle_version manifest = BUNDLE_VERSION)
        (UnsupportedBundleVersion (bm_bundle_version manifest))) (\<lambda>_.
     res_bind (validate_event_protocol (bm_event_protocol_version manifest)) (\<lambda>_.
     res_bind (validate_export (bm_event_protocol_version manifest)
        \<lparr>sx_session = bm_session manifest, sx_events = bm_events manifest\<rparr> limits) (\<lambda>references.
     res_bind (validate_asset_index (bm_assets manifest) references limits) (\<lambda>_.
       Inr (rf_by_digest references))))))"

end
