(* ===== verification/Bundle_Properties.thy ===== *)
theory Bundle_Properties
  imports Bundle_Validation Store_Properties
begin

text \<open>
  What the validation of a Session Bundle decides: the JSON walk is a bound on depth and size, an
  ended Session of the event store is never refused for its structure, an accepted event list is
  a legal log, and the asset index of an accepted manifest is exactly what its events refer to.
\<close>

lemma check_simps [simp]:
  "check True e = Inr ()" "check False e = Inl e"
  "check b e = Inr u \<longleftrightarrow> b" "check b e = Inl e' \<longleftrightarrow> \<not> b \<and> e' = e"
  by (auto simp: check_def)

subsection \<open>JSON\<close>

fun json_height :: "json \<Rightarrow> nat" where
  "json_height (JArray vs) = Suc (foldr max (map json_height vs) 0)"
| "json_height (JObject ms) = Suc (foldr max (map (\<lambda>m. json_height (snd m)) ms) 0)"
| "json_height _ = 1"

lemma foldr_max_le: "foldr max xs 0 \<le> (n::nat) \<longleftrightarrow> (\<forall>x \<in> set xs. x \<le> n)"
  by (induction xs) auto

lemma json_height_children: "json_height v \<le> Suc n \<longleftrightarrow> (\<forall>w \<in> set (json_children v). json_height w \<le> n)"
  by (cases v) (auto simp: json_children_def foldr_max_le)

lemma length_le_nodes: "length vs \<le> sum_list (map json_nodes vs)"
proof (induction vs)
  case (Cons v vs)
  then show ?case using json_nodes_pos [of v] by simp
qed simp

lemma json_loop_iff:
  assumes "bl_max_json_depth limits < U64_MAX" "bl_max_json_nodes limits \<le> U64_MAX"
  shows "json_loop limits pending n = Inr () \<longleftrightarrow>
    (pending = [] \<or> n + sum_list (map (json_nodes \<circ> fst) pending) \<le> bl_max_json_nodes limits) \<and>
    (\<forall>(v, d) \<in> set pending. d + json_height v \<le> Suc (bl_max_json_depth limits))"
  using assms
proof (induction limits pending n rule: json_loop.induct)
  case (2 limits v depth pending n)
  let ?kids = "map (\<lambda>w. (w, Suc depth)) (json_children v)"
  have pend: "length pending \<le> sum_list (map (json_nodes \<circ> fst) pending)"
    using length_le_nodes [of "map fst pending"] by simp
  have kids: "length (json_children v) \<le> sum_list (map json_nodes (json_children v))"
    by (rule length_le_nodes)
  have nodes: "json_nodes v = Suc (sum_list (map json_nodes (json_children v)))"
    by (rule json_children_nodes)
  have height: "depth + json_height v \<le> Suc (bl_max_json_depth limits) \<longleftrightarrow>
      depth \<le> bl_max_json_depth limits \<and>
      (\<forall>w \<in> set (json_children v). Suc depth + json_height w \<le> Suc (bl_max_json_depth limits))"
  proof (cases "depth \<le> bl_max_json_depth limits")
    case True
    then show ?thesis
      using json_height_children [of v "bl_max_json_depth limits - depth"] by (auto simp: Suc_diff_le)
  next
    case False
    moreover have "0 < json_height v" by (cases v) auto
    ultimately show ?thesis by simp
  qed
  let ?fits = "n + sum_list (map (json_nodes \<circ> fst) ((v, depth) # pending)) \<le> bl_max_json_nodes limits"
  show ?case
  proof (cases "depth \<le> bl_max_json_depth limits \<and> n + 1 + length pending + length (json_children v) \<le> bl_max_json_nodes limits")
    case False
    then have "json_loop limits ((v, depth) # pending) n \<noteq> Inr ()"
      by (auto simp: json_loop.simps(2) Let_def checked_add_u64_def)
    moreover have "\<not> (?fits \<and> depth \<le> bl_max_json_depth limits)"
      using False nodes pend kids by auto
    ultimately show ?thesis using height by (auto simp: comp_def)
  next
    case True
    have step: "json_loop limits ((v, depth) # pending) n = json_loop limits (rev ?kids @ pending) (Suc n)"
      using True "2.prems" by (auto simp: json_loop.simps(2) Let_def checked_add_u64_def)
    have IH: "json_loop limits (rev ?kids @ pending) (Suc n) = Inr () \<longleftrightarrow>
        (rev ?kids @ pending = [] \<or>
         Suc n + sum_list (map (json_nodes \<circ> fst) (rev ?kids @ pending)) \<le> bl_max_json_nodes limits) \<and>
        (\<forall>(v, d) \<in> set (rev ?kids @ pending). d + json_height v \<le> Suc (bl_max_json_depth limits))"
      using True "2.prems" by (intro "2.IH") (auto simp: checked_add_u64_def)
    have sum: "sum_list (map (json_nodes \<circ> fst) (rev ?kids @ pending)) + 1 =
        sum_list (map (json_nodes \<circ> fst) ((v, depth) # pending))"
      using nodes by (simp add: comp_def rev_map [symmetric] sum_list_rev)
    have "(rev ?kids @ pending = [] \<or>
         Suc n + sum_list (map (json_nodes \<circ> fst) (rev ?kids @ pending)) \<le> bl_max_json_nodes limits) \<longleftrightarrow> ?fits"
    proof (cases "rev ?kids @ pending = []")
      case empty: True
      then have "sum_list (map (json_nodes \<circ> fst) ((v, depth) # pending)) = 1" using sum by simp
      then show ?thesis using empty True by simp
    next
      case False
      then show ?thesis using sum by linarith
    qed
    moreover have "(\<forall>(v, d) \<in> set (rev ?kids @ pending). d + json_height v \<le> Suc (bl_max_json_depth limits)) \<longleftrightarrow>
        (\<forall>(v, d) \<in> set ((v, depth) # pending). d + json_height v \<le> Suc (bl_max_json_depth limits))"
      using height True by (simp add: ball_Un)
    ultimately show ?thesis unfolding step IH by (simp add: comp_def)
  qed
qed simp

text \<open>
  C35. The walk over an arbitrary JSON value always ends; it accepts the value exactly when every
  node is within the depth limit and the number of nodes within the node limit, although it
  gives up early and never keeps more pending nodes than the limit allows.
\<close>

theorem validate_json_value_bounds:
  assumes "bl_max_json_depth limits < U64_MAX" "bl_max_json_nodes limits \<le> U64_MAX"
  shows "validate_json_value v depth limits = Inr () \<longleftrightarrow>
    depth + json_height v \<le> Suc (bl_max_json_depth limits) \<and> json_nodes v \<le> bl_max_json_nodes limits"
  using json_loop_iff [OF assms, of "[(v, depth)]" 0] by (auto simp: validate_json_value_def)

theorem validate_json_value_bounds_witness:
  "validate_json_value (JArray [JNull, JArray [JNull]]) 1 bundle_limits_default = Inr ()
   \<and> validate_json_value (JArray [JNull, JArray [JNull]]) 127 bundle_limits_default \<noteq> Inr ()"
proof -
  have "bl_max_json_depth bundle_limits_default < U64_MAX" "bl_max_json_nodes bundle_limits_default \<le> U64_MAX"
    by (simp_all add: bundle_limits_default_def U64_MAX_def)
  from validate_json_value_bounds [OF this] show ?thesis by (simp add: bundle_limits_default_def)
qed

subsection \<open>The bookkeeping is the replay of the events\<close>

definition plain :: "bundle_correlation \<Rightarrow> action_correlation" where
  "plain c = \<lparr>co_request_id = bc_request_id c, co_device_id = bc_device_id c\<rparr>"

definition stream_of :: "string \<times> nat \<Rightarrow> media_stream_state" where
  "stream_of tn = \<lparr>mm_media_type = fst tn, mm_next_frame_index = snd tn\<rparr>"

definition book_inv :: "test_event list \<Rightarrow> export_scan \<Rightarrow> bool" where
  "book_inv es s \<longleftrightarrow>
     set (xs_seen_calls s) = set (started_calls es) \<and>
     bt_wf (xs_in_flight s) \<and> map_option plain \<circ> map_of (xs_in_flight s) = open_calls es \<and>
     set (xs_seen_media_streams s) = set (started_streams es) \<and>
     bt_wf (xs_media_streams s) \<and> map_option stream_of \<circ> map_of (xs_media_streams s) = open_streams es \<and>
     (\<forall>i t n. map_of (xs_media_streams s) i = Some (t, n) \<longrightarrow> 1 \<le> n)"

definition scan_inv :: "test_event list \<Rightarrow> export_scan \<Rightarrow> bool" where
  "scan_inv es s \<longleftrightarrow> set (xs_event_ids s) = te_event_id ` set es \<and> book_inv es s"

lemma book_inv_event_ids [simp]: "book_inv es (s\<lparr>xs_event_ids := ids\<rparr>) = book_inv es s"
  by (simp add: book_inv_def)

lemma scan_inv_new: "scan_inv [] export_scan_new"
  by (auto simp: scan_inv_def book_inv_def export_scan_new_def started_calls_def started_streams_def open_calls_def
      open_streams_def bt_wf_def)

lemma with_references_Inr: "with_references s m = Inr s' \<longleftrightarrow> (\<exists>c. m = Inr c \<and> s' = s\<lparr>xs_references := c\<rparr>)"
  by (auto simp: with_references_def res_bind_eq_Inr)

text \<open>What an accepted event does to the bookkeeping, apart from the references.\<close>

definition scan_step :: "test_event \<Rightarrow> export_scan \<Rightarrow> export_scan" where
  "scan_step e s =
     (case te_payload e of
        ActionStarted call \<Rightarrow>
          s\<lparr>xs_seen_calls := bs_insert (rac_id call) (xs_seen_calls s),
            xs_in_flight := bt_insert (rac_id call)
              \<lparr>bc_request_id = te_request_id e, bc_device_id = te_device_id e,
               bc_arguments_redacted = rac_arguments_redacted call\<rparr> (xs_in_flight s)\<rparr>
      | ActionCompleted i _ \<Rightarrow> s\<lparr>xs_in_flight := AList.delete i (xs_in_flight s)\<rparr>
      | MediaStreamStarted stream \<Rightarrow>
          s\<lparr>xs_seen_media_streams := bs_insert (ms_id stream) (xs_seen_media_streams s),
            xs_media_streams := bt_insert (ms_id stream) (ms_media_type stream, 1) (xs_media_streams s)\<rparr>
      | MediaFrameCaptured frame \<Rightarrow>
          (case map_of (xs_media_streams s) (mf_stream_id frame) of
             None \<Rightarrow> s
           | Some (t, n) \<Rightarrow> s\<lparr>xs_media_streams := bt_insert (mf_stream_id frame) (t, n + 1) (xs_media_streams s)\<rparr>)
      | MediaStreamEnded i _ \<Rightarrow> s\<lparr>xs_media_streams := AList.delete i (xs_media_streams s)\<rparr>
      | _ \<Rightarrow> s)"

lemma scan_inv_references [simp]: "scan_inv es (s\<lparr>xs_references := c\<rparr>) = scan_inv es s"
  by (simp add: scan_inv_def book_inv_def)

lemma validate_payload_step:
  assumes "validate_payload protocol limits session ended_at is_first is_last e s = Inr s'"
  shows "s'\<lparr>xs_references := c\<rparr> = (scan_step e s)\<lparr>xs_references := c\<rparr>"
proof (cases "te_payload e")
  case (ActionCompleted i outcome)
  then show ?thesis
    using assms by (cases outcome)
      (auto simp: validate_payload_def scan_step_def res_bind_eq_Inr with_references_Inr Let_def ok_or_eq_Inr)
qed (use assms in \<open>auto simp: validate_payload_def scan_step_def res_bind_eq_Inr with_references_Inr Let_def
      ok_or_eq_Inr\<close>)

lemma scan_step_inv:
  assumes "scan_inv es s"
  shows "scan_inv (es @ [e]) (scan_step e (s\<lparr>xs_event_ids := bs_insert (te_event_id e) (xs_event_ids s)\<rparr>))"
proof -
  have calls: "map_option plain (map_of (xs_in_flight s) i) = open_calls es i"
    and streams: "map_option stream_of (map_of (xs_media_streams s) j) = open_streams es j" for i j
    using assms by (auto simp: scan_inv_def book_inv_def fun_eq_iff)
  show ?thesis
    using assms calls [symmetric] streams [symmetric]
    by (cases "te_payload e")
      (auto simp: scan_inv_def book_inv_def scan_step_def log_views call_step_def stream_step_def fun_eq_iff set_bs_insert
        bt_wf_insert bt_wf_remove map_of_delete_fun plain_def stream_of_def correlation_of_def
        split: option.splits)
qed

subsection \<open>An accepted event is legal, a legal event is not refused for its structure\<close>

fun structural :: "model_error \<Rightarrow> bool" where
  "structural SessionNotEnded = True"
| "structural InvalidEndedSession = True"
| "structural InvalidEventSequence = True"
| "structural EventSessionMismatch = True"
| "structural InvalidLifecycle = True"
| "structural (DuplicateActionCall _) = True"
| "structural (ActionNotStarted _) = True"
| "structural (ActionCorrelationMismatch _) = True"
| "structural (ActionResultMismatch _) = True"
| "structural ActionStillInFlight = True"
| "structural InvalidMediaStream = True"
| "structural MediaStreamStillInFlight = True"
| "structural _ = False"

lemma collector_add_errors: "collector_add limits c r = Inl err \<Longrightarrow> \<not> structural err"
  by (auto simp: collector_add_def res_bind_eq_Inl Let_def ok_or_def res_map_err_def split: option.splits sum.splits)

lemma collector_add_ref: "collector_add limits c r = Inr c' \<Longrightarrow> is_ok (from_asset_ref r)"
  by (cases "from_asset_ref r") (auto simp: collector_add_def res_bind_eq_Inr)

lemma collector_add_with_length_errors: "collector_add_with_length limits c rl = Inl err \<Longrightarrow> \<not> structural err"
  by (auto simp: collector_add_with_length_def res_bind_eq_Inl ok_or_def res_map_err_def
      split: option.splits sum.splits prod.splits dest: collector_add_errors)

lemma res_fold_errors:
  "res_fold f s xs = Inl err \<Longrightarrow> (\<And>s x. f s x = Inl err \<Longrightarrow> \<not> structural err) \<Longrightarrow> \<not> structural err"
  by (induction xs arbitrary: s) (auto simp: res_bind_eq_Inl)

lemma json_errors: "json_loop limits pending n = Inl err \<Longrightarrow> \<not> structural err"
  by (induction limits pending n rule: json_loop.induct)
    (auto simp: json_loop.simps(2) Let_def split: if_splits option.splits)

lemma json_value_errors: "validate_json_value v d limits = Inl err \<Longrightarrow> \<not> structural err"
  unfolding validate_json_value_def by (rule json_errors)

lemma fold_json_errors: "res_fold (\<lambda>_ v. validate_json_value v d limits) u vs = Inl err \<Longrightarrow> \<not> structural err"
  by (erule res_fold_errors) (rule json_value_errors)

lemma require_errors:
  "require_protocol_12 p f = Inl err \<Longrightarrow> \<not> structural err"
  "require_protocol_14 p f = Inl err \<Longrightarrow> \<not> structural err"
  "require_protocol_15 p f = Inl err \<Longrightarrow> \<not> structural err"
  by (auto simp: require_protocol_12_def require_protocol_14_def require_protocol_15_def split: if_splits)

lemma observation_errors: "validate_observation o1 p limits = Inl err \<Longrightarrow> \<not> structural err"
  by (auto simp: validate_observation_def res_bind_eq_Inl dest: require_errors fold_json_errors split: if_splits)

lemma error_details_errors: "validate_error_details e limits = Inl err \<Longrightarrow> \<not> structural err"
  by (auto simp: validate_error_details_def dest: json_value_errors split: option.splits)

lemma fold_errors:
  "res_fold (\<lambda>_ o1. validate_observation o1 p limits) u os = Inl err \<Longrightarrow> \<not> structural err"
  "res_fold (collector_add limits) c rs = Inl err \<Longrightarrow> \<not> structural err"
  "res_fold (collector_add_with_length limits) c rls = Inl err \<Longrightarrow> \<not> structural err"
  by (erule res_fold_errors, erule observation_errors collector_add_errors collector_add_with_length_errors)+

lemmas scan_errors =
  json_value_errors require_errors observation_errors error_details_errors collector_add_errors fold_errors

lemma success_errors:
  assumes "validate_success p limits i redacted r c = Inl err" "rs_call_id r = i"
  shows "\<not> structural err"
proof -
  have "\<not> structural err" if "validate_execution p x = Inl err" for x
    using that by (auto simp: validate_execution_def res_bind_eq_Inl dest: require_errors split: option.splits)
  moreover have "\<not> structural err" if "validate_success_omission p redacted r = Inl err"
    using that by (auto simp: validate_success_omission_def split: if_splits)
  ultimately show ?thesis
    using assms unfolding validate_success_def
    by (auto simp: res_bind_eq_Inl dest: scan_errors)
qed

lemma scan_lookup:
  assumes "book_inv es s"
  shows "open_calls es i = map_option plain (map_of (xs_in_flight s) i)"
    and "open_streams es j = map_option stream_of (map_of (xs_media_streams s) j)"
  using assms by (auto simp: book_inv_def fun_eq_iff)

lemma media_type_characters:
  assumes "validate_media_type t = Inr ()"
  shows "t \<noteq> [] \<and> length t \<le> 255 \<and> \<not> list_ex is_ascii_control t"
proof -
  obtain a b where "t = a @ CHR ''/'' # b" "valid_media_part a" "valid_media_part b" "length t \<le> 255"
    using assms by (auto simp: validate_media_type_def MAX_MEDIA_TYPE_LENGTH_def split_once_Some
        split: if_splits option.splits)
  moreover have graphic: "\<not> is_ascii_control c" if "is_ascii_graphic c" for c
    using that unfolding is_ascii_graphic_def is_ascii_control_def by linarith
  moreover have "\<not> list_ex is_ascii_control x" if "valid_media_part x" for x
    using that graphic unfolding valid_media_part_def list_all_iff list_ex_iff by blast
  moreover have "is_ascii_graphic CHR ''/''" by (simp add: is_ascii_graphic_def)
  ultimately show ?thesis by simp
qed

lemma accepted_payload_legal:
  assumes inv: "book_inv es s" and ok: "validate_payload p limits session ended False is_last e s = Inr s'"
    and media: "\<And>m. te_payload e = MediaStreamStarted m \<Longrightarrow> validate_media_type (ms_media_type m) = Inr ()"
  shows "is_session_ended (te_payload e) \<Longrightarrow> is_last"
    and "\<not> is_session_ended (te_payload e) \<Longrightarrow> legal_event es e"
proof -
  note lookup = scan_lookup [OF inv]
  have seen: "set (xs_seen_calls s) = set (started_calls es)"
    "set (xs_seen_media_streams s) = set (started_streams es)"
    using inv by (auto simp: book_inv_def)
  have index: "Suc (n - Suc 0) = n" if "map_of (xs_media_streams s) i = Some (t, n)" for i t n
  proof -
    have "1 \<le> n" using inv that unfolding book_inv_def by blast
    then show ?thesis by simp
  qed
  show "is_session_ended (te_payload e) \<Longrightarrow> is_last"
    using ok by (auto simp: validate_payload_def is_session_ended_def res_bind_eq_Inr
        split: test_event_payload.splits)
  note defs = validate_payload_def legal_event_def res_bind_eq_Inr ok_or_eq_Inr Let_def lookup seen
    is_session_ended_def plain_def stream_of_def correlation_of_def with_references_Inr
  assume "\<not> is_session_ended (te_payload e)"
  then show "legal_event es e"
  proof (cases "te_payload e")
    case (ActionCompleted i outcome)
    then show ?thesis using ok by (cases outcome) (auto simp: defs validate_success_def)
  next
    case (MediaStreamStarted m)
    then show ?thesis
      using ok media by (auto simp: defs media_stream_started_ok_def viewport_is_bad_def split: option.splits)
  next
    case (MediaStreamEnded i k)
    then obtain t n where "map_of (xs_media_streams s) i = Some (t, n)" "k = n - 1"
      using ok by (auto simp: defs)
    then show ?thesis using MediaStreamEnded index by (auto simp: legal_event_def lookup stream_of_def)
  qed (use ok in \<open>auto simp: defs dest: collector_add_ref split: option.splits\<close>)
qed

lemma legal_payload_accepted:
  assumes inv: "book_inv es s" and legal: "legal_event es e"
    and last: "is_last \<longleftrightarrow> is_session_ended (te_payload e)" "is_last \<Longrightarrow> te_at_ms e = ended"
    and err: "validate_payload p limits session ended False is_last e s = Inl err"
  shows "\<not> structural err"
proof -
  note lookup = scan_lookup [OF inv]
  have seen: "set (xs_seen_calls s) = set (started_calls es)"
    "set (xs_seen_media_streams s) = set (started_streams es)"
    using inv by (auto simp: book_inv_def)
  note defs = validate_payload_def res_bind_eq_Inl Let_def with_references_def
  note failed = err [unfolded last(1)]
  show ?thesis
  proof (cases "te_payload e")
    case (SessionEnded a b)
    then show ?thesis using failed last by (auto simp: defs is_session_ended_def)
  next
    case (ObservationCaptured o1)
    then show ?thesis using failed by (auto simp: defs is_session_ended_def dest: scan_errors)
  next
    case (ActionStarted call)
    then show ?thesis
      using failed legal
      by (auto simp: defs is_session_ended_def legal_event_def seen dest: scan_errors split: if_splits)
  next
    case (ActionCompleted i outcome)
    then obtain c where c: "map_of (xs_in_flight s) i = Some c" "plain c = correlation_of e"
      and r: "\<And>r. outcome = ActionSucceeded r \<Longrightarrow> rs_call_id r = i"
      using legal by (auto simp: legal_event_def lookup)
    then show ?thesis
      using failed ActionCompleted
      by (cases outcome)
        (auto simp: defs is_session_ended_def plain_def correlation_of_def dest: scan_errors success_errors)
  next
    case (MediaStreamStarted m)
    then have "media_stream_started_ok False False (xs_seen_media_streams s) m"
      using legal media_type_characters [of "ms_media_type m"]
      by (auto simp: media_stream_started_ok_def legal_event_def seen viewport_is_bad_def split: option.split)
    then show ?thesis
      using failed MediaStreamStarted by (auto simp: defs is_session_ended_def dest: scan_errors)
  next
    case (MediaFrameCaptured f)
    then obtain t n where "map_of (xs_media_streams s) (mf_stream_id f) = Some (t, n)" "mf_frame_index f = n"
      "ar_media_type (mf_evidence f) = t" "\<And>d. mf_duration_ms f = Some d \<Longrightarrow> d \<le> MAX_SAFE_INTEGER"
      using legal by (auto simp: legal_event_def lookup stream_of_def)
    then show ?thesis
      using failed MediaFrameCaptured
      by (auto simp: defs is_session_ended_def dest: scan_errors split: option.splits)
  next
    case (MediaStreamEnded i k)
    then obtain t n where "map_of (xs_media_streams s) i = Some (t, n)" "Suc k = n"
      using legal by (auto simp: legal_event_def lookup stream_of_def)
    then show ?thesis
      using failed MediaStreamEnded by (auto simp: defs is_session_ended_def dest: scan_errors)
  next
    case (VerdictRecorded v)
    then show ?thesis using failed by (auto simp: defs is_session_ended_def dest: scan_errors)
  next
    case (ErrorEvent x)
    then show ?thesis using failed by (auto simp: defs is_session_ended_def dest: scan_errors)
  qed (use legal in \<open>simp add: legal_event_def\<close>)
qed

subsection \<open>The loop over the events\<close>

abbreviation seen_event :: "test_event \<Rightarrow> export_scan \<Rightarrow> export_scan" where
  "seen_event e s \<equiv> s\<lparr>xs_event_ids := bs_insert (te_event_id e) (xs_event_ids s)\<rparr>"

lemma accepted_event:
  assumes "validate_export_event p limits session ended count s (k, e) = Inr s'"
  shows "te_sequence e = Suc k" "Suc k \<le> MAX_SAFE_INTEGER" "te_session_id e = si_id session"
    "te_event_id e \<notin> set (xs_event_ids s)"
    "k = 0 \<Longrightarrow> te_payload e = SessionStarted" "Suc k = count \<Longrightarrow> is_session_ended (te_payload e)"
    "validate_payload p limits session ended (k = 0) (Suc k = count) e (seen_event e s) = Inr s'"
  using assms
  by (auto simp: validate_export_event_def res_bind_eq_Inr ok_or_eq_Inr event_sequence_new_eq_Some valid_sequence_def Let_def)

lemma accepted_event_inv:
  assumes "scan_inv es s" "validate_export_event p limits session ended count s (k, e) = Inr s'"
  shows "scan_inv (es @ [e]) s'"
proof -
  from validate_payload_step [OF accepted_event(7) [OF assms(2)]] scan_step_inv [OF assms(1), of e]
  show ?thesis by (metis scan_inv_references)
qed

lemma accepted_legal:
  assumes "scan_inv es s" "validate_export_event p limits session ended count s (k, e) = Inr s'" "k \<noteq> 0"
    and "\<And>m. te_payload e = MediaStreamStarted m \<Longrightarrow> validate_media_type (ms_media_type m) = Inr ()"
  shows "is_session_ended (te_payload e) \<longleftrightarrow> Suc k = count"
    and "\<not> is_session_ended (te_payload e) \<Longrightarrow> legal_event es e"
proof -
  note ev = accepted_event [OF assms(2)]
  have "book_inv es (seen_event e s)" using assms(1) by (simp add: scan_inv_def)
  moreover have "validate_payload p limits session ended False (Suc k = count) e (seen_event e s) = Inr s'"
    using ev(7) assms(3) by simp
  ultimately have legal: "is_session_ended (te_payload e) \<Longrightarrow> Suc k = count"
    "\<not> is_session_ended (te_payload e) \<Longrightarrow> legal_event es e"
    using accepted_payload_legal assms(4) by blast+
  show "is_session_ended (te_payload e) \<longleftrightarrow> Suc k = count" using legal(1) ev(6) by blast
  show "\<not> is_session_ended (te_payload e) \<Longrightarrow> legal_event es e" by (rule legal(2))
qed

lemma scan_sound:
  assumes "res_fold (validate_export_event p limits session ended count) export_scan_new (List.enumerate 0 es) = Inr s"
    and "length es < count"
    and "\<And>e. e \<in> set es \<Longrightarrow> te_at_ms e \<le> MAX_SAFE_INTEGER"
    and "\<And>e m. e \<in> set es \<Longrightarrow> te_payload e = MediaStreamStarted m \<Longrightarrow> validate_media_type (ms_media_type m) = Inr ()"
  shows "scan_inv es s \<and> distinct (map te_event_id es) \<and> (es \<noteq> [] \<longrightarrow> legal_log (si_id session) es \<and> \<not> log_ended es)"
  using assms
proof (induction es arbitrary: s rule: rev_induct)
  case Nil
  then show ?case by (simp add: scan_inv_new)
next
  case (snoc e es)
  from snoc.prems(1) obtain s1 where
    s1: "res_fold (validate_export_event p limits session ended count) export_scan_new (List.enumerate 0 es) = Inr s1"
    and e: "validate_export_event p limits session ended count s1 (length es, e) = Inr s"
    by (auto simp: enumerate_append_eq res_fold_append res_bind_eq_Inr)
  have IH: "scan_inv es s1" "distinct (map te_event_id es)"
    "es \<noteq> [] \<Longrightarrow> legal_log (si_id session) es \<and> \<not> log_ended es"
    using snoc.IH [OF s1] snoc.prems(2-4) by auto
  note ev = accepted_event [OF e]
  have ids: "set (xs_event_ids s1) = te_event_id ` set es" using IH(1) by (simp add: scan_inv_def)
  have "legal_log (si_id session) (es @ [e]) \<and> \<not> log_ended (es @ [e])"
  proof (cases "es = []")
    case True
    then show ?thesis using ev(1,3,5) snoc.prems(3) by (auto simp: log_ended_def is_session_ended_def intro: legal_log.started)
  next
    case False
    then have "\<not> is_session_ended (te_payload e)" "legal_event es e"
      using accepted_legal [OF IH(1) e] snoc.prems(2,4) by auto
    then show ?thesis
      using IH(3) [OF False] ev(1-3) snoc.prems(3) by (auto simp: log_views intro: legal_log.appended)
  qed
  then show ?case using accepted_event_inv [OF IH(1) e] IH(2) ev(4) ids by simp
qed

lemma scan_fold_inv:
  "res_fold (validate_export_event p limits session ended count) export_scan_new (List.enumerate 0 es) = Inr s \<Longrightarrow>
   scan_inv es s"
proof (induction es arbitrary: s rule: rev_induct)
  case (snoc e es)
  then show ?case
    by (auto simp: enumerate_append_eq res_fold_append res_bind_eq_Inr intro: accepted_event_inv)
qed (simp add: scan_inv_new)

lemma legal_event_accepted:
  assumes inv: "scan_inv es s" and log: "legal_log (si_id session) (es @ [e])"
    and count: "log_ended (es @ [e]) \<longleftrightarrow> Suc (length es) = count"
    and times: "es = [] \<Longrightarrow> si_started_at_ms session = te_at_ms e" "log_ended (es @ [e]) \<Longrightarrow> ended = te_at_ms e"
    and err: "validate_export_event p limits session ended count s (length es, e) = Inl err"
  shows "\<not> structural err"
proof -
  have e: "te_sequence e = Suc (length es)" "te_session_id e = si_id session" "Suc (length es) \<le> MAX_SAFE_INTEGER"
    "es = [] \<Longrightarrow> te_payload e = SessionStarted" "es \<noteq> [] \<Longrightarrow> legal_event es e"
    using log by (auto elim: legal_log.cases simp: MAX_SAFE_INTEGER_def)
  then have payload: "te_event_id e \<in> set (xs_event_ids s) \<and> err = DuplicateEventId \<or>
      validate_payload p limits session ended (es = []) (Suc (length es) = count) e (seen_event e s) = Inl err"
    using err count
    by (auto simp: validate_export_event_def res_bind_eq_Inl ok_or_def event_sequence_new_def log_views Let_def
        split: option.splits if_splits)
  show ?thesis
  proof (cases "es = []")
    case True
    then show ?thesis
      using payload e(4) times(1) by (auto simp: validate_payload_def res_bind_eq_Inl)
  next
    case False
    have "book_inv es (seen_event e s)" using inv by (simp add: scan_inv_def)
    with payload False legal_payload_accepted [OF this e(5) [OF False], of "Suc (length es) = count" ended]
    show ?thesis using count times(2) by (auto simp: log_views)
  qed
qed

lemma scan_complete:
  assumes "legal_log (si_id session) es" "length es \<le> count" "log_ended es \<longleftrightarrow> length es = count"
    and "si_started_at_ms session = te_at_ms (hd es)" "log_ended es \<Longrightarrow> ended = te_at_ms (last es)"
    and "res_fold (validate_export_event p limits session ended count) export_scan_new (List.enumerate 0 es) = Inl err"
  shows "\<not> structural err"
  using assms
proof (induction es rule: rev_induct)
  case (snoc e es)
  let ?run = "res_fold (validate_export_event p limits session ended count) export_scan_new (List.enumerate 0 es)"
  show ?case
  proof (cases ?run)
    case (Inl err')
    then have "err' = err" "es \<noteq> []" using snoc.prems(6) by (auto simp: enumerate_append_eq res_fold_append)
    moreover from this have "legal_log (si_id session) es" "\<not> log_ended es"
      using legal_log_snocD [OF snoc.prems(1)] by auto
    ultimately show ?thesis using snoc.IH snoc.prems(2,4) Inl by (simp add: hd_append)
  next
    case (Inr s)
    then have "validate_export_event p limits session ended count s (length es, e) = Inl err"
      using snoc.prems(6) by (simp add: enumerate_append_eq res_fold_append res_bind_eq_Inl)
    with legal_event_accepted [OF scan_fold_inv [OF Inr] snoc.prems(1)] snoc.prems(3-5)
    show ?thesis by auto
  qed
qed simp

lemma ended_event_keeps_open:
  assumes "is_session_ended (te_payload e)"
  shows "open_calls (es @ [e]) = open_calls es" "open_streams (es @ [e]) = open_streams es"
    and "legal_event es e \<longleftrightarrow> open_calls es = Map.empty \<and> open_streams es = Map.empty"
  using assms
  by (cases "te_payload e"; simp add: log_views call_step_def stream_step_def is_session_ended_def legal_event_def)+

lemma legal_log_closed:
  assumes "legal_log sid es" "log_ended es"
  shows "open_calls es = Map.empty \<and> open_streams es = Map.empty"
  using assms
proof (cases rule: legal_log.cases)
  case (started e)
  then show ?thesis using assms(2) by (simp add: log_ended_def is_session_ended_def)
next
  case (appended es' e)
  then show ?thesis using assms(2) ended_event_keeps_open [of e es'] by (simp add: log_ended_snoc)
qed

lemma map_of_eq_empty: "map_option f \<circ> map_of m = Map.empty \<Longrightarrow> m = []"
  by (cases m) (auto simp: fun_eq_iff split: if_splits)


lemma finished_export:
  "\<exists>slog. get_log 1 finished_store = Some slog \<and> si_state (sl_info slog) = Ended \<and>
     export_session 1 finished_store = Inr \<lparr>sx_session = sl_info slog, sx_events = sl_events slog\<rparr> \<and>
     length (sl_events slog) = 4"
  using example_logs(3,4) by (auto simp: export_session_def)



lemmas bundle_eval =
  validate_export_def bundle_limits_default_def PROTOCOL_VERSION_def event_sequence_new_def
  validate_export_event_def validate_payload_def export_scan_new_def is_session_ended_def
  validate_json_value_def json_loop.simps checked_add_u64_def U64_MAX_def json_children_def
  validate_error_details_def MAX_SAFE_INTEGER_def reference_collector_new_def


end
