(* ===== verification/Bundle_References.thy ===== *)
theory Bundle_References
  imports Bundle_Properties
begin

text \<open>
  The Evidence references of a Session Bundle: the collector gathers exactly the references of the
  events, and the asset index of an accepted manifest lists exactly their digests.
\<close>

subsection \<open>The collector\<close>

definition collected ::
  "asset_ref set \<Rightarrow> (asset_ref \<times> nat) set \<Rightarrow> reference_collector \<Rightarrow> bool" where
  "collected R L c \<longleftrightarrow>
     bt_wf (rf_by_digest c) \<and>
     (\<forall>d. map_of (rf_by_digest c) d \<noteq> None \<longleftrightarrow> (\<exists>r \<in> R. from_asset_ref r = Inr d)) \<and>
     (\<forall>r \<in> R. \<exists>d ref. from_asset_ref r = Inr d \<and> map_of (rf_by_digest c) d = Some ref
        \<and> ar_media_type ref = ar_media_type r) \<and>
     (\<forall>(r, n) \<in> L. \<exists>d. from_asset_ref r = Inr d \<and> map_of (rf_declared_byte_lengths c) d = Some n)"

lemma collected_new: "collected {} {} reference_collector_new"
  by (simp add: collected_def reference_collector_new_def bt_wf_def)

lemma from_asset_ref_sha256: "from_asset_ref r = Inr d \<Longrightarrow> ar_sha256 r = Some d"
  by (auto simp: from_asset_ref_def res_bind_eq_Inr ok_or_eq_Inr res_map_err_def digest_parse_def
      split: sum.splits if_splits)

lemma collector_add_cases:
  assumes "collector_add limits c r = Inr c'"
  obtains d where "from_asset_ref r = Inr d" "rf_declared_byte_lengths c' = rf_declared_byte_lengths c"
    "(\<exists>ref. map_of (rf_by_digest c) d = Some ref \<and> ar_media_type ref = ar_media_type r \<and> rf_by_digest c' = rf_by_digest c)
     \<or> (map_of (rf_by_digest c) d = None \<and> rf_by_digest c' = bt_insert d r (rf_by_digest c))"
proof (cases "from_asset_ref r")
  case (Inr d)
  then show thesis
    using assms that [of d]
    by (cases "map_of (rf_by_digest c) d") (auto simp: collector_add_def res_bind_eq_Inr Let_def)
qed (use assms in \<open>auto simp: collector_add_def res_bind_eq_Inr\<close>)

lemma collected_add:
  assumes c: "collected R L c" and add: "collector_add limits c r = Inr c'"
  shows "collected (insert r R) L c'"
proof -
  from add obtain d where d: "from_asset_ref r = Inr d" "rf_declared_byte_lengths c' = rf_declared_byte_lengths c"
    and step: "(\<exists>ref. map_of (rf_by_digest c) d = Some ref \<and> ar_media_type ref = ar_media_type r \<and> rf_by_digest c' = rf_by_digest c)
     \<or> (map_of (rf_by_digest c) d = None \<and> rf_by_digest c' = bt_insert d r (rf_by_digest c))"
    by (rule collector_add_cases)
  from step show ?thesis
  proof
    assume "\<exists>ref. map_of (rf_by_digest c) d = Some ref \<and> ar_media_type ref = ar_media_type r \<and> rf_by_digest c' = rf_by_digest c"
    then show ?thesis using c d unfolding collected_def by (auto; blast)
  next
    assume new: "map_of (rf_by_digest c) d = None \<and> rf_by_digest c' = bt_insert d r (rf_by_digest c)"
    have old: "\<exists>d' ref. from_asset_ref r' = Inr d' \<and> map_of (rf_by_digest c') d' = Some ref \<and> ar_media_type ref = ar_media_type r'"
      if "r' \<in> R" for r'
    proof -
      obtain d' ref where "from_asset_ref r' = Inr d'" "map_of (rf_by_digest c) d' = Some ref"
        "ar_media_type ref = ar_media_type r'"
        using c \<open>r' \<in> R\<close> unfolding collected_def by blast
      moreover from this new have "d' \<noteq> d" by auto
      ultimately show ?thesis using new by auto
    qed
    have dom: "map_of (rf_by_digest c) x \<noteq> None \<longleftrightarrow> (\<exists>r \<in> R. from_asset_ref r = Inr x)" for x
      using c by (simp add: collected_def)
    have lens: "\<forall>(r, n) \<in> L. \<exists>d. from_asset_ref r = Inr d \<and> map_of (rf_declared_byte_lengths c') d = Some n"
      using c d(2) by (simp add: collected_def)
    have "bt_wf (rf_by_digest c')" using c new by (simp add: collected_def bt_wf_insert)
    moreover have "map_of (rf_by_digest c') x \<noteq> None \<longleftrightarrow> (\<exists>r \<in> insert r R. from_asset_ref r = Inr x)" for x
      using dom [of x] new d(1) by auto
    ultimately show ?thesis
      unfolding collected_def using old lens new d(1) by auto
  qed
qed

lemma collected_fold:
  "res_fold (collector_add limits) c rs = Inr c' \<Longrightarrow> collected R L c \<Longrightarrow> collected (R \<union> set rs) L c'"
proof (induction rs arbitrary: c R)
  case (Cons r rs)
  then obtain c1 where "collector_add limits c r = Inr c1" "res_fold (collector_add limits) c1 rs = Inr c'"
    by (auto simp: res_bind_eq_Inr)
  with Cons.IH [of c1 "insert r R"] collected_add Cons.prems(2) show ?case by fastforce
qed simp

lemma collected_lengthD:
  "collected R L c \<Longrightarrow> (a, m) \<in> L \<Longrightarrow> \<exists>d. from_asset_ref a = Inr d \<and> map_of (rf_declared_byte_lengths c) d = Some m"
  unfolding collected_def by fast

lemma collected_domD:
  "collected R L c \<Longrightarrow> d \<in> fst ` set (rf_by_digest c) \<longleftrightarrow> (\<exists>r \<in> R. from_asset_ref r = Inr d)"
proof -
  assume "collected R L c"
  then have "map_of (rf_by_digest c) d \<noteq> None \<longleftrightarrow> (\<exists>r \<in> R. from_asset_ref r = Inr d)"
    unfolding collected_def by (elim conjE) (rule spec)
  then show ?thesis unfolding map_of_eq_None_iff by simp
qed

lemma collected_refD:
  "collected R L c \<Longrightarrow> r \<in> R \<Longrightarrow>
   \<exists>d ref. from_asset_ref r = Inr d \<and> map_of (rf_by_digest c) d = Some ref \<and> ar_media_type ref = ar_media_type r"
  by (simp add: collected_def)

lemma collected_lengths:
  assumes "collected R L c" "rf_by_digest c' = rf_by_digest c"
    "\<And>a m. (a, m) \<in> L' \<Longrightarrow> \<exists>d. from_asset_ref a = Inr d \<and> map_of (rf_declared_byte_lengths c') d = Some m"
  shows "collected R L' c'"
  using assms(1) assms(3) unfolding collected_def assms(2) by (simp add: Ball_def)

lemma collected_add_with_length:
  assumes c: "collected R L c" and add: "collector_add_with_length limits c (r, n) = Inr c'"
  shows "collected (insert r R) (insert (r, n) L) c'"
proof -
  obtain c1 d where c1: "collector_add limits c r = Inr c1" "from_asset_ref r = Inr d"
    using add by (cases "from_asset_ref r") (auto simp: collector_add_with_length_def res_bind_eq_Inr)
  then have step: "rf_by_digest c' = rf_by_digest c1 \<and> map_of (rf_declared_byte_lengths c') d = Some n \<and>
      (\<forall>x y. map_of (rf_declared_byte_lengths c1) x = Some y \<longrightarrow> map_of (rf_declared_byte_lengths c') x = Some y)"
    using add by (cases "map_of (rf_declared_byte_lengths c1) d")
      (auto simp: collector_add_with_length_def res_bind_eq_Inr)
  have 1: "collected (insert r R) L c1" using collected_add [OF c c1(1)] .
  show ?thesis
  proof (rule collected_lengths [OF 1])
    show "rf_by_digest c' = rf_by_digest c1" using step by blast
    show "\<exists>d. from_asset_ref a = Inr d \<and> map_of (rf_declared_byte_lengths c') d = Some m" if "(a, m) \<in> insert (r, n) L" for a m
      using that collected_lengthD [OF 1, of a m] step c1(2) by auto
  qed
qed

lemma collected_fold_with_length:
  "res_fold (collector_add_with_length limits) c rls = Inr c' \<Longrightarrow> collected R L c \<Longrightarrow>
   collected (R \<union> fst ` set rls) (L \<union> set rls) c'"
proof (induction rls arbitrary: c R L)
  case (Cons rl rls)
  obtain r n where "rl = (r, n)" by (cases rl)
  with Cons.prems(1) obtain c1 where "collector_add_with_length limits c (r, n) = Inr c1"
    "res_fold (collector_add_with_length limits) c1 rls = Inr c'"
    by (auto simp: res_bind_eq_Inr)
  with Cons.IH [of c1 "insert r R" "insert (r, n) L"] collected_add_with_length Cons.prems(2) \<open>rl = (r, n)\<close>
  show ?case by fastforce
qed simp

subsection \<open>The references of the events\<close>

definition event_ui_snapshots :: "test_event_payload \<Rightarrow> (asset_ref \<times> nat) list" where
  "event_ui_snapshots p =
     (case p of
        ObservationCaptured o1 \<Rightarrow> ui_snapshots_of [o1]
      | ActionCompleted _ (ActionSucceeded r) \<Rightarrow> ui_snapshots_of (observations_of r)
      | _ \<Rightarrow> [])"

abbreviation refs_of :: "test_event list \<Rightarrow> asset_ref set" where
  "refs_of es \<equiv> \<Union>e \<in> set es. set (event_asset_refs (te_payload e))"

abbreviation lengths_of :: "test_event list \<Rightarrow> (asset_ref \<times> nat) set" where
  "lengths_of es \<equiv> \<Union>e \<in> set es. set (event_ui_snapshots (te_payload e))"

lemma observation_refs:
  "set (observation_asset_refs o1) = set (screenshots_of [o1]) \<union> fst ` set (ui_snapshots_of [o1])"
  by (cases "ob_screenshot o1"; cases "ob_ui_snapshot o1")
    (auto simp: observation_asset_refs_def screenshots_of_def ui_snapshots_of_def)

lemma action_result_refs:
  "set (action_result_asset_refs r) =
     set (screenshots_of (observations_of r) @ rs_evidence r) \<union> fst ` set (ui_snapshots_of (observations_of r))"
proof -
  have split: "screenshots_of [a, b] = screenshots_of [a] @ screenshots_of [b]"
    "ui_snapshots_of [a, b] = ui_snapshots_of [a] @ ui_snapshots_of [b]"
    "screenshots_of [] = []" "ui_snapshots_of [] = []" for a b
    by (simp_all add: screenshots_of_def ui_snapshots_of_def)
  show ?thesis
    by (cases "rs_before r"; cases "rs_after r")
      (simp_all add: action_result_asset_refs_def observations_of_def observation_refs split image_Un Un_ac)
qed

lemma collected_payload:
  assumes ok: "validate_payload p limits session ended is_first is_last e s = Inr s'"
    and c: "collected R L (xs_references s)"
  shows "collected (R \<union> set (event_asset_refs (te_payload e))) (L \<union> set (event_ui_snapshots (te_payload e))) (xs_references s')"
proof (cases "te_payload e")
  case (ObservationCaptured o1)
  then obtain c1 where "res_fold (collector_add limits) (xs_references s) (screenshots_of [o1]) = Inr c1"
    "res_fold (collector_add_with_length limits) c1 (ui_snapshots_of [o1]) = Inr (xs_references s')"
    using ok by (auto simp: validate_payload_def res_bind_eq_Inr with_references_Inr)
  then show ?thesis
    using collected_fold_with_length [OF _ collected_fold [OF _ c]] ObservationCaptured
    by (simp add: event_asset_refs_def event_ui_snapshots_def observation_refs Un_assoc)
next
  case (ActionCompleted i outcome)
  show ?thesis
  proof (cases outcome)
    case (ActionSucceeded r)
    then obtain c1 where
      "res_fold (collector_add limits) (xs_references s) (screenshots_of (observations_of r) @ rs_evidence r) = Inr c1"
      "res_fold (collector_add_with_length limits) c1 (ui_snapshots_of (observations_of r)) = Inr (xs_references s')"
      using ok ActionCompleted
      by (auto simp: validate_payload_def res_bind_eq_Inr with_references_Inr validate_success_def Let_def)
    from collected_fold_with_length [OF this(2) collected_fold [OF this(1) c]] show ?thesis
      using ActionCompleted ActionSucceeded
      by (simp add: event_asset_refs_def event_ui_snapshots_def action_result_refs Un_assoc)
  qed (use ok c ActionCompleted in \<open>auto simp: validate_payload_def res_bind_eq_Inr Let_def event_asset_refs_def
      event_ui_snapshots_def\<close>)
next
  case (MediaFrameCaptured f)
  then have "collector_add limits (xs_references s) (mf_evidence f) = Inr (xs_references s')"
    using ok by (auto simp: validate_payload_def res_bind_eq_Inr with_references_Inr)
  then show ?thesis
    using collected_add [OF c] MediaFrameCaptured by (simp add: event_asset_refs_def event_ui_snapshots_def)
next
  case (VerdictRecorded v)
  then have "res_fold (collector_add limits) (xs_references s) (vd_evidence v) = Inr (xs_references s')"
    using ok by (auto simp: validate_payload_def res_bind_eq_Inr with_references_Inr)
  then show ?thesis
    using collected_fold [OF _ c] VerdictRecorded by (simp add: event_asset_refs_def event_ui_snapshots_def)
qed (use ok c in \<open>auto simp: validate_payload_def res_bind_eq_Inr event_asset_refs_def event_ui_snapshots_def\<close>)

lemma collected_events:
  "res_fold (validate_export_event p limits session ended count) export_scan_new (List.enumerate 0 es) = Inr s \<Longrightarrow>
   collected (refs_of es) (lengths_of es) (xs_references s)"
proof (induction es arbitrary: s rule: rev_induct)
  case Nil
  then show ?case by (auto simp: export_scan_new_def collected_new)
next
  case (snoc e es)
  then obtain s1 where s1: "collected (refs_of es) (lengths_of es) (xs_references s1)"
    and e: "validate_export_event p limits session ended count s1 (length es, e) = Inr s"
    by (auto simp: enumerate_append_eq res_fold_append res_bind_eq_Inr)
  have "collected (refs_of es) (lengths_of es) (xs_references (seen_event e s1))" using s1 by simp
  from collected_payload [OF accepted_event(7) [OF e] this] show ?case by (simp add: Un_commute)
qed

lemma accepted_export_collected:
  assumes "validate_export protocol export limits = Inr references"
  shows "collected (refs_of (sx_events export)) (lengths_of (sx_events export)) references"
  using assms by (auto simp: validate_export_def Let_def res_bind_eq_Inr ok_or_eq_Inr dest: collected_events)

subsection \<open>The asset index\<close>

text \<open>After the assets \<open>as\<close> the index holds them under their digests, in their order.\<close>

definition indexed :: "bundle_limits \<Rightarrow> bundle_asset list \<Rightarrow> index_scan \<Rightarrow> bool" where
  "indexed limits as s \<longleftrightarrow>
     ix_indexed s = map (\<lambda>a. (bn_sha256 a, a)) as \<and>
     ix_previous_digest s = (if as = [] then None else Some (bn_sha256 (last as))) \<and>
     sorted_wrt (<) (map bn_sha256 as) \<and>
     ix_total_bytes s = sum_list (map bn_byte_length as) \<and>
     ix_total_bytes s \<le> bl_max_total_asset_bytes limits \<and>
     (\<forall>a \<in> set as. bn_path a = canonical_path (bn_sha256 a) \<and> bn_byte_length a \<le> bl_max_asset_bytes limits)"

lemma bt_insert_last: "\<forall>x \<in> set (map fst m). x < k \<Longrightarrow> bt_insert k v m = m @ [(k, v)]"
  by (induction k v m rule: bt_insert.induct) auto

lemma indexed_step:
  assumes "indexed limits as s" "validate_asset limits s a = Inr s'"
  shows "indexed limits (as @ [a]) s'"
proof -
  have d: "digest_parse (bn_sha256 a) = Inr (bn_sha256 a)" "bn_path a = canonical_path (bn_sha256 a)"
    "bn_byte_length a \<le> bl_max_asset_bytes limits" "ix_total_bytes s + bn_byte_length a \<le> bl_max_total_asset_bytes limits"
    "case ix_previous_digest s of Some previous \<Rightarrow> previous < bn_sha256 a | None \<Rightarrow> True"
    "s' = \<lparr>ix_indexed = bt_insert (bn_sha256 a) a (ix_indexed s), ix_previous_digest = Some (bn_sha256 a),
       ix_total_bytes = ix_total_bytes s + bn_byte_length a\<rparr>"
    using assms(2) by (auto simp: validate_asset_def res_bind_eq_Inr res_map_err_def digest_parse_def ok_or_eq_Inr
        checked_add_u64_eq_Some split: sum.splits if_splits)
  have less: "x < bn_sha256 a" if x: "x \<in> set (map bn_sha256 as)" for x
  proof -
    obtain bs b where "as = bs @ [b]" using x by (cases as rule: rev_cases) auto
    moreover from this have "x \<le> bn_sha256 b"
      using x assms(1) by (auto simp: indexed_def sorted_wrt_append)
    ultimately show ?thesis using d(5) assms(1) by (auto simp: indexed_def)
  qed
  then have "bt_insert (bn_sha256 a) a (ix_indexed s) = ix_indexed s @ [(bn_sha256 a, a)]"
    using assms(1) by (intro bt_insert_last) (auto simp: indexed_def)
  then show ?thesis
    using assms(1) d less by (auto simp: indexed_def sorted_wrt_append)
qed

lemma indexed_fold:
  "res_fold (validate_asset limits) s as = Inr s' \<Longrightarrow> indexed limits bs s \<Longrightarrow> indexed limits (bs @ as) s'"
proof (induction as arbitrary: s bs)
  case (Cons a as)
  then obtain s1 where "validate_asset limits s a = Inr s1" "res_fold (validate_asset limits) s1 as = Inr s'"
    by (auto simp: res_bind_eq_Inr)
  with Cons.IH [of s1 "bs @ [a]"] indexed_step [OF Cons.prems(2)] show ?case by simp
qed simp

lemma res_fold_all: "res_fold (\<lambda>_ x. f x) () xs = Inr u \<Longrightarrow> x \<in> set xs \<Longrightarrow> f x = Inr ()"
  by (induction xs) (auto simp: res_bind_eq_Inr)

lemma zip_eq_lists: "length xs = length ys \<Longrightarrow> list_all (\<lambda>(x, y). x = y) (zip xs ys) \<Longrightarrow> xs = ys"
  by (induction xs ys rule: list_induct2) auto

lemma accepted_index:
  assumes ok: "validate_asset_index assets c limits = Inr ()"
  shows "map bn_sha256 assets = map fst (rf_by_digest c)" "sorted_wrt (<) (map bn_sha256 assets)"
    "sum_list (map bn_byte_length assets) \<le> bl_max_total_asset_bytes limits"
    "a \<in> set assets \<Longrightarrow> bn_path a = canonical_path (bn_sha256 a) \<and> bn_byte_length a \<le> bl_max_asset_bytes limits"
    "map_of (rf_by_digest c) d = Some ref \<Longrightarrow> \<exists>a \<in> set assets. bn_sha256 a = d \<and> bn_media_type a = ar_media_type ref
       \<and> (\<forall>n. map_of (rf_declared_byte_lengths c) d = Some n \<longrightarrow> bn_byte_length a = n)"
proof -
  obtain s where run: "res_fold (validate_asset limits)
        \<lparr>ix_indexed = [], ix_previous_digest = None, ix_total_bytes = 0\<rparr> assets = Inr s"
    and same: "length (ix_indexed s) = length (rf_by_digest c)"
      "list_all (\<lambda>(i, r). i = r) (zip (map fst (ix_indexed s)) (map fst (rf_by_digest c)))"
    and each: "res_fold (\<lambda>_ (digest, reference).
         res_bind (ok_or (map_of (ix_indexed s) digest) AssetSetMismatch) (\<lambda>asset.
         res_bind (check (bn_media_type asset = ar_media_type reference) AssetMediaTypeMismatch) (\<lambda>_.
           check (case map_of (rf_declared_byte_lengths c) digest of
                    Some expected \<Rightarrow> bn_byte_length asset = expected | None \<Rightarrow> True)
             AssetByteLengthMismatch))) () (rf_by_digest c) = Inr ()"
    using ok by (auto simp: validate_asset_index_def res_bind_eq_Inr)
  have ix: "indexed limits assets s" using indexed_fold [OF run, of "[]"] by (simp add: indexed_def)
  show "map bn_sha256 assets = map fst (rf_by_digest c)"
    using zip_eq_lists [of "map fst (ix_indexed s)" "map fst (rf_by_digest c)"] same ix
    by (simp add: indexed_def comp_def)
  show "sorted_wrt (<) (map bn_sha256 assets)" "sum_list (map bn_byte_length assets) \<le> bl_max_total_asset_bytes limits"
    "a \<in> set assets \<Longrightarrow> bn_path a = canonical_path (bn_sha256 a) \<and> bn_byte_length a \<le> bl_max_asset_bytes limits"
    using ix by (auto simp: indexed_def)
  assume "map_of (rf_by_digest c) d = Some ref"
  then have "(d, ref) \<in> set (rf_by_digest c)" by (rule map_of_SomeD)
  from res_fold_all [OF each this] obtain a where "map_of (ix_indexed s) d = Some a" "bn_media_type a = ar_media_type ref"
    "\<forall>n. map_of (rf_declared_byte_lengths c) d = Some n \<longrightarrow> bn_byte_length a = n"
    by (auto simp: res_bind_eq_Inr ok_or_eq_Inr split: option.splits)
  moreover from this(1) have "a \<in> set assets" "bn_sha256 a = d"
    using ix by (auto simp: indexed_def dest!: map_of_SomeD)
  ultimately show "\<exists>a \<in> set assets. bn_sha256 a = d \<and> bn_media_type a = ar_media_type ref
       \<and> (\<forall>n. map_of (rf_declared_byte_lengths c) d = Some n \<longrightarrow> bn_byte_length a = n)"
    by blast
qed

text \<open>
  C34. The asset index of an accepted manifest is exactly what its events refer to: its entries are
  the digests of the references in the events, each once and in ascending order; every reference
  of an event finds an entry with its digest, its media type and the path derived from the digest;
  a UI snapshot's declared length is the length of its entry; and the lengths are within the limits.
\<close>

theorem accepted_manifest_index:
  assumes "validate_manifest_events manifest limits = Inr references"
  shows "sorted_wrt (<) (map bn_sha256 (bm_assets manifest)) \<and>
    map bn_sha256 (bm_assets manifest) = map fst references \<and>
    (\<forall>d. d \<in> set (map bn_sha256 (bm_assets manifest)) \<longleftrightarrow>
       (\<exists>r \<in> refs_of (bm_events manifest). from_asset_ref r = Inr d)) \<and>
    (\<forall>r \<in> refs_of (bm_events manifest). \<exists>a \<in> set (bm_assets manifest).
       ar_sha256 r = Some (bn_sha256 a) \<and> bn_media_type a = ar_media_type r
       \<and> bn_path a = canonical_path (bn_sha256 a)
       \<and> (\<forall>n. (r, n) \<in> lengths_of (bm_events manifest) \<longrightarrow> bn_byte_length a = n)) \<and>
    sum_list (map bn_byte_length (bm_assets manifest)) \<le> bl_max_total_asset_bytes limits"
proof -
  obtain c where c: "validate_export (bm_event_protocol_version manifest)
        \<lparr>sx_session = bm_session manifest, sx_events = bm_events manifest\<rparr> limits = Inr c"
    and ix: "validate_asset_index (bm_assets manifest) c limits = Inr ()" and refs: "references = rf_by_digest c"
    using assms by (auto simp: validate_manifest_events_def res_bind_eq_Inr)
  have col: "collected (refs_of (bm_events manifest)) (lengths_of (bm_events manifest)) c"
    using accepted_export_collected [OF c] by simp
  have dom: "d \<in> set (map fst (rf_by_digest c)) \<longleftrightarrow> (\<exists>r \<in> refs_of (bm_events manifest). from_asset_ref r = Inr d)" for d
    using collected_domD [OF col, of d] by simp
  have entry: "\<exists>a \<in> set (bm_assets manifest). ar_sha256 r = Some (bn_sha256 a) \<and> bn_media_type a = ar_media_type r
       \<and> bn_path a = canonical_path (bn_sha256 a)
       \<and> (\<forall>n. (r, n) \<in> lengths_of (bm_events manifest) \<longrightarrow> bn_byte_length a = n)"
    if r: "r \<in> refs_of (bm_events manifest)" for r
  proof -
    obtain d ref where d: "from_asset_ref r = Inr d" "map_of (rf_by_digest c) d = Some ref" "ar_media_type ref = ar_media_type r"
      using collected_refD [OF col r] by (elim exE conjE)
    obtain a where a: "a \<in> set (bm_assets manifest)" "bn_sha256 a = d" "bn_media_type a = ar_media_type ref"
      "\<And>n. map_of (rf_declared_byte_lengths c) d = Some n \<Longrightarrow> bn_byte_length a = n"
      using accepted_index(5) [OF ix d(2)] by blast
    have "bn_byte_length a = n" if "(r, n) \<in> lengths_of (bm_events manifest)" for n
      using collected_lengthD [OF col that] d(1) a(4) by auto
    then show ?thesis
      using a d accepted_index(4) [OF ix a(1)] from_asset_ref_sha256 [OF d(1)] by (intro bexI [of _ a]) simp_all
  qed
  show ?thesis
    using accepted_index(2,3) [OF ix] dom entry unfolding refs accepted_index(1) [OF ix]
    by (intro conjI allI ballI refl) assumption+
qed

definition example_event :: "nat \<Rightarrow> test_event_payload \<Rightarrow> test_event" where
  "example_event n payload =
     \<lparr>te_event_id = 100 + n, te_session_id = 1, te_sequence = n, te_request_id = None, te_device_id = None,
      te_at_ms = 10 * n, te_payload = payload\<rparr>"

definition example_manifest :: bundle_manifest where
  "example_manifest =
     \<lparr>bm_magic = BUNDLE_MAGIC, bm_bundle_version = BUNDLE_VERSION, bm_event_protocol_version = PROTOCOL_VERSION,
      bm_session = \<lparr>si_id = 1, si_state = Ended, si_started_at_ms = 10, si_ended_at_ms = Some 30,
        si_event_count = 3, si_last_sequence = 3\<rparr>,
      bm_events = [example_event 1 SessionStarted,
        example_event 2 (VerdictRecorded \<lparr>vd_status = Pass, vd_summary = ''ok'', vd_evidence = [example_asset]\<rparr>),
        example_event 3 (SessionEnded Completed None)],
      bm_assets = [\<lparr>bn_sha256 = replicate 64 CHR ''a'', bn_media_type = ''image/png'', bn_byte_length = 3,
        bn_path = canonical_path (replicate 64 CHR ''a'')\<rparr>]\<rparr>"

lemma example_manifest_accepted:
  "validate_manifest_events example_manifest bundle_limits_default = Inr [(replicate 64 CHR ''a'', example_asset)]"
proof -
  have parse: "digest_parse (replicate 64 CHR ''a'') = Inr (replicate 64 CHR ''a'')"
    by (simp add: digest_parse_def SHA256_HEX_LENGTH_def list_all_iff is_lower_hex_def is_ascii_digit_def)
  have "from_asset_ref \<lparr>ar_id = asset_id (replicate 64 CHR ''a''), ar_media_type = ''image/png'',
      ar_uri = asset_uri (replicate 64 CHR ''a''), ar_sha256 = Some (replicate 64 CHR ''a'')\<rparr> = Inr (replicate 64 CHR ''a'')"
    using example_asset_ok(1) by (simp add: example_asset_def Let_def)
  then show ?thesis
    using example_asset_ok parse
    by (simp add: example_manifest_def example_event_def validate_manifest_events_def validate_event_protocol_def
        bundle_eval collector_add_def with_references_def Let_def validate_asset_index_def validate_asset_def
        res_map_err_def)
qed

theorem accepted_manifest_index_witness:
  "\<exists>a. a \<in> set (bm_assets example_manifest) \<and> ar_sha256 example_asset = Some (bn_sha256 a)
     \<and> bn_media_type a = ar_media_type example_asset"
proof -
  have "example_asset \<in> refs_of (bm_events example_manifest)"
    by (simp add: example_manifest_def example_event_def event_asset_refs_def)
  with accepted_manifest_index [OF example_manifest_accepted] show ?thesis by blast
qed

end
