(* ===== verification/Media_Writer.thy ===== *)
theory Media_Writer
  imports Runtime Store_Properties
begin

text \<open>
  The media stream writer, \<open>crates/core/src/media.rs\<close>, over the memory event store.

  Its operations take the event store's \<open>append\<close> as an argument, so that a store whose answer gets
  lost after it has committed the event is one of the instances. A \<open>reading\<close> is what the control
  shows when it is looked at; \<open>lock_outcome\<close> is how the \<open>select!\<close> around the lock ends. An operation
  holds the writer's lock from there to its end.
\<close>

subsection \<open>State\<close>

record pending_frame =
  pf_request_id :: "rpc_id option"
  pf_at_ms :: nat
  pf_frame :: media_frame

record pending_terminal =
  pt_request_id :: "rpc_id option"
  pt_at_ms :: nat

record writer_state =
  mw_started :: bool
  mw_next_frame_index :: nat
  mw_pending :: "pending_frame option"
  mw_terminal_pending :: "pending_terminal option"
  mw_terminal_frame_count :: "nat option"

record media_stream_writer =
  mc_session_id :: session_id
  mc_default_request_id :: "rpc_id option"
  mc_device_id :: "device_id option"
  mc_stream :: media_stream_info
  mc_started_at_ms :: nat

datatype media_stream_error =
    MediaEvent event_store_error
  | MediaEvidence evidence_error
  | MediaCancelled
  | MediaTimedOut
  | MediaEnded
  | MediaInvalidFrame

type_synonym 's append_op = "pending_event \<Rightarrow> 's \<Rightarrow> (event_store_error + test_event) \<times> 's"

definition media_prepare :: writer_state where
  "media_prepare =
     \<lparr>mw_started = False, mw_next_frame_index = 1, mw_pending = None, mw_terminal_pending = None,
      mw_terminal_frame_count = None\<rparr>"

subsection \<open>Operations\<close>

definition start_pending :: "media_stream_writer \<Rightarrow> pending_event" where
  "start_pending mc =
     \<lparr>pv_session_id = mc_session_id mc, pv_request_id = mc_default_request_id mc, pv_device_id = mc_device_id mc,
      pv_at_ms = mc_started_at_ms mc, pv_payload = MediaStreamStarted (mc_stream mc)\<rparr>"

definition frame_pending :: "media_stream_writer \<Rightarrow> pending_frame \<Rightarrow> pending_event" where
  "frame_pending mc pf =
     \<lparr>pv_session_id = mc_session_id mc, pv_request_id = pf_request_id pf, pv_device_id = mc_device_id mc,
      pv_at_ms = pf_at_ms pf, pv_payload = MediaFrameCaptured (pf_frame pf)\<rparr>"

definition end_pending :: "media_stream_writer \<Rightarrow> pending_terminal \<Rightarrow> nat \<Rightarrow> pending_event" where
  "end_pending mc pt frame_count =
     \<lparr>pv_session_id = mc_session_id mc, pv_request_id = pt_request_id pt, pv_device_id = mc_device_id mc,
      pv_at_ms = pt_at_ms pt, pv_payload = MediaStreamEnded (ms_id (mc_stream mc)) frame_count\<rparr>"

definition ensure_started_locked ::
  "'s append_op \<Rightarrow> media_stream_writer \<Rightarrow> writer_state \<Rightarrow> 's \<Rightarrow> (media_stream_error + unit) \<times> writer_state \<times> 's" where
  "ensure_started_locked append_to mc w s =
     (if mw_started w then (Inr (), w, s)
      else case append_to (start_pending mc) s of
        (Inl e, s') \<Rightarrow> (Inl (MediaEvent e), w, s')
      | (Inr _, s') \<Rightarrow> (Inr (), w\<lparr>mw_started := True\<rparr>, s'))"

definition flush_pending ::
  "'s append_op \<Rightarrow> media_stream_writer \<Rightarrow> writer_state \<Rightarrow> 's \<Rightarrow> (media_stream_error + unit) \<times> writer_state \<times> 's" where
  "flush_pending append_to mc w s =
     (case mw_pending w of
        None \<Rightarrow> (Inr (), w, s)
      | Some pf \<Rightarrow>
          (case append_to (frame_pending mc pf) s of
             (Inl e, s') \<Rightarrow> (Inl (MediaEvent e), w, s')
           | (Inr _, s') \<Rightarrow> (Inr (), w\<lparr>mw_pending := None, mw_next_frame_index := mw_next_frame_index w + 1\<rparr>, s')))"

definition media_ensure_active :: "reading \<Rightarrow> execution_control \<Rightarrow> media_stream_error + unit" where
  "media_ensure_active r control =
     (if rd_cancel r \<noteq> None then Inl MediaCancelled
      else if is_expired (rd_now r) control then Inl MediaTimedOut
      else Inr ())"

datatype lock_outcome = LockAcquired | LockCancelled | LockTimedOut

text \<open>
  The part the two kinds of frames share: the checks up to the Evidence operation, which is
  \<open>evidence\<close>, and the commit of the frame after it.
\<close>

definition push_locked ::
  "'s append_op \<Rightarrow> media_stream_writer \<Rightarrow> execution_control \<Rightarrow> reading \<Rightarrow>
   ('e \<Rightarrow> (evidence_error + stored_evidence) \<times> 'e) \<Rightarrow> rpc_id option \<Rightarrow> nat \<Rightarrow> bool \<Rightarrow> nat option \<Rightarrow>
   writer_state \<Rightarrow> 's \<Rightarrow> 'e \<Rightarrow> (media_stream_error + media_frame) \<times> writer_state \<times> 's \<times> 'e" where
  "push_locked append_to mc control after evidence request_id at_ms key_frame duration_ms w s es =
     (case ensure_started_locked append_to mc w s of
        (Inl e, w1, s1) \<Rightarrow> (Inl e, w1, s1, es)
      | (Inr _, w1, s1) \<Rightarrow>
          if mw_terminal_frame_count w1 \<noteq> None then (Inl MediaEnded, w1, s1, es)
          else case flush_pending append_to mc w1 s1 of
            (Inl e, w2, s2) \<Rightarrow> (Inl e, w2, s2, es)
          | (Inr _, w2, s2) \<Rightarrow>
              (case media_ensure_active after control of
                 Inl e \<Rightarrow> (Inl e, w2, s2, es)
               | Inr _ \<Rightarrow>
                   (case event_sequence_new (mw_next_frame_index w2) of
                      None \<Rightarrow> (Inl MediaInvalidFrame, w2, s2, es)
                    | Some frame_index \<Rightarrow>
                        (case evidence es of
                           (Inl e, es') \<Rightarrow> (Inl (MediaEvidence e), w2, s2, es')
                         | (Inr stored, es') \<Rightarrow>
                             let frame = \<lparr>mf_stream_id = ms_id (mc_stream mc), mf_frame_index = frame_index,
                                   mf_key_frame = key_frame, mf_duration_ms = duration_ms,
                                   mf_evidence = stored_asset_ref stored\<rparr>;
                                 w3 = w2\<lparr>mw_pending := Some \<lparr>pf_request_id = request_id, pf_at_ms = at_ms,
                                        pf_frame = frame\<rparr>\<rparr>
                             in (case flush_pending append_to mc w3 s2 of
                                   (Inl e, w4, s4) \<Rightarrow> (Inl e, w4, s4, es')
                                 | (Inr _, w4, s4) \<Rightarrow> (Inr frame, w4, s4, es'))))))"

definition lock_writer :: "lock_outcome \<Rightarrow> (media_stream_error + 'a) option" where
  "lock_writer lock =
     (case lock of LockAcquired \<Rightarrow> None | LockCancelled \<Rightarrow> Some (Inl MediaCancelled)
      | LockTimedOut \<Rightarrow> Some (Inl MediaTimedOut))"

definition duration_is_safe :: "nat option \<Rightarrow> bool" where
  "duration_is_safe duration_ms = (case duration_ms of Some d \<Rightarrow> d \<le> MAX_SAFE_INTEGER | None \<Rightarrow> True)"

definition push_frame_with_request_id ::
  "'s append_op \<Rightarrow> ('i, 'e) store_put \<Rightarrow> media_stream_writer \<Rightarrow> execution_control \<Rightarrow> reading \<Rightarrow> lock_outcome \<Rightarrow>
   reading \<Rightarrow> rpc_id option \<Rightarrow> nat \<Rightarrow> bool \<Rightarrow> nat option \<Rightarrow> nat \<Rightarrow> 'i \<Rightarrow>
   writer_state \<Rightarrow> 's \<Rightarrow> 'e \<Rightarrow> (media_stream_error + media_frame) \<times> writer_state \<times> 's \<times> 'e" where
  "push_frame_with_request_id append_to put mc control before lock after request_id at_ms key_frame duration_ms
       declared_size_bytes input w s es =
     (case media_ensure_active before control of
        Inl e \<Rightarrow> (Inl e, w, s, es)
      | Inr _ \<Rightarrow>
          if declared_size_bytes = 0 \<or> \<not> duration_is_safe duration_ms then (Inl MediaInvalidFrame, w, s, es)
          else case lock_writer lock of
            Some e \<Rightarrow> (e, w, s, es)
          | None \<Rightarrow>
              push_locked append_to mc control after
                (\<lambda>es. case put_evidence_new (mc_session_id mc) (ms_media_type (mc_stream mc)) of
                         Inl e \<Rightarrow> (Inl e, es)
                       | Inr request \<Rightarrow> put (with_declared_size_bytes declared_size_bytes request) input es)
                request_id at_ms key_frame duration_ms w s es)"

definition push_asset_frame_with_request_id ::
  "'s append_op \<Rightarrow> 'e store_attach \<Rightarrow> media_stream_writer \<Rightarrow> execution_control \<Rightarrow> reading \<Rightarrow> lock_outcome \<Rightarrow>
   reading \<Rightarrow> rpc_id option \<Rightarrow> nat \<Rightarrow> bool \<Rightarrow> nat option \<Rightarrow> asset_ref \<Rightarrow>
   writer_state \<Rightarrow> 's \<Rightarrow> 'e \<Rightarrow> (media_stream_error + media_frame) \<times> writer_state \<times> 's \<times> 'e" where
  "push_asset_frame_with_request_id append_to attach_to mc control before lock after request_id at_ms key_frame
       duration_ms asset w s es =
     (case media_ensure_active before control of
        Inl e \<Rightarrow> (Inl e, w, s, es)
      | Inr _ \<Rightarrow>
          if ar_media_type asset \<noteq> ms_media_type (mc_stream mc) \<or> \<not> duration_is_safe duration_ms
          then (Inl MediaInvalidFrame, w, s, es)
          else case lock_writer lock of
            Some e \<Rightarrow> (e, w, s, es)
          | None \<Rightarrow>
              push_locked append_to mc control after (attach_to (mc_session_id mc) asset)
                request_id at_ms key_frame duration_ms w s es)"

definition close_stream ::
  "'s append_op \<Rightarrow> media_stream_writer \<Rightarrow> rpc_id option \<Rightarrow> nat \<Rightarrow> writer_state \<Rightarrow> 's \<Rightarrow>
   (media_stream_error + nat) \<times> writer_state \<times> 's" where
  "close_stream append_to mc request_id at_ms w s =
     (case mw_terminal_frame_count w of
        Some frame_count \<Rightarrow> (Inr frame_count, w, s)
      | None \<Rightarrow>
          (case ensure_started_locked append_to mc w s of
             (Inl e, w1, s1) \<Rightarrow> (Inl e, w1, s1)
           | (Inr _, w1, s1) \<Rightarrow>
               (case flush_pending append_to mc w1 s1 of
                  (Inl e, w2, s2) \<Rightarrow> (Inl e, w2, s2)
                | (Inr _, w2, s2) \<Rightarrow>
                    let frame_count = mw_next_frame_index w2 - 1;
                        terminal = (case mw_terminal_pending w2 of Some t \<Rightarrow> t
                          | None \<Rightarrow> \<lparr>pt_request_id = request_id, pt_at_ms = at_ms\<rparr>);
                        w3 = w2\<lparr>mw_terminal_pending := Some terminal\<rparr>
                    in (case append_to (end_pending mc terminal frame_count) s2 of
                          (Inl e, s3) \<Rightarrow> (Inl (MediaEvent e), w3, s3)
                        | (Inr _, s3) \<Rightarrow>
                            (Inr frame_count,
                             w3\<lparr>mw_terminal_pending := None, mw_terminal_frame_count := Some frame_count\<rparr>, s3)))))"

text \<open>The public operations under the request that opened the stream.\<close>

definition media_ensure_started ::
  "'s append_op \<Rightarrow> media_stream_writer \<Rightarrow> writer_state \<Rightarrow> 's \<Rightarrow> (media_stream_error + unit) \<times> writer_state \<times> 's" where
  "media_ensure_started append_to mc w s = ensure_started_locked append_to mc w s"

definition push_frame ::
  "'s append_op \<Rightarrow> ('i, 'e) store_put \<Rightarrow> media_stream_writer \<Rightarrow> execution_control \<Rightarrow> reading \<Rightarrow> lock_outcome \<Rightarrow>
   reading \<Rightarrow> nat \<Rightarrow> bool \<Rightarrow> nat option \<Rightarrow> nat \<Rightarrow> 'i \<Rightarrow>
   writer_state \<Rightarrow> 's \<Rightarrow> 'e \<Rightarrow> (media_stream_error + media_frame) \<times> writer_state \<times> 's \<times> 'e" where
  "push_frame append_to put mc control before lock after =
     push_frame_with_request_id append_to put mc control before lock after (mc_default_request_id mc)"

definition push_asset_frame ::
  "'s append_op \<Rightarrow> 'e store_attach \<Rightarrow> media_stream_writer \<Rightarrow> execution_control \<Rightarrow> reading \<Rightarrow> lock_outcome \<Rightarrow>
   reading \<Rightarrow> nat \<Rightarrow> bool \<Rightarrow> nat option \<Rightarrow> asset_ref \<Rightarrow>
   writer_state \<Rightarrow> 's \<Rightarrow> 'e \<Rightarrow> (media_stream_error + media_frame) \<times> writer_state \<times> 's \<times> 'e" where
  "push_asset_frame append_to attach_to mc control before lock after =
     push_asset_frame_with_request_id append_to attach_to mc control before lock after (mc_default_request_id mc)"

definition media_finish ::
  "'s append_op \<Rightarrow> media_stream_writer \<Rightarrow> nat \<Rightarrow> writer_state \<Rightarrow> 's \<Rightarrow>
   (media_stream_error + nat) \<times> writer_state \<times> 's" where
  "media_finish append_to mc = close_stream append_to mc (mc_default_request_id mc)"

definition media_abort ::
  "'s append_op \<Rightarrow> media_stream_writer \<Rightarrow> nat \<Rightarrow> writer_state \<Rightarrow> 's \<Rightarrow>
   (media_stream_error + nat) \<times> writer_state \<times> 's" where
  "media_abort append_to mc = close_stream append_to mc (mc_default_request_id mc)"

end
