(* ===== verification/Media_Properties.thy ===== *)
theory Media_Properties
  imports Media_Writer "HOL-Library.Sublist"
begin

text \<open>
  The media stream writer over the memory event store, when requests to the store and its answers
  may get lost and other clients use the store at the same time.

  \<open>stream_log\<close> is the part of a Session's log that concerns one stream, \<open>lossy_append\<close> a
  transport in front of the memory store, \<open>writer_run\<close> every use of one writer, with the frames
  that \<open>push_frame\<close> and \<open>push_asset_frame\<close> returned. \<open>writer_inv\<close> says how the state of the writer
  and the log of its stream fit together; every operation keeps it.
\<close>

subsection \<open>The events of one stream\<close>

definition of_stream :: "media_stream_id \<Rightarrow> test_event \<Rightarrow> bool" where
  "of_stream i e =
     (case te_payload e of
        MediaStreamStarted s \<Rightarrow> ms_id s = i
      | MediaFrameCaptured f \<Rightarrow> mf_stream_id f = i
      | MediaStreamEnded j _ \<Rightarrow> j = i
      | _ \<Rightarrow> False)"

definition stream_log :: "session_id \<Rightarrow> media_stream_id \<Rightarrow> memory_event_store \<Rightarrow> test_event list" where
  "stream_log sid i st = filter (of_stream i) (case get_log sid st of None \<Rightarrow> [] | Some slog \<Rightarrow> sl_events slog)"

definition captured :: "test_event list \<Rightarrow> media_frame list" where
  "captured es = concat (map (\<lambda>e. case te_payload e of MediaFrameCaptured f \<Rightarrow> [f] | _ \<Rightarrow> []) es)"

lemma captured_simps [simp]:
  "captured [] = []" "captured (es @ es') = captured es @ captured es'"
  by (simp_all add: captured_def)

lemma open_streams_of_stream: "open_streams es i = open_streams (filter (of_stream i) es) i"
proof (induction es rule: rev_induct)
  case (snoc e es)
  then show ?case
    by (cases "te_payload e") (auto simp: log_views stream_step_def of_stream_def split: option.splits)
qed simp

lemma started_streams_of_stream:
  "i \<in> set (started_streams es) \<longleftrightarrow> i \<in> set (started_streams (filter (of_stream i) es))"
proof (induction es rule: rev_induct)
  case (snoc e es)
  then show ?case
    by (cases "te_payload e") (auto simp: log_views of_stream_def)
qed simp

definition stream_frames :: "media_stream_id \<Rightarrow> test_event list \<Rightarrow> bool" where
  "stream_frames i F \<longleftrightarrow>
     (\<forall>k<length F. \<exists>f. te_payload (F ! k) = MediaFrameCaptured f \<and> mf_stream_id f = i \<and> mf_frame_index f = Suc k)"

lemma stream_frames_Nil [simp]: "stream_frames i []"
  by (simp add: stream_frames_def)

lemma stream_frames_snoc [simp]:
  "stream_frames i (F @ [x]) \<longleftrightarrow> stream_frames i F \<and>
     (\<exists>f. te_payload x = MediaFrameCaptured f \<and> mf_stream_id f = i \<and> mf_frame_index f = Suc (length F))"
  by (auto simp: stream_frames_def nth_append less_Suc_eq)

lemma stream_frames_captured:
  "stream_frames i F \<Longrightarrow> length (captured F) = length F \<and> map mf_frame_index (captured F) = [1..<Suc (length F)] \<and>
   (\<forall>f \<in> set (captured F). mf_stream_id f = i)"
  by (induction F rule: rev_induct) (auto simp: captured_def)

lemma open_streams_frames:
  assumes "te_payload s = MediaStreamStarted m" "ms_id m = i" "stream_frames i F"
  shows "open_streams (s # F) i = Some \<lparr>mm_media_type = ms_media_type m, mm_next_frame_index = Suc (length F)\<rparr>"
  using assms(3)
proof (induction F rule: rev_induct)
  case Nil
  then show ?case using assms(1,2) by (simp add: open_streams_def stream_step_def)
next
  case (snoc x F)
  then show ?case using log_views(5) [of "s # F" x] by (auto simp: stream_step_def)
qed

subsection \<open>Appends that may get lost\<close>

text \<open>
  Other clients leave the events of this stream as they are. An append reaches the store or not,
  and its answer, an error of the store included, arrives or not.
\<close>

definition other_step :: "session_id \<Rightarrow> media_stream_id \<Rightarrow> memory_event_store \<Rightarrow> memory_event_store \<Rightarrow> bool" where
  "other_step sid i st st' \<longleftrightarrow> store_step st st' \<and> stream_log sid i st' = stream_log sid i st"

abbreviation other_steps :: "session_id \<Rightarrow> media_stream_id \<Rightarrow> memory_event_store \<Rightarrow> memory_event_store \<Rightarrow> bool" where
  "other_steps sid i \<equiv> (other_step sid i)\<^sup>*\<^sup>*"

definition lossy_append :: "session_id \<Rightarrow> media_stream_id \<Rightarrow> memory_event_store append_op \<Rightarrow> bool" where
  "lossy_append sid i append_to \<longleftrightarrow>
     (\<forall>p st. \<exists>st1. other_steps sid i st st1 \<and>
        ((\<exists>e. append_to p st = (Inl e, st1)) \<or>
         (\<exists>eid r st2 st3. append_event eid p st1 = (r, st2) \<and> other_steps sid i st2 st3 \<and>
            (append_to p st = (r, st3) \<or> (\<exists>e. append_to p st = (Inl e, st3))))))"

lemma other_steps_keep:
  "other_steps sid i st st' \<Longrightarrow> store_inv st \<Longrightarrow> store_inv st' \<and> stream_log sid i st' = stream_log sid i st"
  by (induction rule: rtranclp_induct) (auto simp: other_step_def intro: store_step_inv)

definition admits :: "media_stream_id \<Rightarrow> test_event list \<Rightarrow> test_event_payload \<Rightarrow> bool" where
  "admits i E payload =
     (case payload of
        MediaStreamStarted _ \<Rightarrow> i \<notin> set (started_streams E)
      | MediaFrameCaptured f \<Rightarrow> (\<exists>s. open_streams E i = Some s \<and> mf_frame_index f = mm_next_frame_index s)
      | MediaStreamEnded _ n \<Rightarrow> (\<exists>s. open_streams E i = Some s \<and> Suc n = mm_next_frame_index s)
      | _ \<Rightarrow> False)"

lemma append_event_stream:
  assumes inv: "store_inv st" and app: "append_event eid p st = (r, st')"
    and sid: "pv_session_id p = sid" and stream: "of_stream i (pending_to_event 0 1 p)"
  obtains (failed) e where "r = Inl e" "st' = st"
  | (retried) e where "e \<in> set (stream_log sid i st)" "same_request e p" "st' = st"
  | (recorded) x where "same_request x p" "stream_log sid i st' = stream_log sid i st @ [x]"
      "admits i (stream_log sid i st) (pv_payload p)"
  using inv app
proof (cases rule: append_event_cases)
  case (error e)
  then show thesis by (rule failed)
next
  case (retry slog e)
  then have "exact_media_retry slog p = Some e" using stream
    by (auto simp: append_transition_def retry_or_def of_stream_def pending_to_event_def
        split: test_event_payload.splits option.splits if_splits)
  then have "e \<in> set (sl_events slog)" "same_request e p" using exact_media_retry_Some by auto
  moreover from this have "of_stream i e" using stream by (simp add: same_request_def of_stream_def pending_to_event_def)
  ultimately show thesis using retry sid by (intro retried [of e]) (auto simp: stream_log_def)
next
  case (new slog t)
  let ?x = "pending_to_event eid (Suc (length (sl_events slog))) p"
  have x: "same_request ?x p" "of_stream i ?x" using stream
    by (auto simp: same_request_def pending_to_event_def of_stream_def)
  have inv': "store_inv st'" using append_event_inv [OF inv app] .
  then have "log_inv sid (appended_log eid p t slog)" using new sid by (auto simp: store_inv_def)
  then have legal: "legal_log sid (sl_events slog @ [?x])" by (simp add: log_inv_def)
  have "legal_log sid (sl_events slog)" using inv new(2) sid by (auto simp: store_inv_def log_inv_def)
  then have "sl_events slog \<noteq> []" by (rule legal_log_not_Nil)
  with legal have "legal_event (sl_events slog) ?x" by (rule legal_log_snocD)
  then have "admits i (stream_log sid i st) (pv_payload p)" using x(2) new(2) sid
    started_streams_of_stream [of i "sl_events slog"] open_streams_of_stream [of "sl_events slog" i]
    by (auto simp: legal_event_def admits_def stream_log_def of_stream_def pending_to_event_def
        split: test_event_payload.splits)
  with x new sid show thesis by (intro recorded [of ?x]) (auto simp: stream_log_def)
qed

lemma lossy_append_stream:
  assumes "lossy_append sid i append_to" and inv: "store_inv st" and app: "append_to p st = (r, st')"
    and p: "pv_session_id p = sid" "of_stream i (pending_to_event 0 1 p)"
  obtains (failed) e where "r = Inl e" "store_inv st'" "stream_log sid i st' = stream_log sid i st"
  | (retried) e where "e \<in> set (stream_log sid i st)" "same_request e p" "store_inv st'"
      "stream_log sid i st' = stream_log sid i st"
  | (recorded) x where "same_request x p" "store_inv st'" "stream_log sid i st' = stream_log sid i st @ [x]"
      "admits i (stream_log sid i st) (pv_payload p)"
proof -
  obtain st1 where st1: "other_steps sid i st st1" and alt:
    "(\<exists>e. append_to p st = (Inl e, st1)) \<or>
         (\<exists>eid r st2 st3. append_event eid p st1 = (r, st2) \<and> other_steps sid i st2 st3 \<and>
            (append_to p st = (r, st3) \<or> (\<exists>e. append_to p st = (Inl e, st3))))"
    using assms(1) unfolding lossy_append_def by blast
  have keep: "store_inv st1" "stream_log sid i st1 = stream_log sid i st"
    using other_steps_keep [OF st1 inv] by auto
  from alt consider (lost) e where "append_to p st = (Inl e, st1)"
    | (sent) eid r' st2 st3 where "append_event eid p st1 = (r', st2)" "other_steps sid i st2 st3"
        "append_to p st = (r', st3) \<or> (\<exists>e. append_to p st = (Inl e, st3))"
    by blast
  then show thesis
  proof cases
    case lost
    with app keep show thesis by (intro failed [of e]) auto
  next
    case sent
    note run = sent(1,2) and res = sent(3)
    have keep2: "store_inv st3" "stream_log sid i st3 = stream_log sid i st2"
      using other_steps_keep [OF run(2) append_event_inv [OF keep(1) run(1)]] by auto
    have st': "st' = st3" using res app by auto
    from keep(1) run(1) p show thesis
    proof (cases rule: append_event_stream)
      case (failed e)
      then have "\<exists>e. r = Inl e" using res app by auto
      then show thesis using failed keep keep2 st' that(1) by auto
    next
      case (retried e)
      then show thesis using keep keep2 st' that(2) by auto
    next
      case (recorded x)
      then show thesis using keep keep2 st' that(3) by auto
    qed
  qed
qed

subsection \<open>The writer and the log of its stream\<close>

abbreviation written :: "media_stream_writer \<Rightarrow> memory_event_store \<Rightarrow> test_event list" where
  "written mc st \<equiv> stream_log (mc_session_id mc) (ms_id (mc_stream mc)) st"

definition stream_so_far :: "media_stream_writer \<Rightarrow> test_event list \<Rightarrow> test_event list \<Rightarrow> test_event list \<Rightarrow> bool" where
  "stream_so_far mc E F X \<longleftrightarrow>
     (\<exists>s. E = s # F @ X \<and> same_request s (start_pending mc)) \<and> stream_frames (ms_id (mc_stream mc)) F"

text \<open>
  What the store may have recorded although the writer does not know it: the pending frame or the
  pending end.
\<close>

definition unsure_tail :: "media_stream_writer \<Rightarrow> writer_state \<Rightarrow> nat \<Rightarrow> test_event list \<Rightarrow> bool" where
  "unsure_tail mc w n X \<longleftrightarrow>
     X = [] \<or>
     (\<exists>pf x. mw_pending w = Some pf \<and> X = [x] \<and> same_request x (frame_pending mc pf)) \<or>
     (\<exists>t x. mw_terminal_pending w = Some t \<and> X = [x] \<and> same_request x (end_pending mc t n))"

definition pending_ok :: "media_stream_writer \<Rightarrow> writer_state \<Rightarrow> bool" where
  "pending_ok mc w \<longleftrightarrow>
     (\<forall>pf. mw_pending w = Some pf \<longrightarrow>
        mf_stream_id (pf_frame pf) = ms_id (mc_stream mc) \<and> mf_frame_index (pf_frame pf) = mw_next_frame_index w)"

definition open_inv :: "media_stream_writer \<Rightarrow> media_frame list \<Rightarrow> writer_state \<Rightarrow> memory_event_store \<Rightarrow> bool" where
  "open_inv mc acks w st \<longleftrightarrow>
     store_inv st \<and> mw_started w \<and> mw_terminal_frame_count w = None \<and> pending_ok mc w \<and>
     (\<exists>F X. stream_so_far mc (written mc st) F X \<and> subseq acks (captured F) \<and>
        mw_next_frame_index w = Suc (length F) \<and> unsure_tail mc w (length F) X)"

definition new_inv :: "media_stream_writer \<Rightarrow> media_frame list \<Rightarrow> writer_state \<Rightarrow> memory_event_store \<Rightarrow> bool" where
  "new_inv mc acks w st \<longleftrightarrow>
     store_inv st \<and> w = media_prepare \<and> acks = [] \<and> (written mc st = [] \<or> stream_so_far mc (written mc st) [] [])"

definition closed_inv :: "media_stream_writer \<Rightarrow> media_frame list \<Rightarrow> writer_state \<Rightarrow> memory_event_store \<Rightarrow> bool" where
  "closed_inv mc acks w st \<longleftrightarrow>
     store_inv st \<and> mw_started w \<and>
     (\<exists>F x t. mw_terminal_frame_count w = Some (length F) \<and> stream_so_far mc (written mc st) F [x] \<and>
        subseq acks (captured F) \<and> same_request x (end_pending mc t (length F)))"

definition writer_inv :: "media_stream_writer \<Rightarrow> media_frame list \<Rightarrow> writer_state \<Rightarrow> memory_event_store \<Rightarrow> bool" where
  "writer_inv mc acks w st \<longleftrightarrow> new_inv mc acks w st \<or> open_inv mc acks w st \<or> closed_inv mc acks w st"

lemmas pending_defs = start_pending_def frame_pending_def end_pending_def

lemma of_stream_pending [simp]:
  "of_stream (ms_id (mc_stream mc)) (pending_to_event eid n (start_pending mc))"
  "of_stream (ms_id (mc_stream mc)) (pending_to_event eid n (end_pending mc t k))"
  "of_stream (ms_id (mc_stream mc)) (pending_to_event eid n (frame_pending mc pf)) \<longleftrightarrow>
     mf_stream_id (pf_frame pf) = ms_id (mc_stream mc)"
  by (simp_all add: of_stream_def pending_to_event_def pending_defs)

lemma pending_session [simp]:
  "pv_session_id (start_pending mc) = mc_session_id mc"
  "pv_session_id (frame_pending mc pf) = mc_session_id mc"
  "pv_session_id (end_pending mc t k) = mc_session_id mc"
  by (simp_all add: pending_defs)

lemma same_request_payload:
  "same_request e (start_pending mc) \<Longrightarrow> te_payload e = MediaStreamStarted (mc_stream mc)"
  "same_request e (frame_pending mc pf) \<Longrightarrow> te_payload e = MediaFrameCaptured (pf_frame pf)"
  "same_request e (end_pending mc t k) \<Longrightarrow> te_payload e = MediaStreamEnded (ms_id (mc_stream mc)) k"
  by (simp_all add: same_request_def pending_defs)

lemma stream_so_far_open:
  assumes "stream_so_far mc E F X"
  shows "X = [x] \<Longrightarrow> open_streams E (ms_id (mc_stream mc)) = stream_step x (open_streams (hd E # F)) (ms_id (mc_stream mc))"
    and "open_streams (hd E # F) (ms_id (mc_stream mc)) =
      Some \<lparr>mm_media_type = ms_media_type (mc_stream mc), mm_next_frame_index = Suc (length F)\<rparr>"
proof -
  obtain s where s: "E = s # F @ X" "same_request s (start_pending mc)" "stream_frames (ms_id (mc_stream mc)) F"
    using assms by (auto simp: stream_so_far_def)
  show "open_streams (hd E # F) (ms_id (mc_stream mc)) =
      Some \<lparr>mm_media_type = ms_media_type (mc_stream mc), mm_next_frame_index = Suc (length F)\<rparr>"
    using open_streams_frames [OF same_request_payload(1) [OF s(2)] refl s(3)] s(1) by simp
  show "X = [x] \<Longrightarrow> open_streams E (ms_id (mc_stream mc)) = stream_step x (open_streams (hd E # F)) (ms_id (mc_stream mc))"
    using s(1) open_streams_snoc [of "s # F" x] by simp
qed

lemma admitted_tail:
  assumes so: "stream_so_far mc E F X" and tail: "unsure_tail mc w (length F) X" and ok: "pending_ok mc w"
    and admitted: "admits (ms_id (mc_stream mc)) E payload"
    and payload: "payload = MediaFrameCaptured f \<and> mf_frame_index f = Suc (length F) \<or>
      payload = MediaStreamEnded (ms_id (mc_stream mc)) (length F)"
  shows "X = []"
proof (rule ccontr)
  assume "X \<noteq> []"
  then obtain x where x: "X = [x]" using tail by (auto simp: unsure_tail_def)
  note os = stream_so_far_open(1) [OF so x] stream_so_far_open(2) [OF so]
  from tail x ok os admitted payload show False
    by (auto simp: unsure_tail_def pending_ok_def admits_def stream_step_def dest!: same_request_payload)
qed

lemma retried_in_tail:
  assumes so: "stream_so_far mc E F X" and tail: "unsure_tail mc w (length F) X" and e: "e \<in> set E"
    and payload: "te_payload e = MediaFrameCaptured f \<and> mf_frame_index f = Suc (length F) \<or>
      te_payload e = MediaStreamEnded (ms_id (mc_stream mc)) (length F)"
  shows "X = [e]"
proof -
  obtain s where s: "E = s # F @ X" "same_request s (start_pending mc)" "stream_frames (ms_id (mc_stream mc)) F"
    using so by (auto simp: stream_so_far_def)
  have "e \<noteq> s" using same_request_payload(1) [OF s(2)] payload by auto
  moreover have "e \<notin> set F"
    using s(3) payload by (auto simp: stream_frames_def in_set_conv_nth)
  ultimately have "e \<in> set X" using e s(1) by simp
  then show ?thesis using tail by (auto simp: unsure_tail_def)
qed

lemma stream_so_far_snoc:
  "stream_so_far mc (E @ [x]) F [x] \<longleftrightarrow> stream_so_far mc E F []"
  "stream_so_far mc E (F @ [x]) [] \<longleftrightarrow> stream_so_far mc E F [x] \<and>
     (\<exists>f. te_payload x = MediaFrameCaptured f \<and> mf_stream_id f = ms_id (mc_stream mc) \<and> mf_frame_index f = Suc (length F))"
  by (auto simp: stream_so_far_def)

lemma ensure_started_locked_inv:
  assumes inv: "new_inv mc acks w st \<or> open_inv mc acks w st"
    and lossy: "lossy_append (mc_session_id mc) (ms_id (mc_stream mc)) append_to"
    and run: "ensure_started_locked append_to mc w st = (r, w', st')"
  shows "new_inv mc acks w' st' \<and> r \<noteq> Inr () \<or> open_inv mc acks w' st'"
proof (cases "mw_started w")
  case True
  then show ?thesis using inv run by (auto simp: ensure_started_locked_def new_inv_def media_prepare_def)
next
  case False
  then have new: "store_inv st" "w = media_prepare" "acks = []"
      "written mc st = [] \<or> stream_so_far mc (written mc st) [] []"
    using inv by (auto simp: new_inv_def open_inv_def)
  obtain q where app: "append_to (start_pending mc) st = (q, st')"
    and res: "(\<exists>e. q = Inl e) \<and> w' = w \<and> r \<noteq> Inr () \<or> w' = w\<lparr>mw_started := True\<rparr>"
    using run False by (auto simp: ensure_started_locked_def split: prod.splits sum.splits)
  have started: "new_inv mc acks w' st' \<and> r \<noteq> Inr () \<or> open_inv mc acks w' st'"
    if "store_inv st'" "stream_so_far mc (written mc st') [] []"
    using res that new
    by (auto simp: new_inv_def open_inv_def media_prepare_def pending_ok_def unsure_tail_def)
  from lossy new(1) app pending_session(1) of_stream_pending(1) show ?thesis
  proof (cases rule: lossy_append_stream)
    case (failed e)
    then show ?thesis using run False app new by (auto simp: ensure_started_locked_def new_inv_def)
  next
    case (retried e)
    then have "stream_so_far mc (written mc st') [] []" using new(4) by auto
    with retried show ?thesis by (intro started)
  next
    case (recorded x)
    have "written mc st = []"
    proof (rule ccontr)
      assume "written mc st \<noteq> []"
      then obtain s where "written mc st = [s]" "te_payload s = MediaStreamStarted (mc_stream mc)"
        using new(4) by (auto simp: stream_so_far_def dest: same_request_payload)
      then show False using recorded(4)
        by (simp add: admits_def pending_defs started_streams_def)
    qed
    with recorded show ?thesis by (intro started) (auto simp: stream_so_far_def)
  qed
qed

lemma flush_pending_inv:
  assumes inv: "open_inv mc acks w st"
    and lossy: "lossy_append (mc_session_id mc) (ms_id (mc_stream mc)) append_to"
    and run: "flush_pending append_to mc w st = (r, w', st')"
  shows "open_inv mc acks w' st' \<and> (r = Inr () \<longrightarrow> mw_pending w' = None \<and>
    (\<forall>pf. mw_pending w = Some pf \<longrightarrow> open_inv mc (acks @ [pf_frame pf]) w' st'))"
proof (cases "mw_pending w")
  case None
  then show ?thesis using inv run by (simp add: flush_pending_def)
next
  case (Some pf)
  obtain F X where so: "stream_so_far mc (written mc st) F X" and tail: "unsure_tail mc w (length F) X"
    and sub: "subseq acks (captured F)" and next_index: "mw_next_frame_index w = Suc (length F)"
    and w: "store_inv st" "mw_started w" "mw_terminal_frame_count w = None" "pending_ok mc w"
    using inv by (auto simp: open_inv_def)
  have pf: "mf_stream_id (pf_frame pf) = ms_id (mc_stream mc)" "mf_frame_index (pf_frame pf) = Suc (length F)"
    using w(4) Some next_index by (auto simp: pending_ok_def)
  obtain q where app: "append_to (frame_pending mc pf) st = (q, st')"
    and res: "(\<exists>e. q = Inl e) \<and> w' = w \<and> r \<noteq> Inr () \<or>
      r = Inr () \<and> w' = w\<lparr>mw_pending := None, mw_next_frame_index := Suc (Suc (length F))\<rparr>"
    using run Some next_index by (auto simp: flush_pending_def split: prod.splits sum.splits)
  have done': "open_inv mc acks w' st' \<and> (r = Inr () \<longrightarrow> mw_pending w' = None \<and>
    (\<forall>pf. mw_pending w = Some pf \<longrightarrow> open_inv mc (acks @ [pf_frame pf]) w' st'))"
    if x: "store_inv st'" "stream_so_far mc (written mc st') F [x]" "same_request x (frame_pending mc pf)" for x
    using res
  proof (elim disjE conjE)
    assume "w' = w" "r \<noteq> Inr ()"
    moreover have "unsure_tail mc w (length F) [x]" using x(3) Some by (auto simp: unsure_tail_def)
    ultimately show ?thesis using x sub next_index w by (auto simp: open_inv_def)
  next
    assume w': "r = Inr ()" "w' = w\<lparr>mw_pending := None, mw_next_frame_index := Suc (Suc (length F))\<rparr>"
    have "stream_so_far mc (written mc st') (F @ [x]) []"
      using x pf by (auto simp: stream_so_far_snoc dest!: same_request_payload)
    moreover have "captured (F @ [x]) = captured F @ [pf_frame pf]"
      using same_request_payload(2) [OF x(3)] by (simp add: captured_def)
    ultimately have "open_inv mc A w' st'" if "subseq A (captured F @ [pf_frame pf])" for A
      using that x(1) w w' unfolding open_inv_def
      by (intro conjI exI [of _ "F @ [x]"] exI [of _ "[]"]) (auto simp: pending_ok_def unsure_tail_def)
    then show ?thesis using w' Some sub
      by (auto intro: subseq_order.trans)
  qed
  from lossy w(1) app pending_session(2) of_stream_pending(3) [THEN iffD2, OF pf(1)] show ?thesis
  proof (cases rule: lossy_append_stream)
    case (failed e)
    then have "w' = w" "r \<noteq> Inr ()" using run Some app by (auto simp: flush_pending_def)
    then show ?thesis using failed so tail sub next_index w by (auto simp: open_inv_def)
  next
    case (retried e)
    then have "X = [e]" using so tail pf
      by (intro retried_in_tail [of mc "written mc st" F X w e "pf_frame pf"]) (auto dest!: same_request_payload)
    with retried so show ?thesis by (intro done' [of e]) auto
  next
    case (recorded x)
    then have "X = []" using so tail pf w(4)
      by (intro admitted_tail [OF so tail w(4) recorded(4), of "pf_frame pf"]) (auto simp: pending_defs)
    with recorded so show ?thesis by (intro done' [of x]) (auto simp: stream_so_far_snoc)
  qed
qed

lemma writer_inv_other:
  assumes "writer_inv mc acks w st" "other_steps (mc_session_id mc) (ms_id (mc_stream mc)) st st'"
  shows "writer_inv mc acks w st'"
proof -
  have "store_inv st" using assms(1) by (auto simp: writer_inv_def new_inv_def open_inv_def closed_inv_def)
  from other_steps_keep [OF assms(2) this] assms(1) show ?thesis
    by (auto simp: writer_inv_def new_inv_def open_inv_def closed_inv_def)
qed

definition acked :: "media_stream_error + media_frame \<Rightarrow> media_frame list" where
  "acked r = (case r of Inl _ \<Rightarrow> [] | Inr frame \<Rightarrow> [frame])"

lemma acked_simps [simp]: "acked (Inl e) = []" "acked (Inr f) = [f]"
  by (simp_all add: acked_def)

lemma push_new_frame_inv:
  assumes inv: "open_inv mc acks w st" and none: "mw_pending w = None"
    and lossy: "lossy_append (mc_session_id mc) (ms_id (mc_stream mc)) append_to"
    and pf: "mf_stream_id (pf_frame pf) = ms_id (mc_stream mc)" "mf_frame_index (pf_frame pf) = mw_next_frame_index w"
    and run: "flush_pending append_to mc (w\<lparr>mw_pending := Some pf\<rparr>) st = (r, w', st')"
  shows "open_inv mc (acks @ (case r of Inl _ \<Rightarrow> [] | Inr _ \<Rightarrow> [pf_frame pf])) w' st'"
proof -
  have "unsure_tail mc w n X \<Longrightarrow> unsure_tail mc (w\<lparr>mw_pending := Some pf\<rparr>) n X" for n X
    using none by (auto simp: unsure_tail_def)
  then have "open_inv mc acks (w\<lparr>mw_pending := Some pf\<rparr>) st"
    using inv pf unfolding open_inv_def by (auto simp: pending_ok_def; blast)
  from flush_pending_inv [OF this lossy run] show ?thesis
    by (cases r) auto
qed

lemma push_locked_inv:
  assumes inv: "writer_inv mc acks w st"
    and lossy: "lossy_append (mc_session_id mc) (ms_id (mc_stream mc)) append_to"
    and run: "push_locked append_to mc control after evidence request_id at_ms key_frame duration_ms w st es =
      (r, w', st', es')"
  shows "writer_inv mc (acks @ acked r) w' st'"
proof (cases "closed_inv mc acks w st")
  case True
  then have "mw_started w" "mw_terminal_frame_count w \<noteq> None" by (auto simp: closed_inv_def)
  then have "r = Inl MediaEnded" "w' = w" "st' = st"
    using run by (auto simp: push_locked_def ensure_started_locked_def)
  with inv show ?thesis by simp
next
  case False
  with inv have inv': "new_inv mc acks w st \<or> open_inv mc acks w st" by (auto simp: writer_inv_def)
  obtain r1 w1 s1 where start: "ensure_started_locked append_to mc w st = (r1, w1, s1)" by (metis prod_cases3)
  from ensure_started_locked_inv [OF inv' lossy start]
  have 1: "new_inv mc acks w1 s1 \<and> r1 \<noteq> Inr () \<or> open_inv mc acks w1 s1" .
  show ?thesis
  proof (cases "r1 = Inr ()")
    case False
    then show ?thesis using run start 1 by (cases r1) (auto simp: push_locked_def writer_inv_def)
  next
    case True
    with 1 have open1: "open_inv mc acks w1 s1" by simp
    obtain r2 w2 s2 where flush: "flush_pending append_to mc w1 s1 = (r2, w2, s2)" by (metis prod_cases3)
    from flush_pending_inv [OF open1 lossy flush]
    have open2: "open_inv mc acks w2 s2" and none: "r2 = Inr () \<Longrightarrow> mw_pending w2 = None" by auto
    have tfc: "mw_terminal_frame_count w1 = None" using open1 by (simp add: open_inv_def)
    show ?thesis
    proof (cases "r2 = Inr () \<and> (\<exists>frame_index stored es1. media_ensure_active after control = Inr () \<and>
        event_sequence_new (mw_next_frame_index w2) = Some frame_index \<and> evidence es = (Inr stored, es1))")
      case False
      then have "(\<exists>e. r = Inl e) \<and> w' = w2 \<and> st' = s2"
        using run start flush True tfc
        by (cases r2) (auto simp: push_locked_def split: sum.splits option.splits prod.splits)
      with open2 show ?thesis by (auto simp: writer_inv_def)
    next
      case ok: True
      then obtain frame_index stored es1 where ok': "r2 = Inr ()" "media_ensure_active after control = Inr ()"
        "event_sequence_new (mw_next_frame_index w2) = Some frame_index" "evidence es = (Inr stored, es1)" by blast
      define pf where "pf = \<lparr>pf_request_id = request_id, pf_at_ms = at_ms, pf_frame =
         \<lparr>mf_stream_id = ms_id (mc_stream mc), mf_frame_index = frame_index, mf_key_frame = key_frame,
          mf_duration_ms = duration_ms, mf_evidence = stored_asset_ref stored\<rparr>\<rparr>"
      obtain r3 where commit: "flush_pending append_to mc (w2\<lparr>mw_pending := Some pf\<rparr>) s2 = (r3, w', st')"
        and r: "r = (case r3 of Inl e \<Rightarrow> Inl e | Inr _ \<Rightarrow> Inr (pf_frame pf))"
        using run start flush True tfc ok'
        by (auto simp: push_locked_def pf_def Let_def split: sum.splits prod.splits)
      have "frame_index = mw_next_frame_index w2"
        using ok'(3) by (auto simp: event_sequence_new_def split: if_splits)
      then have "open_inv mc (acks @ (case r3 of Inl _ \<Rightarrow> [] | Inr _ \<Rightarrow> [pf_frame pf])) w' st'"
        by (intro push_new_frame_inv [OF open2 none [OF ok'(1)] lossy _ _ commit]) (simp_all add: pf_def)
      then show ?thesis using r by (auto simp: writer_inv_def split: sum.splits)
    qed
  qed
qed

lemma push_frame_inv:
  assumes "writer_inv mc acks w st" "lossy_append (mc_session_id mc) (ms_id (mc_stream mc)) append_to"
    and "push_frame_with_request_id append_to put mc control before lock after request_id at_ms key_frame
      duration_ms declared input w st es = (r, w', st', es')"
  shows "writer_inv mc (acks @ acked r) w' st'"
  using assms(1,3)
  by (auto simp: push_frame_with_request_id_def lock_writer_def split: sum.splits if_splits lock_outcome.splits
      intro: push_locked_inv [OF assms(1,2)])

lemma push_asset_frame_inv:
  assumes "writer_inv mc acks w st" "lossy_append (mc_session_id mc) (ms_id (mc_stream mc)) append_to"
    and "push_asset_frame_with_request_id append_to attach_to mc control before lock after request_id at_ms key_frame
      duration_ms asset w st es = (r, w', st', es')"
  shows "writer_inv mc (acks @ acked r) w' st'"
  using assms(1,3)
  by (auto simp: push_asset_frame_with_request_id_def lock_writer_def split: sum.splits if_splits lock_outcome.splits
      intro: push_locked_inv [OF assms(1,2)])

text \<open>The end event of a flushed stream: it is recorded once, and the writer knows it or keeps it for a retry.\<close>

lemma append_end_inv:
  assumes open2: "open_inv mc acks w2 s2" and none: "mw_pending w2 = None"
    and lossy: "lossy_append (mc_session_id mc) (ms_id (mc_stream mc)) append_to"
    and t: "t = (case mw_terminal_pending w2 of Some t \<Rightarrow> t | None \<Rightarrow> \<lparr>pt_request_id = request_id, pt_at_ms = at_ms\<rparr>)"
    and n: "mw_next_frame_index w2 = Suc n" and app: "append_to (end_pending mc t n) s2 = (q, st')"
    and res: "(\<exists>e e'. q = Inl e \<and> r = Inl e') \<and> w' = w2\<lparr>mw_terminal_pending := Some t\<rparr> \<or>
      (\<exists>e. q = Inr e) \<and> r = Inr n \<and> w' = w2\<lparr>mw_terminal_pending := None, mw_terminal_frame_count := Some n\<rparr>"
  shows "writer_inv mc acks w' st' \<and> (\<forall>n. r = Inr n \<longrightarrow> closed_inv mc acks w' st' \<and> mw_terminal_frame_count w' = Some n)"
proof -
  obtain F X where so: "stream_so_far mc (written mc s2) F X" and tail: "unsure_tail mc w2 (length F) X"
    and sub: "subseq acks (captured F)" and next_index: "mw_next_frame_index w2 = Suc (length F)"
    and w2: "store_inv s2" "mw_started w2" "mw_terminal_frame_count w2 = None" "pending_ok mc w2"
    using open2 by (auto simp: open_inv_def)
  have n_eq [simp]: "n = length F" using n next_index by simp
  have closed: ?thesis
    if x: "store_inv st'" "stream_so_far mc (written mc st') F [x]" "same_request x (end_pending mc t (length F))" for x
    using res
  proof (elim disjE conjE)
    assume w': "\<exists>e e'. q = Inl e \<and> r = Inl e'" "w' = w2\<lparr>mw_terminal_pending := Some t\<rparr>"
    then have "open_inv mc acks w' st'" using x sub next_index w2 none unfolding open_inv_def
      by (intro conjI exI [of _ F] exI [of _ "[x]"]) (auto simp: pending_ok_def unsure_tail_def)
    then show ?thesis using w' by (auto simp: writer_inv_def)
  next
    assume w': "r = Inr n" "w' = w2\<lparr>mw_terminal_pending := None, mw_terminal_frame_count := Some n\<rparr>"
    then have "closed_inv mc acks w' st'" using x sub w2 by (auto simp: closed_inv_def)
    then show ?thesis using w' by (auto simp: writer_inv_def)
  qed
  from lossy w2(1) app [unfolded n_eq] pending_session(3) of_stream_pending(2) show ?thesis
  proof (cases rule: lossy_append_stream)
    case (failed e)
    then have w': "\<exists>e'. r = Inl e'" "w' = w2\<lparr>mw_terminal_pending := Some t\<rparr>" using res by auto
    have "unsure_tail mc w' (length F) X" using tail w'(2) none by (auto simp: unsure_tail_def t)
    then have "open_inv mc acks w' st'" using w' failed so sub next_index w2 none unfolding open_inv_def
      by (intro conjI exI [of _ F] exI [of _ X]) (auto simp: pending_ok_def)
    then show ?thesis using w' by (auto simp: writer_inv_def)
  next
    case (retried e)
    then have "X = [e]" using so tail
      by (intro retried_in_tail [of mc "written mc s2" F X w2 e undefined]) (auto dest!: same_request_payload)
    with retried so show ?thesis by (intro closed [of e]) auto
  next
    case (recorded x)
    then have "X = []"
      by (intro admitted_tail [OF so tail w2(4) recorded(4), of undefined]) (auto simp: pending_defs)
    with recorded so show ?thesis by (intro closed [of x]) (auto simp: stream_so_far_snoc)
  qed
qed

lemma close_stream_inv:
  assumes inv: "writer_inv mc acks w st"
    and lossy: "lossy_append (mc_session_id mc) (ms_id (mc_stream mc)) append_to"
    and run: "close_stream append_to mc request_id at_ms w st = (r, w', st')"
  shows "writer_inv mc acks w' st' \<and> (\<forall>n. r = Inr n \<longrightarrow> closed_inv mc acks w' st' \<and> mw_terminal_frame_count w' = Some n)"
proof (cases "closed_inv mc acks w st")
  case True
  then obtain n where "mw_terminal_frame_count w = Some n" by (auto simp: closed_inv_def)
  then have "r = Inr n" "w' = w" "st' = st" "mw_terminal_frame_count w = Some n"
    using run by (auto simp: close_stream_def)
  with inv True show ?thesis by simp
next
  case False
  with inv have inv': "new_inv mc acks w st \<or> open_inv mc acks w st" by (auto simp: writer_inv_def)
  then have tfc: "mw_terminal_frame_count w = None" by (auto simp: new_inv_def open_inv_def media_prepare_def)
  obtain r1 w1 s1 where start: "ensure_started_locked append_to mc w st = (r1, w1, s1)" by (metis prod_cases3)
  from ensure_started_locked_inv [OF inv' lossy start]
  have 1: "new_inv mc acks w1 s1 \<and> r1 \<noteq> Inr () \<or> open_inv mc acks w1 s1" .
  obtain r2 w2 s2 where flush: "flush_pending append_to mc w1 s1 = (r2, w2, s2)" by (metis prod_cases3)
  show ?thesis
  proof (cases "r1 = Inr () \<and> r2 = Inr ()")
    case False
    show ?thesis
    proof (cases r1)
      case (Inl e)
      then show ?thesis using run start tfc 1 by (auto simp: close_stream_def writer_inv_def)
    next
      case (Inr u)
      with 1 have "open_inv mc acks w1 s1" by auto
      with flush_pending_inv [OF this lossy flush] False Inr run start flush tfc show ?thesis
        by (cases r2) (auto simp: close_stream_def writer_inv_def)
    qed
  next
    case True
    have "open_inv mc acks w1 s1" using 1 True by auto
    from flush_pending_inv [OF this lossy flush] True
    have open2: "open_inv mc acks w2 s2" "mw_pending w2 = None" by auto
    then obtain n where n: "mw_next_frame_index w2 = Suc n" by (auto simp: open_inv_def)
    define t where "t = (case mw_terminal_pending w2 of Some t \<Rightarrow> t | None \<Rightarrow> \<lparr>pt_request_id = request_id, pt_at_ms = at_ms\<rparr>)"
    obtain q where "append_to (end_pending mc t n) s2 = (q, st')"
      "(\<exists>e e'. q = Inl e \<and> r = Inl e') \<and> w' = w2\<lparr>mw_terminal_pending := Some t\<rparr> \<or>
        (\<exists>e. q = Inr e) \<and> r = Inr n \<and> w' = w2\<lparr>mw_terminal_pending := None, mw_terminal_frame_count := Some n\<rparr>"
      using run start flush tfc True n
      by (auto simp: close_stream_def t_def [symmetric] Let_def split: prod.splits sum.splits)
    then show ?thesis by (rule append_end_inv [OF open2 lossy t_def n])
  qed
qed

subsection \<open>Every use of a writer\<close>

text \<open>
  The evidence store is any function on a list of stored objects, so that every sequence of its
  answers occurs in some run.
\<close>

type_synonym evidence_objects = "stored_evidence list"

inductive writer_run ::
  "media_stream_writer \<Rightarrow> media_frame list \<Rightarrow> writer_state \<Rightarrow> memory_event_store \<Rightarrow> bool" for mc where
  run_prepare: "store_reachable st \<Longrightarrow> written mc st = [] \<Longrightarrow> writer_run mc [] media_prepare st"
| run_other: "writer_run mc acks w st \<Longrightarrow>
    other_steps (mc_session_id mc) (ms_id (mc_stream mc)) st st' \<Longrightarrow> writer_run mc acks w st'"
| run_start: "writer_run mc acks w st \<Longrightarrow>
    lossy_append (mc_session_id mc) (ms_id (mc_stream mc)) append_to \<Longrightarrow>
    ensure_started_locked append_to mc w st = (r0, w', st') \<Longrightarrow> writer_run mc acks w' st'"
| run_push: "writer_run mc acks w st \<Longrightarrow>
    lossy_append (mc_session_id mc) (ms_id (mc_stream mc)) append_to \<Longrightarrow>
    push_frame_with_request_id append_to put mc control before lock after request_id at_ms key_frame
      duration_ms declared (input :: string) w st (es :: evidence_objects) = (r, w', st', es') \<Longrightarrow> writer_run mc (acks @ acked r) w' st'"
| run_push_asset: "writer_run mc acks w st \<Longrightarrow>
    lossy_append (mc_session_id mc) (ms_id (mc_stream mc)) append_to \<Longrightarrow>
    push_asset_frame_with_request_id append_to attach_to mc control before lock after request_id at_ms
      key_frame duration_ms asset w st (es :: evidence_objects) = (r, w', st', es') \<Longrightarrow> writer_run mc (acks @ acked r) w' st'"
| run_close: "writer_run mc acks w st \<Longrightarrow>
    lossy_append (mc_session_id mc) (ms_id (mc_stream mc)) append_to \<Longrightarrow>
    close_stream append_to mc request_id at_ms w st = (rc, w', st') \<Longrightarrow> writer_run mc acks w' st'"

lemma ensure_started_locked_keeps:
  assumes "writer_inv mc acks w st" "lossy_append (mc_session_id mc) (ms_id (mc_stream mc)) append_to"
    and "ensure_started_locked append_to mc w st = (r, w', st')"
  shows "writer_inv mc acks w' st'"
proof (cases "mw_started w")
  case True
  then show ?thesis using assms(1,3) by (simp add: ensure_started_locked_def)
next
  case False
  then have "new_inv mc acks w st \<or> open_inv mc acks w st" using assms(1) by (auto simp: writer_inv_def closed_inv_def)
  from ensure_started_locked_inv [OF this assms(2,3)] show ?thesis by (auto simp: writer_inv_def)
qed

lemma writer_run_inv: "writer_run mc acks w st \<Longrightarrow> writer_inv mc acks w st"
proof (induction rule: writer_run.induct)
  case (run_prepare st)
  then show ?case by (auto simp: writer_inv_def new_inv_def intro: store_reachable_inv)
next
  case (run_close acks w st append_to request_id at_ms rc w' st')
  then show ?case using close_stream_inv by blast
qed (auto intro: writer_inv_other ensure_started_locked_keeps push_frame_inv push_asset_frame_inv)

text \<open>
  C36. However often requests to the event store or its answers get lost, and whatever other clients
  do, once \<open>finish\<close> or \<open>abort\<close> returns \<open>n\<close> the log holds of the stream exactly its start event, then
  \<open>n\<close> frames numbered from 1, then its end with the count \<open>n\<close>, and every frame that \<open>push_frame\<close> or
  \<open>push_asset_frame\<close> returned is there once and in the order of the calls.
\<close>

theorem media_stream_recorded_once:
  assumes "writer_run mc acks w st"
    and "lossy_append (mc_session_id mc) (ms_id (mc_stream mc)) append_to"
    and "close_stream append_to mc request_id at_ms w st = (Inr n, w', st')"
  shows "\<exists>s F x. stream_log (mc_session_id mc) (ms_id (mc_stream mc)) st' = s # F @ [x] \<and>
    same_request s (start_pending mc) \<and> te_payload x = MediaStreamEnded (ms_id (mc_stream mc)) n \<and>
    length F = n \<and> length (captured F) = n \<and> map mf_frame_index (captured F) = [1..<Suc n] \<and> subseq acks (captured F)"
proof -
  from close_stream_inv [OF writer_run_inv [OF assms(1)] assms(2,3)]
  have "closed_inv mc acks w' st'" "mw_terminal_frame_count w' = Some n" by auto
  then obtain F x t where F: "n = length F" "stream_so_far mc (written mc st') F [x]"
    "subseq acks (captured F)" "same_request x (end_pending mc t n)"
    by (auto simp: closed_inv_def)
  obtain s where s: "written mc st' = s # F @ [x]" "same_request s (start_pending mc)"
      "stream_frames (ms_id (mc_stream mc)) F"
    using F(2) by (auto simp: stream_so_far_def)
  show ?thesis
    by (rule exI [of _ s], rule exI [of _ F], rule exI [of _ x], unfold F(1))
      (use s F(3) stream_frames_captured [OF s(3)] same_request_payload(3) [OF F(4) [unfolded F(1)]] in blast)
qed

subsection \<open>An example run\<close>

text \<open>
  The start event and the end event are recorded but their answers are lost; the frame is
  recorded and acknowledged; the second attempt to finish returns.
\<close>

definition example_writer :: media_stream_writer where
  "example_writer =
     \<lparr>mc_session_id = 1, mc_default_request_id = None, mc_device_id = Some ''mock-1'',
      mc_stream = example_stream, mc_started_at_ms = 15\<rparr>"

definition answered :: "memory_event_store append_op" where
  "answered p st = append_event 200 p st"

definition answer_lost :: "memory_event_store append_op" where
  "answer_lost p st = (Inl StoreShuttingDown, snd (append_event 201 p st))"

definition example_stored :: stored_evidence where
  "example_stored =
     \<lparr>st_metadata = \<lparr>em_digest = replicate 64 CHR ''a'', em_media_type = ''image/png'',
        em_byte_length = 3, em_created_at_ms = 1, em_reference_count = 1\<rparr>, st_deduplicated = False\<rparr>"

definition example_attach :: "evidence_objects store_attach" where
  "example_attach sid asset es = (Inr example_stored, example_stored # es)"

definition example_reading :: reading where
  "example_reading = \<lparr>rd_cancel = None, rd_now = 0\<rparr>"

definition example_started :: "(media_stream_error + unit) \<times> writer_state \<times> memory_event_store" where
  "example_started = ensure_started_locked answer_lost example_writer media_prepare active_store"

definition example_pushed ::
  "(media_stream_error + media_frame) \<times> writer_state \<times> memory_event_store \<times> evidence_objects" where
  "example_pushed =
     push_asset_frame_with_request_id answered example_attach example_writer (snd controller_new) example_reading
       LockAcquired example_reading None 16 True None example_asset (fst (snd example_started))
       (snd (snd example_started)) []"

definition example_unsure :: "(media_stream_error + nat) \<times> writer_state \<times> memory_event_store" where
  "example_unsure = close_stream answer_lost example_writer None 17 (fst (snd example_pushed)) (fst (snd (snd example_pushed)))"

definition example_closed :: "(media_stream_error + nat) \<times> writer_state \<times> memory_event_store" where
  "example_closed = close_stream answered example_writer None 18 (fst (snd example_unsure)) (snd (snd example_unsure))"

lemma lossy_examples: "lossy_append sid i answered" "lossy_append sid i answer_lost"
  by (auto simp: lossy_append_def answered_def answer_lost_def)
    (metis prod.collapse rtranclp.rtrancl_refl)+

lemma example_stored_asset: "stored_asset_ref example_stored = example_asset"
  by (simp add: stored_asset_ref_def example_stored_def example_asset_def)

lemma example_stream_eq: "payload_eq (MediaStreamStarted example_stream) (MediaStreamStarted example_stream)"
  by (simp add: payload_eq_def example_stream_def media_stream_info_eq_def)

lemmas writer_eval =
  example_writer_def answered_def answer_lost_def example_attach_def example_reading_def
  ensure_started_locked_def flush_pending_def close_stream_def push_asset_frame_with_request_id_def push_locked_def
  media_prepare_def media_ensure_active_def lock_writer_def duration_is_safe_def is_expired_def controller_new_def
  pending_defs event_sequence_new_def example_stored_asset exact_media_retry_def retry_or_def

lemma example_started_eq:
  "fst (snd example_started) = media_prepare"
  "snd (snd example_started) = snd (append_event 201 (start_pending example_writer) active_store)"
  by (simp_all add: example_started_def ensure_started_locked_def answer_lost_def media_prepare_def)

lemma example_pushed_ok: "\<exists>f. fst example_pushed = Inr f \<and> mf_evidence f = example_asset"
  by (simp add: example_pushed_def example_started_eq writer_eval example_eval example_asset_ok wrapping_add_u64_def
      payload_eq_def media_stream_info_eq_def)

lemma example_closed_ok: "fst example_unsure = Inl (MediaEvent StoreShuttingDown)" "fst example_closed = Inr 1"
  by (simp_all add: example_closed_def example_unsure_def example_pushed_def example_started_eq writer_eval example_eval
      example_asset_ok wrapping_add_u64_def wrapping_sub_u64_def payload_eq_def media_stream_info_eq_def)

lemma example_run:
  "writer_run example_writer (acked (fst example_pushed)) (fst (snd example_unsure)) (snd (snd example_unsure))"
proof -
  have "written example_writer active_store = []"
    by (simp add: stream_log_def active_store_eq example_writer_def get_log_def of_stream_def)
  from run_prepare [OF example_reachable(2) this]
  have "writer_run example_writer [] (fst (snd example_started)) (snd (snd example_started))"
    by (rule run_start [OF _ lossy_examples(2), where ?r0.0 = "fst example_started"]) (simp add: example_started_def)
  then have "writer_run example_writer ([] @ acked (fst example_pushed)) (fst (snd example_pushed)) (fst (snd (snd example_pushed)))"
    by (rule run_push_asset [OF _ lossy_examples(1), where es' = "snd (snd (snd example_pushed))"])
      (unfold example_pushed_def prod.collapse, rule refl)
  then show ?thesis
    unfolding append_Nil
    by (rule run_close [OF _ lossy_examples(2), where rc = "fst example_unsure"])
      (unfold example_unsure_def prod.collapse, rule refl)
qed

theorem media_stream_recorded_once_witness:
  "\<exists>f s F x. fst example_pushed = Inr f \<and> fst example_closed = Inr 1 \<and>
    stream_log 1 9 (snd (snd example_closed)) = s # F @ [x] \<and> captured F = [f] \<and>
    te_payload x = MediaStreamEnded 9 1"
proof -
  obtain f where f: "fst example_pushed = Inr f" using example_pushed_ok by blast
  have "close_stream answered example_writer None 18 (fst (snd example_unsure)) (snd (snd example_unsure)) =
      (Inr 1, fst (snd example_closed), snd (snd example_closed))"
    unfolding example_closed_ok(2) [symmetric] by (simp add: example_closed_def)
  from media_stream_recorded_once [OF example_run lossy_examples(1) this]
  obtain s F x where F: "written example_writer (snd (snd example_closed)) = s # F @ [x]"
    "te_payload x = MediaStreamEnded (ms_id (mc_stream example_writer)) 1" "length (captured F) = 1"
    "subseq (acked (fst example_pushed)) (captured F)" by blast
  have "captured F = [f]" using F(3,4) f by (auto simp: length_Suc_conv split: if_splits)
  with F f example_closed_ok show ?thesis by (auto simp: example_writer_def example_stream_def)
qed

end
