(* ===== verification/Media_Recovery.thy ===== *)
theory Media_Recovery
  imports Media_Properties
begin

text \<open>
  Closing a media stream over a store that answers again, and the one state in which it cannot
  succeed: a frame was accepted after an attempt to close whose end event the store had recorded.
\<close>

subsection \<open>Appends to an active Session\<close>

definition ready :: "session_id \<Rightarrow> nat \<Rightarrow> memory_event_store \<Rightarrow> bool" where
  "ready sid k st \<longleftrightarrow>
     (\<exists>slog. get_log sid st = Some slog \<and> si_state (sl_info slog) = Active \<and> \<not> es_stream_shutdown st \<and>
        length (sl_events slog) + k \<le> MAX_SAFE_INTEGER)"

lemma append_ready:
  assumes inv: "store_inv st" and ready: "ready sid (Suc k) st"
    and p: "pv_session_id p = sid" "pv_at_ms p \<le> MAX_SAFE_INTEGER" "\<not> is_lifecycle_payload (pv_payload p)"
    and ok: "\<And>slog. get_log sid st = Some slog \<Longrightarrow> log_inv sid slog \<Longrightarrow> is_ok (append_transition slog p)"
  shows "\<exists>e st'. append_event eid p st = (Inr e, st') \<and> store_inv st' \<and> ready sid k st'"
proof -
  obtain slog where slog: "get_log sid st = Some slog" "si_state (sl_info slog) = Active" "\<not> es_stream_shutdown st"
    "length (sl_events slog) + Suc k \<le> MAX_SAFE_INTEGER" using ready by (auto simp: ready_def)
  have log: "log_inv sid slog" using inv slog(1) by (auto simp: store_inv_def)
  obtain z where z: "append_transition slog p = Inr z" using ok [OF slog(1) log] by (auto simp: is_ok_iff)
  have "next_sequence slog = Inr (Suc (length (sl_events slog)))"
    using log slog(4) by (simp add: next_sequence_def log_inv_def checked_next_if)
  then have "append_event eid p st = append_locked eid p slog st" "\<exists>e st'. append_locked eid p slog st = (Inr e, st')"
    using slog p z by (auto simp: append_event_def ensure_timestamp_def append_locked_def Let_def split: sum.splits)
  then obtain e st' where run: "append_event eid p st = (Inr e, st')" by auto
  have "ready sid k st'" using inv run
  proof (cases rule: append_event_cases)
    case (new slog' t)
    have "log_inv sid (appended_log eid p t slog')" using append_event_inv [OF inv run] new p(1) by (auto simp: store_inv_def)
    moreover have "\<not> log_ended (sl_events slog' @ [pending_to_event eid (Suc (length (sl_events slog'))) p])"
      using p(3) by (auto simp: log_views pending_to_event_def is_session_ended_def is_lifecycle_payload_def
          split: test_event_payload.splits)
    ultimately have "si_state (sl_info (appended_log eid p t slog')) \<noteq> Ended" by (auto simp: log_inv_def)
    then have "si_state (sl_info (appended_log eid p t slog')) = Active" by (cases "si_state (sl_info (appended_log eid p t slog'))") auto
    then show ?thesis using new slog p(1) by (auto simp: ready_def)
  qed (use slog p in \<open>auto simp: ready_def\<close>)
  then show ?thesis using run append_event_inv [OF inv run] by blast
qed

subsection \<open>The writer's three events are accepted\<close>

definition writer_valid :: "media_stream_writer \<Rightarrow> bool" where
  "writer_valid mc \<longleftrightarrow>
     validate_media_type (ms_media_type (mc_stream mc)) = Inr () \<and>
     (case ms_viewport (mc_stream mc) of Some v \<Rightarrow> \<not> viewport_is_bad v | None \<Rightarrow> True) \<and>
     mc_started_at_ms mc \<le> MAX_SAFE_INTEGER"

definition frame_valid :: "media_stream_writer \<Rightarrow> pending_frame \<Rightarrow> bool" where
  "frame_valid mc pf \<longleftrightarrow>
     pf_at_ms pf \<le> MAX_SAFE_INTEGER \<and> ar_media_type (mf_evidence (pf_frame pf)) = ms_media_type (mc_stream mc) \<and>
     is_ok (from_asset_ref (mf_evidence (pf_frame pf))) \<and> duration_is_safe (mf_duration_ms (pf_frame pf))"

lemma stream_log_get: "get_log sid st = Some slog \<Longrightarrow> stream_log sid i st = filter (of_stream i) (sl_events slog)"
  by (simp add: stream_log_def)

lemma stream_log_mem: "get_log sid st = Some slog \<Longrightarrow> e \<in> set (stream_log sid i st) \<Longrightarrow> e \<in> set (sl_events slog)"
  by (simp add: stream_log_def)

lemma media_stream_info_eq_refl:
  "(case ms_viewport m of Some v \<Rightarrow> \<not> viewport_is_bad v | None \<Rightarrow> True) \<Longrightarrow> media_stream_info_eq m m"
  by (cases "ms_viewport m") (auto simp: media_stream_info_eq_def viewport_eq_refl viewport_is_bad_def is_finite_def)

lemma retry_or_found:
  assumes "e \<in> set (sl_events slog)" "same_request e p" "payload_eq (pv_payload p) (pv_payload p)"
  shows "is_ok (retry_or slog p x)"
proof -
  have "exact_media_retry slog p \<noteq> None"
    using assms by (auto simp: exact_media_retry_def find_None_iff same_request_def)
  then show ?thesis by (auto simp: retry_or_def)
qed

lemma written_open:
  assumes "get_log (mc_session_id mc) st = Some slog" "log_inv (mc_session_id mc) slog"
    and "stream_so_far mc (written mc st) F []"
  shows "map_of (sl_media_streams slog) (ms_id (mc_stream mc)) =
    Some \<lparr>mm_media_type = ms_media_type (mc_stream mc), mm_next_frame_index = Suc (length F)\<rparr>"
proof -
  have "open_streams (written mc st) (ms_id (mc_stream mc)) =
      Some \<lparr>mm_media_type = ms_media_type (mc_stream mc), mm_next_frame_index = Suc (length F)\<rparr>"
    using stream_so_far_open(2) [OF assms(3)] assms(3) by (auto simp: stream_so_far_def)
  then show ?thesis
    using open_streams_of_stream [of "sl_events slog" "ms_id (mc_stream mc)"] assms(2)
    by (simp add: stream_log_get [OF assms(1)] log_inv_def)
qed

lemma start_accepted:
  assumes log: "get_log (mc_session_id mc) st = Some slog" "log_inv (mc_session_id mc) slog" and valid: "writer_valid mc"
    and E: "written mc st = [] \<or> stream_so_far mc (written mc st) [] []"
  shows "is_ok (append_transition slog (start_pending mc))"
proof -
  let ?i = "ms_id (mc_stream mc)"
  have E': "written mc st = filter (of_stream ?i) (sl_events slog)" using log(1) by (rule stream_log_get)
  have book: "set (sl_seen_media_streams slog) = set (started_streams (sl_events slog))"
    "map_of (sl_media_streams slog) = open_streams (sl_events slog)" "si_id (sl_info slog) = mc_session_id mc"
    using log(2) by (auto simp: log_inv_def)
  from E show ?thesis
  proof
    assume "written mc st = []"
    then have "?i \<notin> set (sl_seen_media_streams slog)"
      using started_streams_of_stream [of ?i "sl_events slog"] E' book by (simp add: started_streams_def)
    then show ?thesis using valid
      by (auto simp: append_transition_def pending_defs put_evidence_new_def writer_valid_def split: option.splits)
  next
    assume so: "stream_so_far mc (written mc st) [] []"
    then obtain s where s: "written mc st = [s]" "same_request s (start_pending mc)" by (auto simp: stream_so_far_def)
    have "payload_eq (pv_payload (start_pending mc)) (pv_payload (start_pending mc))"
      using valid by (simp add: pending_defs payload_eq_def media_stream_info_eq_refl writer_valid_def)
    moreover have "s \<in> set (sl_events slog)" using s(1) stream_log_mem [OF log(1), of s ?i] by simp
    ultimately have found: "is_ok (retry_or slog (start_pending mc) x)" for x using s(2) by (intro retry_or_found)
    have "map_of (sl_media_streams slog) ?i = Some \<lparr>mm_media_type = ms_media_type (mc_stream mc), mm_next_frame_index = 1\<rparr>"
      using written_open [OF log so] by simp
    moreover from this have "?i \<in> set (sl_seen_media_streams slog)"
      using open_streams_started log(2) book by (auto simp: log_inv_def)
    ultimately show ?thesis using found book by (simp add: append_transition_def pending_defs)
  qed
qed

lemma frame_accepted:
  assumes log: "get_log (mc_session_id mc) st = Some slog" "log_inv (mc_session_id mc) slog"
    and so: "stream_so_far mc (written mc st) F X" and X: "X = [] \<or> (\<exists>x. X = [x] \<and> same_request x (frame_pending mc pf))"
    and pf: "mf_stream_id (pf_frame pf) = ms_id (mc_stream mc)" "mf_frame_index (pf_frame pf) = Suc (length F)"
      "frame_valid mc pf"
  shows "is_ok (append_transition slog (frame_pending mc pf))"
  using X
proof
  assume "X = []"
  from written_open [OF log so [unfolded this]] show ?thesis using pf
    by (auto simp: append_transition_def pending_defs frame_valid_def duration_is_safe_def split: option.splits)
next
  assume "\<exists>x. X = [x] \<and> same_request x (frame_pending mc pf)"
  then obtain x where x: "X = [x]" "same_request x (frame_pending mc pf)" by blast
  then have "x \<in> set (sl_events slog)"
    using so by (intro stream_log_mem [OF log(1), of x "ms_id (mc_stream mc)"]) (auto simp: stream_so_far_def)
  from retry_transition [OF log(2) this x(2)] show ?thesis by (simp add: is_frame_or_end_def pending_defs)
qed

lemma end_accepted:
  assumes log: "get_log (mc_session_id mc) st = Some slog" "log_inv (mc_session_id mc) slog"
    and so: "stream_so_far mc (written mc st) F X"
    and X: "X = [] \<or> (\<exists>x. X = [x] \<and> same_request x (end_pending mc t (length F)))"
  shows "is_ok (append_transition slog (end_pending mc t (length F)))"
  using X
proof
  assume "X = []"
  from written_open [OF log so [unfolded this]] show ?thesis
    by (auto simp: append_transition_def pending_defs wrapping_sub_u64_def)
next
  assume "\<exists>x. X = [x] \<and> same_request x (end_pending mc t (length F))"
  then obtain x where x: "X = [x]" "same_request x (end_pending mc t (length F))" by blast
  then have "x \<in> set (sl_events slog)"
    using so by (intro stream_log_mem [OF log(1), of x "ms_id (mc_stream mc)"]) (auto simp: stream_so_far_def)
  from retry_transition [OF log(2) this x(2)] show ?thesis by (simp add: is_frame_or_end_def pending_defs)
qed

lemma lossy_append_event: "lossy_append sid i (append_event eid)"
  unfolding lossy_append_def by (metis rtranclp.rtrancl_refl surj_pair)

lemma not_lifecycle [simp]:
  "\<not> is_lifecycle_payload (pv_payload (start_pending mc))" "\<not> is_lifecycle_payload (pv_payload (frame_pending mc pf))"
  "\<not> is_lifecycle_payload (pv_payload (end_pending mc t n))"
  by (simp_all add: pending_defs is_lifecycle_payload_def)

lemma ensure_started_locked_ready:
  assumes inv: "new_inv mc acks w st \<or> open_inv mc acks w st" and ready: "ready (mc_session_id mc) (Suc k) st"
    and valid: "writer_valid mc"
  shows "\<exists>w' st'. ensure_started_locked (append_event eid) mc w st = (Inr (), w', st') \<and>
    open_inv mc acks w' st' \<and> ready (mc_session_id mc) k st' \<and>
    mw_pending w' = mw_pending w \<and> mw_terminal_pending w' = mw_terminal_pending w"
proof (cases "mw_started w")
  case True
  then have "open_inv mc acks w st" using inv by (auto simp: new_inv_def media_prepare_def)
  then show ?thesis using True ready by (auto simp: ensure_started_locked_def ready_def)
next
  case False
  then have new: "store_inv st" "written mc st = [] \<or> stream_so_far mc (written mc st) [] []"
    using inv by (auto simp: new_inv_def open_inv_def)
  from append_ready [OF new(1) ready pending_session(1) _ not_lifecycle(1) start_accepted [OF _ _ valid new(2)], of eid]
  obtain e st' where run: "append_event eid (start_pending mc) st = (Inr e, st')" "ready (mc_session_id mc) k st'"
    using valid by (auto simp: writer_valid_def pending_defs)
  have "ensure_started_locked (append_event eid) mc w st = (Inr (), w\<lparr>mw_started := True\<rparr>, st')"
    using False run by (simp add: ensure_started_locked_def)
  moreover from ensure_started_locked_inv [OF inv lossy_append_event this]
  have "open_inv mc acks (w\<lparr>mw_started := True\<rparr>) st'" by simp
  ultimately show ?thesis using run by simp
qed

lemma flush_pending_ready:
  assumes inv: "open_inv mc acks w st" and ready: "ready (mc_session_id mc) (Suc k) st"
    and free: "mw_pending w = None \<or> mw_terminal_pending w = None"
    and valid: "\<And>pf. mw_pending w = Some pf \<Longrightarrow> frame_valid mc pf"
  shows "\<exists>w' st'. flush_pending (append_event eid) mc w st = (Inr (), w', st') \<and>
    open_inv mc acks w' st' \<and> ready (mc_session_id mc) k st' \<and> mw_pending w' = None \<and>
    mw_terminal_pending w' = mw_terminal_pending w"
proof (cases "mw_pending w")
  case None
  then show ?thesis using inv ready by (auto simp: flush_pending_def ready_def)
next
  case (Some pf)
  obtain F X where so: "stream_so_far mc (written mc st) F X" and tail: "unsure_tail mc w (length F) X"
    and w: "store_inv st" "mw_next_frame_index w = Suc (length F)" "pending_ok mc w"
    using inv by (auto simp: open_inv_def)
  have pf: "mf_stream_id (pf_frame pf) = ms_id (mc_stream mc)" "mf_frame_index (pf_frame pf) = Suc (length F)"
    using w Some by (auto simp: pending_ok_def)
  have X: "X = [] \<or> (\<exists>x. X = [x] \<and> same_request x (frame_pending mc pf))"
    using tail free Some by (auto simp: unsure_tail_def)
  from append_ready [OF w(1) ready pending_session(2) _ not_lifecycle(2) frame_accepted [OF _ _ so X pf valid [OF Some]], of eid]
  obtain e st' where run: "append_event eid (frame_pending mc pf) st = (Inr e, st')" "ready (mc_session_id mc) k st'"
    using valid [OF Some] by (auto simp: frame_valid_def pending_defs)
  let ?w = "w\<lparr>mw_pending := None, mw_next_frame_index := mw_next_frame_index w + 1\<rparr>"
  have "flush_pending (append_event eid) mc w st = (Inr (), ?w, st')"
    using Some run by (simp add: flush_pending_def)
  moreover from flush_pending_inv [OF inv lossy_append_event this] have "open_inv mc acks ?w st'" by simp
  ultimately show ?thesis using run by simp
qed

text \<open>
  C37. A stream whose start, last frame or end may or may not be recorded can always be closed once
  the store answers: one call of \<open>finish\<close> or \<open>abort\<close> on an active Session with room for three more
  events returns a frame count, if the stream and the pending frame are well formed and no frame
  was accepted after an unanswered attempt to close.
\<close>

theorem media_close_recovers:
  assumes "writer_run mc acks w st" "ready (mc_session_id mc) 3 st" "writer_valid mc"
    and "\<And>pf. mw_pending w = Some pf \<Longrightarrow> frame_valid mc pf"
    and "mw_pending w = None \<or> mw_terminal_pending w = None"
    and "\<And>t. mw_terminal_pending w = Some t \<Longrightarrow> pt_at_ms t \<le> MAX_SAFE_INTEGER" "at_ms \<le> MAX_SAFE_INTEGER"
  shows "\<exists>n w' st'. close_stream (append_event eid) mc request_id at_ms w st = (Inr n, w', st')"
proof (cases "mw_terminal_frame_count w")
  case (Some n)
  then show ?thesis by (simp add: close_stream_def)
next
  case None
  then have inv: "new_inv mc acks w st \<or> open_inv mc acks w st"
    using writer_run_inv [OF assms(1)] by (auto simp: writer_inv_def closed_inv_def)
  have three: "ready (mc_session_id mc) (Suc (Suc (Suc 0))) st" using assms(2) by (simp add: numeral_3_eq_3)
  from ensure_started_locked_ready [OF inv three assms(3), of eid] obtain w1 s1 where
    start: "ensure_started_locked (append_event eid) mc w st = (Inr (), w1, s1)" "open_inv mc acks w1 s1"
      "ready (mc_session_id mc) (Suc (Suc 0)) s1" "mw_pending w1 = mw_pending w"
      "mw_terminal_pending w1 = mw_terminal_pending w" by blast
  from flush_pending_ready [OF start(2,3), of eid] start assms(4,5) obtain w2 s2 where
    flush: "flush_pending (append_event eid) mc w1 s1 = (Inr (), w2, s2)" "open_inv mc acks w2 s2"
      "ready (mc_session_id mc) (Suc 0) s2" "mw_pending w2 = None" "mw_terminal_pending w2 = mw_terminal_pending w"
    by auto
  obtain F X where so: "stream_so_far mc (written mc s2) F X" and tail: "unsure_tail mc w2 (length F) X"
    and w2: "store_inv s2" "mw_next_frame_index w2 = Suc (length F)"
    using flush(2) by (auto simp: open_inv_def)
  define t where "t = (case mw_terminal_pending w2 of Some t \<Rightarrow> t | None \<Rightarrow> \<lparr>pt_request_id = request_id, pt_at_ms = at_ms\<rparr>)"
  have X: "X = [] \<or> (\<exists>x. X = [x] \<and> same_request x (end_pending mc t (length F)))"
    using tail flush(4) by (auto simp: unsure_tail_def t_def)
  have "pt_at_ms t \<le> MAX_SAFE_INTEGER" using assms(6,7) flush(5) by (auto simp: t_def split: option.splits)
  with append_ready [OF w2(1) flush(3) pending_session(3) _ not_lifecycle(3) end_accepted [OF _ _ so X], of eid]
  obtain e s3 where "append_event eid (end_pending mc t (length F)) s2 = (Inr e, s3)"
    by (auto simp: pending_defs)
  then show ?thesis using None start(1) flush(1) w2(2)
    by (simp add: close_stream_def t_def [symmetric] Let_def)
qed

lemmas unsure_eval =
  example_unsure_def example_pushed_def example_started_eq writer_eval example_eval example_asset_ok
  wrapping_add_u64_def wrapping_sub_u64_def payload_eq_def media_stream_info_eq_def

lemma example_unsure_state:
  "mw_pending (fst (snd example_unsure)) = None"
  "mw_terminal_pending (fst (snd example_unsure)) = Some \<lparr>pt_request_id = None, pt_at_ms = 17\<rparr>"
  "ready 1 3 (snd (snd example_unsure))"
  by (simp_all add: ready_def unsure_eval)

theorem media_close_recovers_witness:
  "\<exists>n w' st'. close_stream (append_event 300) example_writer None 18 (fst (snd example_unsure))
     (snd (snd example_unsure)) = (Inr n, w', st')"
proof (rule media_close_recovers [OF example_run])
  show "ready (mc_session_id example_writer) 3 (snd (snd example_unsure))"
    using example_unsure_state(3) by (simp add: example_writer_def)
  show "writer_valid example_writer"
    by (simp add: writer_valid_def example_writer_def example_stream_def example_eval)
qed (simp_all add: example_unsure_state MAX_SAFE_INTEGER_def)

subsection \<open>A frame accepted after an unanswered end\<close>

definition blocked :: "media_stream_writer \<Rightarrow> writer_state \<Rightarrow> memory_event_store \<Rightarrow> bool" where
  "blocked mc w st \<longleftrightarrow>
     store_inv st \<and> mw_started w \<and> mw_terminal_frame_count w = None \<and> mw_pending w \<noteq> None \<and> pending_ok mc w \<and>
     (\<exists>F x. stream_so_far mc (written mc st) F [x] \<and> mw_next_frame_index w = Suc (length F) \<and>
        te_payload x = MediaStreamEnded (ms_id (mc_stream mc)) (length F))"

text \<open>
  When the end of the stream is recorded while a frame is pending, no later call can close the
  stream: the frame is refused because the stream has ended, and the end is never sent again.
\<close>

lemma blocked_stream_never_closes:
  assumes blocked: "blocked mc w st" and lossy: "lossy_append (mc_session_id mc) (ms_id (mc_stream mc)) append_to"
    and run: "close_stream append_to mc request_id at_ms w st = (r, w', st')"
  shows "(\<exists>e. r = Inl e) \<and> blocked mc w' st'"
proof -
  obtain pf F x where w: "store_inv st" "mw_started w" "mw_terminal_frame_count w = None" "mw_pending w = Some pf"
    "pending_ok mc w" and so: "stream_so_far mc (written mc st) F [x]" "mw_next_frame_index w = Suc (length F)"
    and x: "te_payload x = MediaStreamEnded (ms_id (mc_stream mc)) (length F)"
    using blocked by (auto simp: blocked_def)
  have pf: "mf_stream_id (pf_frame pf) = ms_id (mc_stream mc)" "mf_frame_index (pf_frame pf) = Suc (length F)"
    using w so by (auto simp: pending_ok_def)
  obtain q s1 where app: "append_to (frame_pending mc pf) st = (q, s1)" by fastforce
  then have res: "q = Inl e \<Longrightarrow> r = Inl (MediaEvent e) \<and> w' = w \<and> st' = s1" for e
    using run w by (auto simp: close_stream_def ensure_started_locked_def flush_pending_def)
  from lossy w(1) app pending_session(2) of_stream_pending(3) [THEN iffD2, OF pf(1)] show ?thesis
  proof (cases rule: lossy_append_stream)
    case (failed e)
    with res [of e] w so x show ?thesis by (auto simp: blocked_def)
  next
    case (retried e)
    obtain s where s: "written mc st = s # F @ [x]" "same_request s (start_pending mc)" "stream_frames (ms_id (mc_stream mc)) F"
      using so by (auto simp: stream_so_far_def)
    have e: "te_payload e = MediaFrameCaptured (pf_frame pf)" using retried(2) by (rule same_request_payload)
    then have "e \<in> set F" using retried(1) s x by (auto dest!: same_request_payload)
    then have False using e s(3) pf by (auto simp: stream_frames_def in_set_conv_nth)
    then show ?thesis ..
  next
    case (recorded y)
    have "open_streams (written mc st) (ms_id (mc_stream mc)) = None"
      using stream_so_far_open(1) [OF so(1) refl] x by (simp add: stream_step_def)
    with recorded(4) show ?thesis by (simp add: admits_def pending_defs)
  qed
qed

definition example_late ::
  "(media_stream_error + media_frame) \<times> writer_state \<times> memory_event_store \<times> evidence_objects" where
  "example_late =
     push_asset_frame_with_request_id answered example_attach example_writer (snd controller_new) example_reading
       LockAcquired example_reading None 18 True None example_asset (fst (snd example_unsure))
       (snd (snd example_unsure)) []"

lemma example_late_state:
  "mw_started (fst (snd example_late))" "mw_terminal_frame_count (fst (snd example_late)) = None"
  "mw_pending (fst (snd example_late)) \<noteq> None" "mw_next_frame_index (fst (snd example_late)) = 2"
  "\<exists>s f x. written example_writer (fst (snd (snd example_late))) = [s, f, x] \<and> te_payload x = MediaStreamEnded 9 1"
  by (simp_all add: example_late_def stream_log_def of_stream_def unsure_eval)

lemma blocked_reachable: "\<exists>acks w st. writer_run example_writer acks w st \<and> blocked example_writer w st"
proof -
  let ?w = "fst (snd example_late)" and ?st = "fst (snd (snd example_late))"
  let ?acks = "acked (fst example_pushed) @ acked (fst example_late)"
  have run: "writer_run example_writer ?acks ?w ?st"
    by (rule run_push_asset [OF example_run lossy_examples(1), where es' = "snd (snd (snd example_late))"])
      (unfold example_late_def prod.collapse, rule refl)
  then have "open_inv example_writer ?acks ?w ?st"
    using writer_run_inv [OF run] example_late_state(1-3)
    by (auto simp: writer_inv_def new_inv_def closed_inv_def media_prepare_def)
  then obtain F X where inv: "store_inv ?st" "pending_ok example_writer ?w"
      "stream_so_far example_writer (written example_writer ?st) F X" "length F = 1"
    using example_late_state(4) by (auto simp: open_inv_def)
  obtain s f x where E: "written example_writer ?st = [s, f, x]" "te_payload x = MediaStreamEnded 9 1"
    using example_late_state(5) by blast
  have "X = [x]" using inv(3,4) E by (auto simp: stream_so_far_def length_Suc_conv)
  with inv E example_late_state(1-4) have "blocked example_writer ?w ?st"
    unfolding blocked_def by (intro conjI exI [of _ F] exI [of _ x]) (auto simp: example_writer_def example_stream_def)
  with run show ?thesis by blast
qed

end
