(* ===== verification/Node_Leases.thy ===== *)
theory Node_Leases
  imports Device_Pool "HOL-Library.Char_ord" "HOL-Library.List_Lexorder"
begin

text \<open>
  The lease authority of one node and its ledger of executed calls,
  \<open>crates/distributed-router/src/lease.rs\<close>, with the validation of \<open>PeerLease\<close> in \<open>model.rs\<close>.

  The wall clock \<open>now_ms\<close> is an argument as in the code. \<open>Instant::now()\<close> is the argument
  \<open>now\<close>, read a second time as \<open>later\<close> where the code reads it twice; the fresh UUID of a new
  lease is the argument \<open>lease_id\<close>. \<open>Sha256::digest\<close> is the argument \<open>digest\<close>.
\<close>

subsection \<open>Tokens\<close>

definition MAX_DEVICE_KEY_BYTES :: nat where
  "MAX_DEVICE_KEY_BYTES = 128"

definition valid_identifier :: "string \<Rightarrow> nat \<Rightarrow> bool" where
  "valid_identifier value max_bytes \<longleftrightarrow>
     value \<noteq> [] \<and> length value \<le> max_bytes \<and>
     list_all (\<lambda>(index, byte). is_ascii_alphanumeric byte \<or> 0 < index \<and> byte \<in> set ''._-'') (enumerate 0 value)"

definition valid_lease_ttl :: "nat \<Rightarrow> bool" where
  "valid_lease_ttl ttl_ms \<longleftrightarrow> 1000 \<le> ttl_ms \<and> ttl_ms \<le> 5 * 60000"

record peer_lease =
  pl_lease_id :: uuid
  pl_device_key :: string
  pl_owner_id :: string
  pl_node_epoch :: nat
  pl_expires_at_ms :: nat

definition peer_lease_validate :: "peer_lease \<Rightarrow> bool" where
  "peer_lease_validate lease \<longleftrightarrow>
     \<not> (pl_lease_id lease = 0
        \<or> \<not> valid_identifier (pl_device_key lease) MAX_DEVICE_KEY_BYTES
        \<or> \<not> valid_identifier (pl_owner_id lease) 64
        \<or> pl_node_epoch lease = 0 \<or> pl_node_epoch lease > MAX_SAFE_INTEGER
        \<or> pl_expires_at_ms lease = 0 \<or> pl_expires_at_ms lease > MAX_SAFE_INTEGER)"

datatype lease_error = LeaseInvalid | LeaseHeld | LeaseStale | LeaseDeviceNotFound

definition lease_error_code :: "lease_error \<Rightarrow> string" where
  "lease_error_code e =
     (case e of
        LeaseInvalid \<Rightarrow> ''lease_invalid''
      | LeaseHeld \<Rightarrow> ''lease_held''
      | LeaseStale \<Rightarrow> ''lease_stale''
      | LeaseDeviceNotFound \<Rightarrow> ''lease_device_not_found'')"

subsection \<open>The lease table\<close>

record active_lease =
  al_token :: peer_lease
  al_deadline :: nat

record lease_table =
  lt_node_epoch :: nat
  lt_known_devices :: "string list"
  lt_active :: "(string \<times> active_lease) list"

definition lease_is_active :: "nat \<Rightarrow> nat \<Rightarrow> active_lease \<Rightarrow> bool" where
  "lease_is_active now_ms now a \<longleftrightarrow> pl_expires_at_ms (al_token a) > now_ms \<and> now < al_deadline a"

definition lease_table_new :: "nat \<Rightarrow> string list \<Rightarrow> lease_error + lease_table" where
  "lease_table_new node_epoch devices =
     (let known_devices = fold bs_insert devices [] in
      if node_epoch = 0 \<or> node_epoch > MAX_SAFE_INTEGER \<or> known_devices = [] \<or> length known_devices > 256
         \<or> list_ex (\<lambda>key. \<not> valid_identifier key MAX_DEVICE_KEY_BYTES) known_devices
      then Inl LeaseInvalid
      else Inr \<lparr>lt_node_epoch = node_epoch, lt_known_devices = known_devices, lt_active = []\<rparr>)"

definition validate_input :: "lease_table \<Rightarrow> string \<Rightarrow> string \<Rightarrow> nat \<Rightarrow> nat \<Rightarrow> lease_error + unit" where
  "validate_input t device_key owner_id ttl_ms now_ms =
     (if \<not> valid_identifier device_key MAX_DEVICE_KEY_BYTES \<or> \<not> valid_identifier owner_id 64
         \<or> \<not> valid_lease_ttl ttl_ms \<or> now_ms = 0 \<or> now_ms > MAX_SAFE_INTEGER
      then Inl LeaseInvalid
      else if device_key \<notin> set (lt_known_devices t) then Inl LeaseDeviceNotFound
      else Inr ())"

definition validate_lease :: "lease_table \<Rightarrow> peer_lease \<Rightarrow> nat \<Rightarrow> lease_error + unit" where
  "validate_lease t lease now_ms =
     (if \<not> peer_lease_validate lease then Inl LeaseInvalid
      else if pl_node_epoch lease \<noteq> lt_node_epoch t \<or> now_ms = 0 \<or> now_ms > MAX_SAFE_INTEGER
      then Inl LeaseStale
      else Inr ())"

definition is_current :: "lease_table \<Rightarrow> peer_lease \<Rightarrow> nat \<Rightarrow> nat \<Rightarrow> bool" where
  "is_current t lease now_ms now \<longleftrightarrow>
     (case map_of (lt_active t) (pl_device_key lease) of
        Some current \<Rightarrow> al_token current = lease \<and> lease_is_active now_ms now current
      | None \<Rightarrow> False)"

definition expires_at :: "nat \<Rightarrow> nat \<Rightarrow> nat option" where
  "expires_at now_ms ttl_ms =
     (case checked_add_u64 now_ms ttl_ms of
        Some v \<Rightarrow> (if v \<le> MAX_SAFE_INTEGER then Some v else None)
      | None \<Rightarrow> None)"

definition install_token ::
  "peer_lease \<Rightarrow> nat \<Rightarrow> nat \<Rightarrow> lease_table \<Rightarrow> (lease_error + peer_lease) \<times> lease_table" where
  "install_token lease ttl_ms later t =
     (case instant_checked_add later (ttl_ms * NANOS_PER_MILLI) of
        None \<Rightarrow> (Inl LeaseInvalid, t)
      | Some deadline \<Rightarrow>
          (Inr lease,
           t\<lparr>lt_active := bt_insert (pl_device_key lease) \<lparr>al_token = lease, al_deadline = deadline\<rparr> (lt_active t)\<rparr>))"

definition lease_acquire ::
  "string \<Rightarrow> string \<Rightarrow> nat \<Rightarrow> nat \<Rightarrow> uuid \<Rightarrow> nat \<Rightarrow> nat \<Rightarrow> lease_table \<Rightarrow>
   (lease_error + peer_lease) \<times> lease_table" where
  "lease_acquire device_key owner_id ttl_ms now_ms lease_id now later t =
     (case validate_input t device_key owner_id ttl_ms now_ms of
        Inl e \<Rightarrow> (Inl e, t)
      | Inr _ \<Rightarrow>
          let fresh =
            (case expires_at now_ms ttl_ms of
               None \<Rightarrow> (Inl LeaseInvalid, t)
             | Some expires_at_ms \<Rightarrow>
                 install_token \<lparr>pl_lease_id = lease_id, pl_device_key = device_key, pl_owner_id = owner_id,
                   pl_node_epoch = lt_node_epoch t, pl_expires_at_ms = expires_at_ms\<rparr> ttl_ms later t)
          in case map_of (lt_active t) device_key of
               Some existing \<Rightarrow>
                 if lease_is_active now_ms now existing
                 then (if pl_owner_id (al_token existing) = owner_id then (Inr (al_token existing), t)
                       else (Inl LeaseHeld, t))
                 else fresh
             | None \<Rightarrow> fresh)"

definition lease_authorize :: "peer_lease \<Rightarrow> nat \<Rightarrow> nat \<Rightarrow> lease_table \<Rightarrow> lease_error + unit" where
  "lease_authorize lease now_ms now t =
     res_bind (validate_lease t lease now_ms) (\<lambda>_.
       if is_current t lease now_ms now then Inr () else Inl LeaseStale)"

definition lease_renew ::
  "peer_lease \<Rightarrow> nat \<Rightarrow> nat \<Rightarrow> nat \<Rightarrow> nat \<Rightarrow> lease_table \<Rightarrow> (lease_error + peer_lease) \<times> lease_table" where
  "lease_renew lease ttl_ms now_ms now later t =
     (if \<not> valid_lease_ttl ttl_ms then (Inl LeaseInvalid, t)
      else case validate_lease t lease now_ms of
        Inl e \<Rightarrow> (Inl e, t)
      | Inr _ \<Rightarrow>
          if \<not> is_current t lease now_ms now then (Inl LeaseStale, t)
          else case expires_at now_ms ttl_ms of
            None \<Rightarrow> (Inl LeaseInvalid, t)
          | Some expires_at_ms \<Rightarrow> install_token (lease\<lparr>pl_expires_at_ms := expires_at_ms\<rparr>) ttl_ms later t)"

definition lease_release :: "peer_lease \<Rightarrow> nat \<Rightarrow> nat \<Rightarrow> lease_table \<Rightarrow> (lease_error + unit) \<times> lease_table" where
  "lease_release lease now_ms now t =
     (case validate_lease t lease now_ms of
        Inl e \<Rightarrow> (Inl e, t)
      | Inr _ \<Rightarrow>
          if \<not> is_current t lease now_ms now then (Inl LeaseStale, t)
          else (Inr (), t\<lparr>lt_active := hm_remove (pl_device_key lease) (lt_active t)\<rparr>))"

definition lease_revoke :: "peer_lease \<Rightarrow> lease_table \<Rightarrow> (lease_error + unit) \<times> lease_table" where
  "lease_revoke lease t =
     (if \<not> peer_lease_validate lease then (Inl LeaseInvalid, t)
      else if pl_node_epoch lease \<noteq> lt_node_epoch t then (Inl LeaseStale, t)
      else case map_of (lt_active t) (pl_device_key lease) of
        Some current \<Rightarrow>
          if al_token current = lease
          then (Inr (), t\<lparr>lt_active := hm_remove (pl_device_key lease) (lt_active t)\<rparr>)
          else (Inl LeaseStale, t)
      | None \<Rightarrow> (Inl LeaseStale, t))"

definition invalidate_all :: "lease_table \<Rightarrow> lease_table" where
  "invalidate_all t = t\<lparr>lt_active := []\<rparr>"

subsection \<open>The call ledger\<close>

definition MAX_LEDGER_CALLS :: nat where
  "MAX_LEDGER_CALLS = 1024"

datatype call_ledger_decision = FirstSeen | Duplicate | Conflict

record ledger_state =
  ls_order :: "uuid list"
  ls_fingerprints :: "(uuid \<times> string) list"

definition ledger_default :: ledger_state where
  "ledger_default = \<lparr>ls_order = [], ls_fingerprints = []\<rparr>"

definition ledger_register ::
  "(string \<Rightarrow> string) \<Rightarrow> uuid \<Rightarrow> string \<Rightarrow> ledger_state \<Rightarrow> call_ledger_decision \<times> ledger_state" where
  "ledger_register digest call_id canonical_request s =
     (if call_id = 0 then (Conflict, s)
      else
        let fingerprint = digest canonical_request in
        case map_of (ls_fingerprints s) call_id of
          Some existing \<Rightarrow> (if existing = fingerprint then Duplicate else Conflict, s)
        | None \<Rightarrow>
            let s1 = (if length (ls_order s) = MAX_LEDGER_CALLS
                      then (case ls_order s of
                              evicted # rest \<Rightarrow>
                                \<lparr>ls_order = rest, ls_fingerprints = hm_remove evicted (ls_fingerprints s)\<rparr>
                            | [] \<Rightarrow> s)
                      else s)
            in (FirstSeen,
                \<lparr>ls_order = ls_order s1 @ [call_id],
                 ls_fingerprints = bt_insert call_id fingerprint (ls_fingerprints s1)\<rparr>))"

subsection \<open>Runs of a lease table\<close>

text \<open>
  A run keeps, beside the table, which device and owner each lease id was drawn for and the last
  reading of the monotonic clock. Lease ids are drawn once; the wall clock is arbitrary.
\<close>

type_synonym lease_ids = "uuid \<rightharpoonup> string \<times> string"

inductive lease_step :: "lease_table \<times> lease_ids \<times> nat \<Rightarrow> lease_table \<times> lease_ids \<times> nat \<Rightarrow> bool" where
  step_acquire: "clock \<le> now \<Longrightarrow> now \<le> later \<Longrightarrow> lid \<noteq> 0 \<Longrightarrow> issued lid = None \<Longrightarrow>
    lease_acquire dk owner ttl now_ms lid now later t = (r, t') \<Longrightarrow>
    lease_step (t, issued, clock) (t', issued(lid \<mapsto> (dk, owner)), later)"
| step_renew: "clock \<le> now \<Longrightarrow> now \<le> later \<Longrightarrow> lease_renew lease ttl now_ms now later t = (r, t') \<Longrightarrow>
    lease_step (t, issued, clock) (t', issued, later)"
| step_release: "clock \<le> now \<Longrightarrow> lease_release lease now_ms now t = (r', t') \<Longrightarrow>
    lease_step (t, issued, clock) (t', issued, now)"
| step_revoke: "lease_revoke lease t = (r', t') \<Longrightarrow> lease_step (t, issued, clock) (t', issued, clock)"
| step_invalidate: "lease_step (t, issued, clock) (invalidate_all t, issued, clock)"

definition lease_reachable :: "lease_table \<times> lease_ids \<times> nat \<Rightarrow> bool" where
  "lease_reachable s \<longleftrightarrow>
     (\<exists>epoch devices t clock. lease_table_new epoch devices = Inr t \<and> lease_step\<^sup>*\<^sup>* (t, Map.empty, clock) s)"

definition table_inv :: "lease_table \<times> lease_ids \<times> nat \<Rightarrow> bool" where
  "table_inv s =
     (case s of (t, issued, clock) \<Rightarrow>
        \<forall>dk a. map_of (lt_active t) dk = Some a \<longrightarrow>
          pl_device_key (al_token a) = dk \<and>
          issued (pl_lease_id (al_token a)) = Some (dk, pl_owner_id (al_token a)) \<and>
          al_deadline a \<le> clock + 5 * 60000 * NANOS_PER_MILLI)"

lemma table_invD:
  "table_inv (t, issued, clock) \<Longrightarrow> map_of (lt_active t) dk = Some a \<Longrightarrow>
   pl_device_key (al_token a) = dk \<and> issued (pl_lease_id (al_token a)) = Some (dk, pl_owner_id (al_token a)) \<and>
   al_deadline a \<le> clock + 5 * 60000 * NANOS_PER_MILLI"
  by (auto simp: table_inv_def)

lemma install_token_cases:
  assumes "install_token lease ttl later t = (r, t')" "ttl \<le> 5 * 60000"
  obtains (failed) "r = Inl LeaseInvalid" "t' = t"
  | (installed) deadline where "r = Inr lease" "deadline \<le> later + 5 * 60000 * NANOS_PER_MILLI"
      "t' = t\<lparr>lt_active := bt_insert (pl_device_key lease) \<lparr>al_token = lease, al_deadline = deadline\<rparr> (lt_active t)\<rparr>"
proof (cases "later + ttl * NANOS_PER_MILLI < INSTANT_LIMIT")
  case True
  then show ?thesis using assms
    by (intro installed [of "later + ttl * NANOS_PER_MILLI"]) (auto simp: install_token_def instant_checked_add_def)
next
  case False
  then show ?thesis using assms failed by (auto simp: install_token_def instant_checked_add_def)
qed

lemma lease_acquire_cases:
  assumes "lease_acquire dk owner ttl now_ms lid now later t = (r, t')"
  obtains (failed) e where "r = Inl e" "t' = t"
  | (existing) a where "r = Inr (al_token a)" "t' = t" "map_of (lt_active t) dk = Some a" "pl_owner_id (al_token a) = owner"
  | (fresh) lease deadline where "r = Inr lease" "pl_lease_id lease = lid" "pl_device_key lease = dk"
      "pl_owner_id lease = owner" "deadline \<le> later + 5 * 60000 * NANOS_PER_MILLI"
      "t' = t\<lparr>lt_active := bt_insert dk \<lparr>al_token = lease, al_deadline = deadline\<rparr> (lt_active t)\<rparr>"
proof (cases "validate_input t dk owner ttl now_ms")
  case (Inl e)
  then show ?thesis using assms failed by (auto simp: lease_acquire_def)
next
  case (Inr u)
  then have ttl: "ttl \<le> 5 * 60000" by (auto simp: validate_input_def valid_lease_ttl_def split: if_splits)
  show ?thesis
  proof (cases "\<exists>a. map_of (lt_active t) dk = Some a \<and> lease_is_active now_ms now a")
    case True
    then obtain a where a: "map_of (lt_active t) dk = Some a" "lease_is_active now_ms now a" by blast
    then show ?thesis using assms Inr failed [of LeaseHeld] existing [of a]
      by (cases "pl_owner_id (al_token a) = owner") (auto simp: lease_acquire_def)
  next
    case False
    let ?lease = "\<lambda>e. \<lparr>pl_lease_id = lid, pl_device_key = dk, pl_owner_id = owner, pl_node_epoch = lt_node_epoch t,
      pl_expires_at_ms = e\<rparr>"
    from False assms Inr have run: "(case expires_at now_ms ttl of None \<Rightarrow> (Inl LeaseInvalid, t)
        | Some e \<Rightarrow> install_token (?lease e) ttl later t) = (r, t')"
      by (cases "map_of (lt_active t) dk") (auto simp: lease_acquire_def Let_def)
    show ?thesis
    proof (cases "expires_at now_ms ttl")
      case None
      then show ?thesis using run failed by auto
    next
      case (Some e)
      with run have "install_token (?lease e) ttl later t = (r, t')" by simp
      then show ?thesis using ttl
        by (cases rule: install_token_cases) (auto intro: failed fresh [of "?lease e"])
    qed
  qed
qed

lemma lease_renew_cases:
  assumes "lease_renew lease ttl now_ms now later t = (r, t')"
  obtains (failed) e where "r = Inl e" "t' = t"
  | (renewed) a lease' deadline where "r = Inr lease'" "map_of (lt_active t) (pl_device_key lease) = Some a"
      "al_token a = lease" "pl_lease_id lease' = pl_lease_id lease" "pl_device_key lease' = pl_device_key lease"
      "pl_owner_id lease' = pl_owner_id lease" "deadline \<le> later + 5 * 60000 * NANOS_PER_MILLI"
      "t' = t\<lparr>lt_active := bt_insert (pl_device_key lease) \<lparr>al_token = lease', al_deadline = deadline\<rparr> (lt_active t)\<rparr>"
proof (cases "valid_lease_ttl ttl \<and> validate_lease t lease now_ms = Inr () \<and> is_current t lease now_ms now \<and>
    expires_at now_ms ttl \<noteq> None")
  case True
  then obtain e where e: "expires_at now_ms ttl = Some e" by auto
  obtain a where a: "map_of (lt_active t) (pl_device_key lease) = Some a" "al_token a = lease"
    using True by (auto simp: is_current_def split: option.splits)
  have "install_token (lease\<lparr>pl_expires_at_ms := e\<rparr>) ttl later t = (r, t')" "ttl \<le> 5 * 60000"
    using assms True e by (auto simp: lease_renew_def valid_lease_ttl_def)
  then show ?thesis using a
    by (cases rule: install_token_cases) (auto intro: failed renewed [of "lease\<lparr>pl_expires_at_ms := e\<rparr>" a])
next
  case False
  then have "\<exists>e. r = Inl e \<and> t' = t"
    using assms by (cases "validate_lease t lease now_ms") (auto simp: lease_renew_def split: if_splits option.splits)
  then show ?thesis using failed by blast
qed

lemma lease_release_cases:
  assumes "lease_release lease now_ms now t = (r, t')"
  shows "(\<exists>e. r = Inl e) \<and> t' = t \<or> r = Inr () \<and> t' = t\<lparr>lt_active := hm_remove (pl_device_key lease) (lt_active t)\<rparr>"
proof (cases "validate_lease t lease now_ms")
  case (Inl e)
  then have "r = Inl e" "t' = t" using assms by (simp_all add: lease_release_def)
  then show ?thesis by blast
next
  case (Inr u)
  then show ?thesis using assms by (auto simp: lease_release_def split: if_splits)
qed

lemma lease_revoke_cases:
  assumes "lease_revoke lease t = (r, t')"
  shows "(\<exists>e. r = Inl e) \<and> t' = t \<or> r = Inr () \<and> t' = t\<lparr>lt_active := hm_remove (pl_device_key lease) (lt_active t)\<rparr>"
  using assms by (auto simp: lease_revoke_def split: option.splits if_splits)

lemma lease_step_inv:
  assumes "lease_step s s'" "table_inv s"
  shows "table_inv s' \<and> fst (snd s) \<subseteq>\<^sub>m fst (snd s')"
  using assms
proof (induction rule: lease_step.induct)
  case (step_acquire clock now later lid issued dk owner ttl now_ms t r t')
  have old: "table_inv (t, issued(lid \<mapsto> (dk, owner)), later)"
    using step_acquire.hyps(1,2,4) step_acquire.prems by (force simp: table_inv_def)
  have le: "issued \<subseteq>\<^sub>m issued(lid \<mapsto> (dk, owner))" using step_acquire.hyps(4) by (auto simp: map_le_def)
  from step_acquire.hyps(5) have "table_inv (t', issued(lid \<mapsto> (dk, owner)), later)"
    by (cases rule: lease_acquire_cases) (use old in \<open>auto simp: table_inv_def\<close>)
  with le show ?case by (simp del: fun_upd_apply)
next
  case (step_renew clock now later lease ttl now_ms t r t' issued)
  have old: "table_inv (t, issued, later)"
    using step_renew.hyps(1,2) step_renew.prems by (force simp: table_inv_def)
  from step_renew.hyps(3) show ?case
  proof (cases rule: lease_renew_cases)
    case (renewed a lease' deadline)
    with table_invD [OF old renewed(2)] old show ?thesis by (auto simp: table_inv_def)
  qed (use old in auto)
next
  case (step_release clock now lease now_ms t r' t' issued)
  then show ?case using lease_release_cases [OF step_release.hyps(2)]
    by (force simp: table_inv_def map_of_delete_fun split: if_splits)
next
  case (step_revoke lease t r' t' issued clock)
  then show ?case using lease_revoke_cases [OF step_revoke.hyps]
    by (force simp: table_inv_def map_of_delete_fun split: if_splits)
next
  case (step_invalidate t issued clock)
  then show ?case by (simp add: table_inv_def invalidate_all_def)
qed

lemma lease_steps_inv:
  "lease_step\<^sup>*\<^sup>* s s' \<Longrightarrow> table_inv s \<Longrightarrow> table_inv s' \<and> fst (snd s) \<subseteq>\<^sub>m fst (snd s')"
  by (induction rule: rtranclp_induct) (auto dest: lease_step_inv intro: map_le_trans)

lemma lease_reachable_inv: "lease_reachable s \<Longrightarrow> table_inv s"
  unfolding lease_reachable_def
  by (auto simp: table_inv_def lease_table_new_def Let_def split: if_splits dest!: lease_steps_inv)

subsection \<open>Fencing\<close>

definition fenced :: "peer_lease \<Rightarrow> lease_table \<Rightarrow> bool" where
  "fenced lease t \<longleftrightarrow>
     (\<forall>a. map_of (lt_active t) (pl_device_key lease) = Some a \<longrightarrow>
        (pl_lease_id (al_token a), pl_owner_id (al_token a)) \<noteq> (pl_lease_id lease, pl_owner_id lease))"

lemma fenced_step:
  assumes "lease_step s s'" "table_inv s" "fenced lease (fst s)" "fst (snd s) (pl_lease_id lease) \<noteq> None"
  shows "fenced lease (fst s')"
  using assms
proof (induction rule: lease_step.induct)
  case (step_acquire clock now later lid issued dk owner ttl now_ms t r t')
  from step_acquire.hyps(5) show ?case
    by (cases rule: lease_acquire_cases) (use step_acquire in \<open>auto simp: fenced_def\<close>)
next
  case (step_renew clock now later lease' ttl now_ms t r t' issued)
  from step_renew.hyps(3) show ?case
    by (cases rule: lease_renew_cases) (use step_renew in \<open>auto simp: fenced_def\<close>)
next
  case (step_release clock now lease' now_ms t r' t' issued)
  then show ?case using lease_release_cases [OF step_release.hyps(2)]
    by (auto simp: fenced_def map_of_delete_fun split: if_splits)
next
  case (step_revoke lease' t r' t' issued clock)
  then show ?case using lease_revoke_cases [OF step_revoke.hyps]
    by (auto simp: fenced_def map_of_delete_fun split: if_splits)
next
  case (step_invalidate t issued clock)
  then show ?case by (simp add: fenced_def invalidate_all_def)
qed

lemma fenced_steps:
  "lease_step\<^sup>*\<^sup>* s s' \<Longrightarrow> table_inv s \<Longrightarrow> fenced lease (fst s) \<Longrightarrow> fst (snd s) (pl_lease_id lease) \<noteq> None \<Longrightarrow>
   fenced lease (fst s')"
proof (induction rule: rtranclp_induct)
  case (step y z)
  from lease_steps_inv [OF step.hyps(1) step.prems(1)] have "table_inv y" "fst (snd s) \<subseteq>\<^sub>m fst (snd y)" by auto
  with step show ?case by (intro fenced_step [OF step.hyps(2)]) (auto simp: map_le_def dom_def)
qed

lemma fenced_rejects:
  assumes "fenced lease t"
  shows "\<not> is_current t lease now_ms now"
  using assms by (auto simp: fenced_def is_current_def split: option.splits)

text \<open>
  The ways a lease ends: its release or revocation, the invalidation of all leases, or a grant of
  its device to another owner.
\<close>

definition lease_ended :: "peer_lease \<Rightarrow> lease_ids \<Rightarrow> lease_table \<Rightarrow> lease_table \<Rightarrow> bool" where
  "lease_ended lease issued t t' \<longleftrightarrow>
     (\<exists>now_ms now. lease_release lease now_ms now t = (Inr (), t')) \<or>
     lease_revoke lease t = (Inr (), t') \<or>
     t' = invalidate_all t \<or>
     (\<exists>owner ttl now_ms lid now later granted. owner \<noteq> pl_owner_id lease \<and> issued lid = None \<and>
        lease_acquire (pl_device_key lease) owner ttl now_ms lid now later t = (Inr granted, t'))"

lemma lease_ended_fenced:
  assumes "lease_ended lease issued t t'"
  shows "fenced lease t'"
  using assms unfolding lease_ended_def
proof (elim disjE exE conjE)
  fix now_ms now assume "lease_release lease now_ms now t = (Inr (), t')"
  from lease_release_cases [OF this] show ?thesis by (auto simp: fenced_def map_of_delete_fun)
next
  assume "lease_revoke lease t = (Inr (), t')"
  from lease_revoke_cases [OF this] show ?thesis by (auto simp: fenced_def map_of_delete_fun)
next
  assume "t' = invalidate_all t"
  then show ?thesis by (simp add: fenced_def invalidate_all_def)
next
  fix owner ttl now_ms lid now later granted
  assume "owner \<noteq> pl_owner_id lease" "lease_acquire (pl_device_key lease) owner ttl now_ms lid now later t = (Inr granted, t')"
  from this(2,1) show ?thesis by (cases rule: lease_acquire_cases) (auto simp: fenced_def)
qed


definition example_table :: lease_table where
  "example_table = \<lparr>lt_node_epoch = 9, lt_known_devices = [''phone-1''], lt_active = []\<rparr>"

definition example_lease :: peer_lease where
  "example_lease = \<lparr>pl_lease_id = 5, pl_device_key = ''phone-1'', pl_owner_id = ''a'', pl_node_epoch = 9,
     pl_expires_at_ms = 1010\<rparr>"

definition leased_table :: lease_table where
  "leased_table = snd (lease_acquire ''phone-1'' ''a'' 1000 10 5 0 0 example_table)"

definition regranted_table :: lease_table where
  "regranted_table = snd (lease_acquire ''phone-1'' ''b'' 1000 2000 6 1 1 leased_table)"

lemmas lease_eval =
  example_table_def example_lease_def lease_acquire_def validate_input_def valid_identifier_def
  valid_lease_ttl_def MAX_DEVICE_KEY_BYTES_def is_ascii_alphanumeric_def is_ascii_digit_def is_ascii_lowercase_def
  is_ascii_uppercase_def expires_at_def checked_add_u64_def U64_MAX_def MAX_SAFE_INTEGER_def install_token_def
  instant_checked_add_def INSTANT_LIMIT_def NANOS_PER_MILLI_def lease_is_active_def Let_def

lemma example_table_new: "lease_table_new 9 [''phone-1''] = Inr example_table"
  by (simp add: lease_table_new_def lease_eval)

lemma leased_table_eq:
  "lease_acquire ''phone-1'' ''a'' 1000 10 5 0 0 example_table = (Inr example_lease, leased_table)"
  "leased_table = example_table\<lparr>lt_active := [(''phone-1'', \<lparr>al_token = example_lease, al_deadline = 1000000000\<rparr>)]\<rparr>"
  by (simp_all add: leased_table_def lease_eval)

lemma regranted_table_eq:
  "\<exists>granted. lease_acquire ''phone-1'' ''b'' 1000 2000 6 1 1 leased_table = (Inr granted, regranted_table)"
  unfolding regranted_table_def leased_table_eq(2) by (simp add: lease_eval)


subsection \<open>The ledger remembers the last calls\<close>

fun ledger_after :: "(string \<Rightarrow> string) \<Rightarrow> ledger_state \<Rightarrow> (uuid \<times> string) list \<Rightarrow> ledger_state" where
  "ledger_after digest s [] = s"
| "ledger_after digest s (c # cs) = ledger_after digest (snd (ledger_register digest (fst c) (snd c) s)) cs"

fun ledger_decisions :: "(string \<Rightarrow> string) \<Rightarrow> ledger_state \<Rightarrow> (uuid \<times> string) list \<Rightarrow> call_ledger_decision list" where
  "ledger_decisions digest s [] = []"
| "ledger_decisions digest s (c # cs) =
     fst (ledger_register digest (fst c) (snd c) s) #
     ledger_decisions digest (snd (ledger_register digest (fst c) (snd c) s)) cs"

definition ledger_inv :: "ledger_state \<Rightarrow> bool" where
  "ledger_inv s \<longleftrightarrow>
     distinct (ls_order s) \<and> length (ls_order s) \<le> MAX_LEDGER_CALLS \<and> 0 \<notin> set (ls_order s) \<and>
     dom (map_of (ls_fingerprints s)) = set (ls_order s)"

lemma ledger_register_first:
  assumes "ledger_inv s" "fst (ledger_register digest i r s) = FirstSeen"
  shows "i \<notin> set (ls_order s) \<and> i \<noteq> 0 \<and>
    ls_order (snd (ledger_register digest i r s)) =
      (if length (ls_order s) = MAX_LEDGER_CALLS then tl (ls_order s) else ls_order s) @ [i] \<and>
    map_of (ls_fingerprints (snd (ledger_register digest i r s))) i = Some (digest r)"
proof -
  have "map_of (ls_fingerprints s) i = None" "i \<noteq> 0"
    using assms(2) by (auto simp: ledger_register_def Let_def split: if_splits option.splits)
  moreover from this(1) have "i \<notin> set (ls_order s)" using assms(1) by (auto simp: ledger_inv_def)
  moreover have "MAX_LEDGER_CALLS \<noteq> 0" by (simp add: MAX_LEDGER_CALLS_def)
  ultimately show ?thesis
    by (auto simp: ledger_register_def Let_def split: list.splits)
qed

lemma ledger_register_other:
  "fst (ledger_register digest i r s) \<noteq> FirstSeen \<Longrightarrow> snd (ledger_register digest i r s) = s"
  by (auto simp: ledger_register_def Let_def split: if_splits option.splits)

lemma ledger_register_inv:
  assumes inv: "ledger_inv s"
  shows "ledger_inv (snd (ledger_register digest i r s))"
proof (cases "fst (ledger_register digest i r s) = FirstSeen")
  case False
  then show ?thesis using ledger_register_other [OF False] inv by simp
next
  case True
  note first = ledger_register_first [OF inv True]
  have full: "ls_order s \<noteq> []" if "length (ls_order s) = MAX_LEDGER_CALLS"
    using that by (auto simp: MAX_LEDGER_CALLS_def)
  have "dom (map_of (ls_fingerprints (snd (ledger_register digest i r s)))) =
      set (ls_order (snd (ledger_register digest i r s)))"
    using inv first True full
    by (cases "ls_order s")
      (auto simp: ledger_register_def ledger_inv_def Let_def map_of_delete_fun split: if_splits option.splits)
  with first inv full show ?thesis
    by (cases "ls_order s") (auto simp: ledger_inv_def split: if_splits)
qed

lemma ledger_after_inv: "ledger_inv s \<Longrightarrow> ledger_inv (ledger_after digest s cs)"
  by (induction cs arbitrary: s) (simp_all add: ledger_register_inv)

lemma ledger_remembers:
  assumes "ledger_inv s" "ls_order s = A @ i # B" "map_of (ls_fingerprints s) i = Some f"
    and "length B + length (filter ((=) FirstSeen) (ledger_decisions digest s cs)) < MAX_LEDGER_CALLS"
  shows "map_of (ls_fingerprints (ledger_after digest s cs)) i = Some f"
  using assms
proof (induction cs arbitrary: s A B)
  case (Cons c cs)
  let ?s = "snd (ledger_register digest (fst c) (snd c) s)"
  have inv: "ledger_inv ?s" using Cons.prems(1) by (rule ledger_register_inv)
  show ?case
  proof (cases "fst (ledger_register digest (fst c) (snd c) s) = FirstSeen")
    case False
    then have "?s = s" by (rule ledger_register_other)
    with Cons False show ?thesis by simp
  next
    case True
    note first = ledger_register_first [OF Cons.prems(1) True]
    have room: "length B + 1 < MAX_LEDGER_CALLS" using Cons.prems(4) True by simp
    obtain A' where A': "ls_order ?s = A' @ i # (B @ [fst c])"
      using first Cons.prems(2) room by (cases A) (auto split: if_splits)
    have other: "fst c \<noteq> i" using first Cons.prems(2) by auto
    have "A \<noteq> []" if "length (ls_order s) = MAX_LEDGER_CALLS" using that Cons.prems(2) room by auto
    then have "map_of (ls_fingerprints ?s) i = Some f"
      using True other Cons.prems(1-3)
      by (cases A) (auto simp: ledger_register_def ledger_inv_def Let_def map_of_delete_fun split: if_splits option.splits)
    from Cons.IH [OF inv A' this] Cons.prems(4) True show ?thesis by simp
  qed
qed simp

text \<open>
  C39. The ledger of executed calls. While fewer than 1024 new calls have been registered since a
  call was first seen, registering its id again is never \<open>FirstSeen\<close>: it is \<open>Duplicate\<close> when the
  request has the same digest and \<open>Conflict\<close> otherwise. The ledger never holds more than 1024
  entries.
\<close>

theorem ledger_deduplicates_window:
  assumes "s = ledger_after digest ledger_default earlier"
    and "ledger_register digest call_id request s = (FirstSeen, s1)"
    and "length (filter ((=) FirstSeen) (ledger_decisions digest s1 between)) < MAX_LEDGER_CALLS"
  shows "fst (ledger_register digest call_id request' (ledger_after digest s1 between)) =
      (if digest request = digest request' then Duplicate else Conflict) \<and>
    card (dom (map_of (ls_fingerprints (ledger_after digest s1 between)))) \<le> MAX_LEDGER_CALLS"
proof -
  have inv: "ledger_inv s" unfolding assms(1)
    by (rule ledger_after_inv) (simp add: ledger_inv_def ledger_default_def)
  have inv1: "ledger_inv s1" using ledger_register_inv [OF inv, of digest call_id request] assms(2) by simp
  from ledger_register_first [OF inv, of digest call_id request] assms(2)
  have first: "call_id \<noteq> 0" "map_of (ls_fingerprints s1) call_id = Some (digest request)"
    "\<exists>A. ls_order s1 = A @ call_id # []" by auto
  then obtain A where A: "ls_order s1 = A @ call_id # []" by blast
  have "map_of (ls_fingerprints (ledger_after digest s1 between)) call_id = Some (digest request)"
    using ledger_remembers [OF inv1 A first(2)] assms(3) by simp
  moreover have "ledger_inv (ledger_after digest s1 between)" using inv1 by (rule ledger_after_inv)
  then have "card (dom (map_of (ls_fingerprints (ledger_after digest s1 between)))) \<le> MAX_LEDGER_CALLS"
    using card_length [of "ls_order (ledger_after digest s1 between)"] by (simp add: ledger_inv_def)
  ultimately show ?thesis using first(1) by (simp add: ledger_register_def Let_def)
qed

theorem ledger_deduplicates_window_witness:
  "fst (ledger_register rev 7 ''bc'' (ledger_after rev (snd (ledger_register rev 7 ''ab'' ledger_default)) [(8, ''x'')])) = Conflict"
proof -
  have "ledger_register rev 7 ''ab'' ledger_default =
      (FirstSeen, snd (ledger_register rev 7 ''ab'' ledger_default))"
    by (simp add: ledger_register_def ledger_default_def MAX_LEDGER_CALLS_def)
  moreover have "length (filter ((=) FirstSeen) (ledger_decisions rev (snd (ledger_register rev 7 ''ab'' ledger_default)) [(8, ''x'')]))
      < MAX_LEDGER_CALLS"
    by (simp add: MAX_LEDGER_CALLS_def)
  ultimately show ?thesis
    using ledger_deduplicates_window [of ledger_default rev "[]" 7 "''ab''" _ "[(8, ''x'')]" "''bc''"] by simp
qed

end
