(* ===== verification/Manual_Recording.thy ===== *)
theory Manual_Recording
  imports Evidence "HOL-Library.Char_ord" "HOL-Library.List_Lexorder"
begin

text \<open>
  Manual Action recordings: the document of \<open>crates/protocol/src/manual.rs\<close> and its validation and
  compilation to Action calls in \<open>crates/manual-recording/src/lib.rs\<close>.

  serde, SHA-256 and the JSON Schema library are the fields of \<open>replay_env\<close>; the resolver of secrets
  is a closure with a state of its own, an argument of \<open>compile_replay\<close>.
\<close>

subsection \<open>The document\<close>

definition MANUAL_RECORDING_VERSION :: nat where
  "MANUAL_RECORDING_VERSION = 1"

datatype manual_action_arguments = Captured json | ProtectedArguments string

record manual_action_step =
  mst_sequence :: event_sequence
  mst_captured_at_ms :: nat
  mst_call_id :: uuid
  mst_name :: string
  mst_arguments :: manual_action_arguments

record manual_recording =
  mr_format_version :: nat
  mr_recording_id :: uuid
  mr_source_device_id :: device_id
  mr_action_space_sha256 :: string
  mr_started_at_ms :: nat
  mr_ended_at_ms :: nat
  mr_steps :: "manual_action_step list"

subsection \<open>Validation\<close>

definition MAX_ACTIONS :: nat where
  "MAX_ACTIONS = 256"

definition MAX_ACTION_SPACE_BYTES :: nat where
  "MAX_ACTION_SPACE_BYTES = 1024 * 1024"

definition MAX_RECORDING_BYTES :: nat where
  "MAX_RECORDING_BYTES = 16 * 1024 * 1024"

definition MAX_ARGUMENT_BYTES :: nat where
  "MAX_ARGUMENT_BYTES = 64 * 1024"

datatype manual_recording_error =
    RecordingUnsupportedVersion
  | InvalidRecording string
  | InvalidActionSpace string
  | ActionSpaceChanged
  | UnknownAction
  | ProtectionMismatch
  | SecretUnavailable
  | InvalidArguments

record replay_env =
  re_space_bytes :: "action_definition list \<Rightarrow> string option"
  re_recording_bytes :: "manual_recording \<Rightarrow> string option"
  re_value_bytes :: "json \<Rightarrow> string option"
  re_sha256_hex :: "string \<Rightarrow> string"
  re_meta_valid :: "json \<Rightarrow> bool"
  re_validator :: "json \<Rightarrow> (json \<Rightarrow> bool) option"

definition json_is_object :: "json \<Rightarrow> bool" where
  "json_is_object v = (case v of JObject _ \<Rightarrow> True | _ \<Rightarrow> False)"

definition validate_action :: "replay_env \<Rightarrow> string list \<Rightarrow> action_definition \<Rightarrow> manual_recording_error + string list" where
  "validate_action env names action =
     (if ad_name action = [] \<or> length (ad_name action) > 128 \<or> ad_name action \<in> set names
         \<or> \<not> json_is_object (ad_input_schema action) \<or> \<not> re_meta_valid env (ad_input_schema action)
      then Inl (InvalidActionSpace ''action_definition'')
      else Inr (bs_insert (ad_name action) names))"

definition validate_action_space :: "replay_env \<Rightarrow> action_definition list \<Rightarrow> manual_recording_error + unit" where
  "validate_action_space env space =
     (if space = [] \<or> length space > MAX_ACTIONS then Inl (InvalidActionSpace ''action_count'')
      else res_bind (res_fold (validate_action env) [] space) (\<lambda>_. Inr ()))"

definition action_space_digest :: "replay_env \<Rightarrow> action_definition list \<Rightarrow> manual_recording_error + string" where
  "action_space_digest env space =
     res_bind (validate_action_space env space) (\<lambda>_.
     res_bind (ok_or (re_space_bytes env space) (InvalidActionSpace ''serialization_failed'')) (\<lambda>bytes.
       if length bytes > MAX_ACTION_SPACE_BYTES then Inl (InvalidActionSpace ''size_limit'')
       else Inr (re_sha256_hex env bytes)))"

definition valid_secret_ref :: "manual_action_arguments \<Rightarrow> bool" where
  "valid_secret_ref arguments =
     (case arguments of
        Captured _ \<Rightarrow> True
      | ProtectedArguments secret_ref \<Rightarrow>
          secret_ref \<noteq> [] \<and> length secret_ref \<le> 128 \<and>
          list_all (\<lambda>byte. is_ascii_alphanumeric byte \<or> byte \<in> set ''-_.'') secret_ref)"

record step_scan =
  sc_index :: nat
  sc_call_ids :: "uuid list"
  sc_previous_at :: nat

definition validate_step :: "manual_recording \<Rightarrow> step_scan \<Rightarrow> manual_action_step \<Rightarrow> manual_recording_error + step_scan" where
  "validate_step recording s step =
     (if mst_sequence step \<noteq> sc_index s + 1
         \<or> mst_captured_at_ms step < sc_previous_at s
         \<or> mst_captured_at_ms step > mr_ended_at_ms recording
         \<or> mst_name step = [] \<or> length (mst_name step) > 128
         \<or> mst_call_id step \<in> set (sc_call_ids s)
         \<or> \<not> valid_secret_ref (mst_arguments step)
      then Inl (InvalidRecording ''step'')
      else Inr \<lparr>sc_index = sc_index s + 1, sc_call_ids = bs_insert (mst_call_id step) (sc_call_ids s),
                sc_previous_at = mst_captured_at_ms step\<rparr>)"

definition validate_recording :: "replay_env \<Rightarrow> manual_recording \<Rightarrow> manual_recording_error + unit" where
  "validate_recording env recording =
     (if mr_format_version recording \<noteq> MANUAL_RECORDING_VERSION then Inl RecordingUnsupportedVersion
      else if trim_is_empty (mr_source_device_id recording)
         \<or> mr_started_at_ms recording > mr_ended_at_ms recording
         \<or> length (mr_action_space_sha256 recording) \<noteq> 64
         \<or> \<not> list_all is_lower_hex (mr_action_space_sha256 recording)
         \<or> length (mr_steps recording) > 10000
         \<or> (case re_recording_bytes env recording of None \<Rightarrow> True | Some bytes \<Rightarrow> length bytes > MAX_RECORDING_BYTES)
      then Inl (InvalidRecording ''document'')
      else res_bind (res_fold (validate_step recording)
              \<lparr>sc_index = 0, sc_call_ids = [], sc_previous_at = mr_started_at_ms recording\<rparr> (mr_steps recording))
            (\<lambda>_. Inr ()))"

subsection \<open>Compilation\<close>

type_synonym 's resolver = "string \<Rightarrow> 's \<Rightarrow> json option \<times> 's"

definition step_arguments ::
  "'s resolver \<Rightarrow> action_definition \<Rightarrow> manual_action_step \<Rightarrow> 's \<Rightarrow> (manual_recording_error + json) \<times> 's" where
  "step_arguments resolve_secret action step s =
     (case (ad_protection action, mst_arguments step) of
        (Standard, Captured v) \<Rightarrow> (Inr v, s)
      | (Protected, ProtectedArguments secret_ref) \<Rightarrow>
          (case resolve_secret secret_ref s of (v, s') \<Rightarrow> (ok_or v SecretUnavailable, s'))
      | _ \<Rightarrow> (Inl ProtectionMismatch, s))"

definition compile_step ::
  "replay_env \<Rightarrow> 's resolver \<Rightarrow> (string \<times> action_definition) list \<Rightarrow> manual_action_step \<Rightarrow> 's \<Rightarrow>
   (manual_recording_error + action_call) \<times> 's" where
  "compile_step env resolve_secret actions step s =
     (case map_of actions (mst_name step) of
        None \<Rightarrow> (Inl UnknownAction, s)
      | Some action \<Rightarrow>
          (case step_arguments resolve_secret action step s of
             (Inl e, s') \<Rightarrow> (Inl e, s')
           | (Inr arguments, s') \<Rightarrow>
               if \<not> json_is_object arguments
                  \<or> (case re_value_bytes env arguments of None \<Rightarrow> True | Some bytes \<Rightarrow> length bytes > MAX_ARGUMENT_BYTES)
               then (Inl InvalidArguments, s')
               else case re_validator env (ad_input_schema action) of
                 None \<Rightarrow> (Inl (InvalidActionSpace ''invalid_schema''), s')
               | Some is_valid \<Rightarrow>
                   if \<not> is_valid arguments then (Inl InvalidArguments, s')
                   else (Inr \<lparr>ac_id = mst_call_id step, ac_name = mst_name step, ac_arguments = arguments\<rparr>, s')))"

fun compile_steps ::
  "replay_env \<Rightarrow> 's resolver \<Rightarrow> (string \<times> action_definition) list \<Rightarrow> manual_action_step list \<Rightarrow> 's \<Rightarrow>
   (manual_recording_error + action_call list) \<times> 's" where
  "compile_steps env resolve_secret actions [] s = (Inr [], s)"
| "compile_steps env resolve_secret actions (step # steps) s =
     (case compile_step env resolve_secret actions step s of
        (Inl e, s') \<Rightarrow> (Inl e, s')
      | (Inr call, s') \<Rightarrow>
          (case compile_steps env resolve_secret actions steps s' of
             (Inl e, s'') \<Rightarrow> (Inl e, s'')
           | (Inr calls, s'') \<Rightarrow> (Inr (call # calls), s'')))"

definition actions_by_name :: "action_definition list \<Rightarrow> (string \<times> action_definition) list" where
  "actions_by_name space = fold (\<lambda>action. bt_insert (ad_name action) action) space []"

definition compile_replay ::
  "replay_env \<Rightarrow> manual_recording \<Rightarrow> action_definition list \<Rightarrow> 's resolver \<Rightarrow> 's \<Rightarrow>
   (manual_recording_error + action_call list) \<times> 's" where
  "compile_replay env recording space resolve_secret s =
     (case validate_recording env recording of
        Inl e \<Rightarrow> (Inl e, s)
      | Inr _ \<Rightarrow>
          (case action_space_digest env space of
             Inl e \<Rightarrow> (Inl e, s)
           | Inr digest \<Rightarrow>
               if digest \<noteq> mr_action_space_sha256 recording then (Inl ActionSpaceChanged, s)
               else compile_steps env resolve_secret (actions_by_name space) (mr_steps recording) s))"

subsection \<open>Validated documents\<close>

definition recording_ordered :: "manual_recording \<Rightarrow> bool" where
  "recording_ordered recording \<longleftrightarrow>
     map mst_sequence (mr_steps recording) = [1..<Suc (length (mr_steps recording))] \<and>
     sorted (mr_started_at_ms recording # map mst_captured_at_ms (mr_steps recording)) \<and>
     (\<forall>step \<in> set (mr_steps recording). mst_captured_at_ms step \<le> mr_ended_at_ms recording) \<and>
     distinct (map mst_call_id (mr_steps recording))"

lemma validate_steps_ordered:
  assumes "res_fold (validate_step recording) s steps = Inr s'"
  shows "map mst_sequence steps = [Suc (sc_index s)..<Suc (sc_index s + length steps)] \<and>
    sorted (sc_previous_at s # map mst_captured_at_ms steps) \<and>
    (\<forall>step \<in> set steps. mst_captured_at_ms step \<le> mr_ended_at_ms recording) \<and>
    distinct (map mst_call_id steps) \<and> set (sc_call_ids s) \<inter> mst_call_id ` set steps = {}"
  using assms
proof (induction steps arbitrary: s)
  case (Cons step steps)
  then obtain s1 where step: "validate_step recording s step = Inr s1" and rest: "res_fold (validate_step recording) s1 steps = Inr s'"
    by (auto simp: res_bind_eq_Inr)
  have s1: "mst_sequence step = Suc (sc_index s)" "sc_previous_at s \<le> mst_captured_at_ms step"
    "mst_captured_at_ms step \<le> mr_ended_at_ms recording" "mst_call_id step \<notin> set (sc_call_ids s)"
    "sc_index s1 = Suc (sc_index s)" "set (sc_call_ids s1) = insert (mst_call_id step) (set (sc_call_ids s))"
    "sc_previous_at s1 = mst_captured_at_ms step"
    using step by (auto simp: validate_step_def set_bs_insert split: if_splits)
  have "map mst_sequence (step # steps) = [Suc (sc_index s)..<Suc (sc_index s + length (step # steps))]"
    using Cons.IH [OF rest] s1 by (simp add: upt_rec)
  with Cons.IH [OF rest] s1 show ?case by force
qed simp

lemma validate_recording_ordered:
  "validate_recording env recording = Inr () \<Longrightarrow> recording_ordered recording"
  using validate_steps_ordered [of recording "\<lparr>sc_index = 0, sc_call_ids = [], sc_previous_at = mr_started_at_ms recording\<rparr>"]
  by (force simp: validate_recording_def recording_ordered_def res_bind_eq_Inr split: if_splits)

lemma validate_actions_distinct:
  "res_fold (validate_action env) names space = Inr names' \<Longrightarrow>
   distinct (map ad_name space) \<and> set names \<inter> ad_name ` set space = {}"
  by (induction space arbitrary: names)
    (force simp: res_bind_eq_Inr validate_action_def set_bs_insert split: if_splits)+

lemma action_space_digest_distinct: "action_space_digest env space = Inr d \<Longrightarrow> distinct (map ad_name space)"
  using validate_actions_distinct [of env "[]" space]
  by (auto simp: action_space_digest_def validate_action_space_def res_bind_eq_Inr split: if_splits)

lemma map_of_actions_by_name:
  assumes "distinct (map ad_name space)"
  shows "map_of (actions_by_name space) n = Some a \<longleftrightarrow> a \<in> set space \<and> ad_name a = n"
proof -
  have "map_of (fold (\<lambda>action. bt_insert (ad_name action) action) space m) n = Some a \<longleftrightarrow>
      a \<in> set space \<and> ad_name a = n \<or> map_of m n = Some a \<and> n \<notin> ad_name ` set space" for m
    using assms by (induction space arbitrary: m) (auto split: if_splits)
  from this [of "[]"] show ?thesis by (simp add: actions_by_name_def)
qed

subsection \<open>What a replay is\<close>

text \<open>
  The arguments the steps stand for: a captured value is the one of the document, a protected one
  is the resolver's answer, asked in the order of the steps.
\<close>

fun replay_values :: "'s resolver \<Rightarrow> manual_action_step list \<Rightarrow> 's \<Rightarrow> json option list \<times> 's" where
  "replay_values resolve_secret [] s = ([], s)"
| "replay_values resolve_secret (step # steps) s =
     (case mst_arguments step of
        Captured v \<Rightarrow> (case replay_values resolve_secret steps s of (vs, s') \<Rightarrow> (Some v # vs, s'))
      | ProtectedArguments secret_ref \<Rightarrow>
          (case resolve_secret secret_ref s of (v, s1) \<Rightarrow>
             (case replay_values resolve_secret steps s1 of (vs, s') \<Rightarrow> (v # vs, s'))))"

definition replays :: "replay_env \<Rightarrow> action_definition list \<Rightarrow> manual_action_step \<Rightarrow> action_call \<Rightarrow> bool" where
  "replays env space step call \<longleftrightarrow>
     ac_id call = mst_call_id step \<and> ac_name call = mst_name step \<and>
     (\<exists>action \<in> set space. ad_name action = mst_name step \<and>
        (case mst_arguments step of Captured _ \<Rightarrow> ad_protection action = Standard
         | ProtectedArguments _ \<Rightarrow> ad_protection action = Protected) \<and>
        json_is_object (ac_arguments call) \<and>
        (\<exists>bytes. re_value_bytes env (ac_arguments call) = Some bytes \<and> length bytes \<le> MAX_ARGUMENT_BYTES) \<and>
        (\<exists>is_valid. re_validator env (ad_input_schema action) = Some is_valid \<and> is_valid (ac_arguments call)))"

lemma compile_step_iff:
  assumes "distinct (map ad_name space)"
  shows "compile_step env resolve_secret (actions_by_name space) step s = (Inr call, s') \<longleftrightarrow>
    replay_values resolve_secret [step] s = ([Some (ac_arguments call)], s') \<and> replays env space step call"
proof (cases "map_of (actions_by_name space) (mst_name step)")
  case None
  then have "\<not> (\<exists>a \<in> set space. ad_name a = mst_name step)"
    using map_of_actions_by_name [OF assms] by (metis option.distinct(1))
  then show ?thesis using None by (auto simp: compile_step_def replays_def)
next
  case (Some action)
  have unique: "a \<in> set space \<and> ad_name a = mst_name step \<longleftrightarrow> a = action" for a
    using map_of_actions_by_name [OF assms, of "mst_name step" a] Some by (metis option.inject)
  have ex: "(\<exists>a \<in> set space. ad_name a = mst_name step \<and> P a) \<longleftrightarrow> P action" for P
    using unique [of action] unique by (metis (no_types, lifting))
  have act: "replays env space step call \<longleftrightarrow>
     ac_id call = mst_call_id step \<and> ac_name call = mst_name step \<and>
     (case mst_arguments step of Captured _ \<Rightarrow> ad_protection action = Standard
         | ProtectedArguments _ \<Rightarrow> ad_protection action = Protected) \<and>
        json_is_object (ac_arguments call) \<and>
        (\<exists>bytes. re_value_bytes env (ac_arguments call) = Some bytes \<and> length bytes \<le> MAX_ARGUMENT_BYTES) \<and>
        (\<exists>is_valid. re_validator env (ad_input_schema action) = Some is_valid \<and> is_valid (ac_arguments call))"
    by (simp only: replays_def ex)
  show ?thesis unfolding act using Some
    by (cases call)
      (auto simp: compile_step_def step_arguments_def ok_or_def not_less
        split: manual_action_arguments.splits action_protection.splits prod.splits option.splits if_splits)
qed

lemma compile_steps_iff:
  assumes "distinct (map ad_name space)"
  shows "compile_steps env resolve_secret (actions_by_name space) steps s = (Inr calls, s') \<longleftrightarrow>
    replay_values resolve_secret steps s = (map (Some \<circ> ac_arguments) calls, s') \<and>
    list_all2 (replays env space) steps calls"
proof (induction steps arbitrary: s calls)
  case Nil
  then show ?case by auto
next
  case (Cons step steps)
  have split: "replay_values resolve_secret (step # steps) s = (vs, s') \<longleftrightarrow>
      (\<exists>v s1 vs'. replay_values resolve_secret [step] s = ([v], s1) \<and>
        replay_values resolve_secret steps s1 = (vs', s') \<and> vs = v # vs')" for vs
    by (cases "mst_arguments step") (auto split: prod.splits)
  have "compile_steps env resolve_secret (actions_by_name space) (step # steps) s = (Inr calls, s') \<longleftrightarrow>
      (\<exists>call s1 calls'. compile_step env resolve_secret (actions_by_name space) step s = (Inr call, s1) \<and>
        compile_steps env resolve_secret (actions_by_name space) steps s1 = (Inr calls', s') \<and> calls = call # calls')"
    by (auto split: prod.splits sum.splits)
  also have "\<dots> \<longleftrightarrow> (\<exists>call s1 calls'. replay_values resolve_secret [step] s = ([Some (ac_arguments call)], s1) \<and>
      replays env space step call \<and> replay_values resolve_secret steps s1 = (map (Some \<circ> ac_arguments) calls', s') \<and>
      list_all2 (replays env space) steps calls' \<and> calls = call # calls')"
    unfolding compile_step_iff [OF assms] Cons.IH by blast
  also have "\<dots> \<longleftrightarrow> replay_values resolve_secret (step # steps) s = (map (Some \<circ> ac_arguments) calls, s') \<and>
      list_all2 (replays env space) (step # steps) calls"
    unfolding split list_all2_Cons1 by fastforce
  finally show ?case .
qed

text \<open>
  C40. \<open>compile_replay\<close> returns calls exactly when the document and the action space are valid, the
  digest of the action space is the recorded one and every step compiles: its call has the recorded
  id and name, the named Action exists, a protected Action gets the resolver's answer for the step's
  reference and a standard one the captured value, and the arguments are an object within the size
  limit that the Action's schema accepts. The resolver is asked once for each protected step, in
  order, and for nothing else. The steps of such a document are numbered from 1, in order of time
  within the recording and with distinct call ids.
\<close>

theorem compile_replay_exact:
  "(compile_replay env recording space resolve_secret s = (Inr calls, s') \<longleftrightarrow>
      validate_recording env recording = Inr () \<and>
      action_space_digest env space = Inr (mr_action_space_sha256 recording) \<and>
      replay_values resolve_secret (mr_steps recording) s = (map (Some \<circ> ac_arguments) calls, s') \<and>
      list_all2 (replays env space) (mr_steps recording) calls) \<and>
   (validate_recording env recording = Inr () \<longrightarrow> recording_ordered recording)"
proof
  show "compile_replay env recording space resolve_secret s = (Inr calls, s') \<longleftrightarrow>
      validate_recording env recording = Inr () \<and>
      action_space_digest env space = Inr (mr_action_space_sha256 recording) \<and>
      replay_values resolve_secret (mr_steps recording) s = (map (Some \<circ> ac_arguments) calls, s') \<and>
      list_all2 (replays env space) (mr_steps recording) calls"
  proof (cases "validate_recording env recording = Inr () \<and>
      action_space_digest env space = Inr (mr_action_space_sha256 recording)")
    case True
    then have "compile_replay env recording space resolve_secret s =
        compile_steps env resolve_secret (actions_by_name space) (mr_steps recording) s"
      by (simp add: compile_replay_def)
    with True compile_steps_iff [OF action_space_digest_distinct [OF conjunct2 [OF True]]] show ?thesis by simp
  next
    case False
    then show ?thesis by (auto simp: compile_replay_def split: sum.splits)
  qed
qed (blast intro: validate_recording_ordered)

definition example_env :: replay_env where
  "example_env = \<lparr>re_space_bytes = (\<lambda>space. Some (concat (map ad_name space))), re_recording_bytes = (\<lambda>_. Some ''r''),
     re_value_bytes = (\<lambda>_. Some ''v''), re_sha256_hex = (\<lambda>_. replicate 64 CHR ''a''), re_meta_valid = (\<lambda>_. True),
     re_validator = (\<lambda>_. Some (\<lambda>_. True))\<rparr>"

definition example_space :: "action_definition list" where
  "example_space =
     [\<lparr>ad_name = ''tap'', ad_description = [], ad_input_schema = JObject [], ad_protection = Standard\<rparr>,
      \<lparr>ad_name = ''fill'', ad_description = [], ad_input_schema = JObject [], ad_protection = Protected\<rparr>]"

definition example_recording :: manual_recording where
  "example_recording =
     \<lparr>mr_format_version = 1, mr_recording_id = 3, mr_source_device_id = ''web'',
      mr_action_space_sha256 = replicate 64 CHR ''a'', mr_started_at_ms = 10, mr_ended_at_ms = 20,
      mr_steps = [\<lparr>mst_sequence = 1, mst_captured_at_ms = 11, mst_call_id = 7, mst_name = ''tap'', mst_arguments = Captured (JObject [])\<rparr>,
        \<lparr>mst_sequence = 2, mst_captured_at_ms = 11, mst_call_id = 8, mst_name = ''fill'', mst_arguments = ProtectedArguments ''pw''\<rparr>]\<rparr>"

definition example_resolver :: "string list resolver" where
  "example_resolver secret_ref asked = (Some (JObject [(secret_ref, JNull)]), asked @ [secret_ref])"

theorem compile_replay_exact_witness:
  "recording_ordered example_recording \<and>
   compile_replay example_env example_recording example_space example_resolver [] =
     (Inr [\<lparr>ac_id = 7, ac_name = ''tap'', ac_arguments = JObject []\<rparr>,
           \<lparr>ac_id = 8, ac_name = ''fill'', ac_arguments = JObject [(''pw'', JNull)]\<rparr>], [''pw''])"
proof -
  have valid: "validate_recording example_env example_recording = Inr ()"
    by (simp add: validate_recording_def example_recording_def example_env_def MANUAL_RECORDING_VERSION_def trim_is_empty_def
        ws1_def ws2_def ws3_def list_all_iff is_lower_hex_def MAX_RECORDING_BYTES_def validate_step_def valid_secret_ref_def
        is_ascii_alphanumeric_def is_ascii_digit_def is_ascii_lowercase_def is_ascii_uppercase_def)
  have digest: "action_space_digest example_env example_space = Inr (mr_action_space_sha256 example_recording)"
    by (simp add: action_space_digest_def validate_action_space_def validate_action_def example_env_def example_space_def
        example_recording_def MAX_ACTIONS_def MAX_ACTION_SPACE_BYTES_def json_is_object_def)
  show ?thesis
    using compile_replay_exact [of example_env example_recording example_space example_resolver "[]"
        "[\<lparr>ac_id = 7, ac_name = ''tap'', ac_arguments = JObject []\<rparr>,
          \<lparr>ac_id = 8, ac_name = ''fill'', ac_arguments = JObject [(''pw'', JNull)]\<rparr>]" "[''pw'']"] valid digest
    by (simp add: replays_def example_space_def example_recording_def example_resolver_def example_env_def
        json_is_object_def MAX_ARGUMENT_BYTES_def)
qed

end
