(* ===== verification/Evidence_Io.thy ===== *)
theory Evidence_Io
  imports Evidence
begin

text \<open>
  Operations that change a store and may fail, as functions from a state to a result and a new
  state: the effect of the methods of \<open>crates/evidence-fs/src/lib.rs\<close>, whose \<open>?\<close> returns early
  and keeps what was done so far. \<open>hoare\<close> states what holds after success and after an error.
\<close>

named_theorems hoare_rules \<open>rules for triples, applied from the last statement backwards\<close>

subsection \<open>Operations\<close>

type_synonym ('s, 'a) store_op = "'s \<Rightarrow> (evidence_error + 'a) \<times> 's"

definition op_return :: "'a \<Rightarrow> ('s, 'a) store_op" where
  "op_return x st = (Inr x, st)"

definition op_fail :: "evidence_error \<Rightarrow> ('s, 'a) store_op" where
  "op_fail e st = (Inl e, st)"

definition op_bind :: "('s, 'a) store_op \<Rightarrow> ('a \<Rightarrow> ('s, 'b) store_op) \<Rightarrow> ('s, 'b) store_op" where
  "op_bind m f st = (case m st of (Inl e, st') \<Rightarrow> (Inl e, st') | (Inr x, st') \<Rightarrow> f x st')"

definition op_gets :: "('s \<Rightarrow> 'a) \<Rightarrow> ('s, 'a) store_op" where
  "op_gets f st = (Inr (f st), st)"

definition op_modify :: "('s \<Rightarrow> 's) \<Rightarrow> ('s, unit) store_op" where
  "op_modify f st = (Inr (), f st)"

definition op_lift :: "evidence_error + 'a \<Rightarrow> ('s, 'a) store_op" where
  "op_lift r st = (r, st)"

text \<open>\<open>let _ = cleanup\<close> on the way out of an error.\<close>

definition op_on_error :: "('s, 'a) store_op \<Rightarrow> ('s, unit) store_op \<Rightarrow> ('s, 'a) store_op" where
  "op_on_error m cleanup st =
     (case m st of (Inl e, st') \<Rightarrow> (Inl e, snd (cleanup st')) | (Inr x, st') \<Rightarrow> (Inr x, st'))"

fun op_fold :: "('b \<Rightarrow> 'a \<Rightarrow> ('s, 'b) store_op) \<Rightarrow> 'b \<Rightarrow> 'a list \<Rightarrow> ('s, 'b) store_op" where
  "op_fold f acc [] = op_return acc"
| "op_fold f acc (x # xs) = op_bind (f acc x) (\<lambda>acc. op_fold f acc xs)"

definition op_each :: "('a \<Rightarrow> ('s, unit) store_op) \<Rightarrow> 'a list \<Rightarrow> ('s, unit) store_op" where
  "op_each f xs = op_fold (\<lambda>_. f) () xs"

lemmas op_defs = op_return_def op_fail_def op_bind_def op_gets_def op_modify_def op_lift_def op_on_error_def op_each_def

subsection \<open>Triples\<close>

definition hoare :: "('s \<Rightarrow> bool) \<Rightarrow> ('s, 'a) store_op \<Rightarrow> ('a \<Rightarrow> 's \<Rightarrow> bool) \<Rightarrow> ('s \<Rightarrow> bool) \<Rightarrow> bool" where
  "hoare P m Q E \<longleftrightarrow>
     (\<forall>st st' x. P st \<longrightarrow> m st = (Inr x, st') \<longrightarrow> Q x st') \<and>
     (\<forall>st st' e. P st \<longrightarrow> m st = (Inl e, st') \<longrightarrow> E st')"

lemma hoareI:
  assumes "\<And>st x st'. P st \<Longrightarrow> m st = (Inr x, st') \<Longrightarrow> Q x st'" "\<And>st e st'. P st \<Longrightarrow> m st = (Inl e, st') \<Longrightarrow> E st'"
  shows "hoare P m Q E"
  using assms unfolding hoare_def by blast

lemma hoareD:
  assumes "hoare P m Q E" "P st"
  shows "m st = (Inr x, st') \<Longrightarrow> Q x st'" "m st = (Inl e, st') \<Longrightarrow> E st'"
  using assms unfolding hoare_def by blast+

lemma hoare_weaken:
  assumes "hoare P m Q E" "\<And>st. P' st \<Longrightarrow> P st" "\<And>x st. Q x st \<Longrightarrow> Q' x st" "\<And>st. E st \<Longrightarrow> E' st"
  shows "hoare P' m Q' E'"
  using assms unfolding hoare_def by blast

lemma hoare_pre: "hoare P m Q E \<Longrightarrow> (\<And>st. P' st \<Longrightarrow> P st) \<Longrightarrow> hoare P' m Q E"
  unfolding hoare_def by blast

lemma hoare_return [hoare_rules]: "hoare (Q x) (op_return x) Q E"
  by (simp add: hoare_def op_return_def)

lemma hoare_fail [hoare_rules]: "hoare E (op_fail e) Q E"
  by (simp add: hoare_def op_fail_def)

lemma hoare_gets [hoare_rules]: "hoare (\<lambda>st. Q (f st) st) (op_gets f) Q E"
  by (simp add: hoare_def op_gets_def)

lemma hoare_modify [hoare_rules]: "hoare (\<lambda>st. Q () (f st)) (op_modify f) Q E"
  by (simp add: hoare_def op_modify_def)

lemma hoare_lift [hoare_rules]:
  "hoare (\<lambda>st. (\<forall>x. r = Inr x \<longrightarrow> Q x st) \<and> (\<forall>e. r = Inl e \<longrightarrow> E st)) (op_lift r) Q E"
  by (auto simp: hoare_def op_lift_def)

lemma op_bind_Inr: "op_bind m f st = (Inr y, st') \<longleftrightarrow> (\<exists>x st1. m st = (Inr x, st1) \<and> f x st1 = (Inr y, st'))"
  by (auto simp: op_bind_def split: prod.splits sum.splits)

lemma op_bind_Inl:
  "op_bind m f st = (Inl e, st') \<longleftrightarrow> m st = (Inl e, st') \<or> (\<exists>x st1. m st = (Inr x, st1) \<and> f x st1 = (Inl e, st'))"
  by (auto simp: op_bind_def split: prod.splits sum.splits)

lemma hoare_bind [hoare_rules]:
  assumes "\<And>x. hoare (Q x) (f x) R E" "hoare P m Q E"
  shows "hoare P (op_bind m f) R E"
proof (rule hoareI)
  fix st y st'
  assume "P st" "op_bind m f st = (Inr y, st')"
  then show "R y st'" using hoareD [OF assms(2)] hoareD [OF assms(1)] unfolding op_bind_Inr by blast
next
  fix st e st'
  assume "P st" "op_bind m f st = (Inl e, st')"
  then show "E st'" using hoareD [OF assms(2)] hoareD [OF assms(1)] unfolding op_bind_Inl by blast
qed

lemma hoare_if [hoare_rules]:
  assumes "b \<Longrightarrow> hoare P m Q E" "\<not> b \<Longrightarrow> hoare P' m' Q E"
  shows "hoare (\<lambda>st. if b then P st else P' st) (if b then m else m') Q E"
  using assms by (simp add: hoare_def)

lemma hoare_option [hoare_rules]:
  assumes "x = None \<Longrightarrow> hoare P m Q E" "\<And>y. x = Some y \<Longrightarrow> hoare (P' y) (f y) Q E"
  shows "hoare (\<lambda>st. case x of None \<Rightarrow> P st | Some y \<Rightarrow> P' y st) (case x of None \<Rightarrow> m | Some y \<Rightarrow> f y) Q E"
  using assms by (cases x) (simp_all add: hoare_def)

lemma hoare_on_error:
  assumes "hoare P m Q F" "hoare F cleanup (\<lambda>_. E) E"
  shows "hoare P (op_on_error m cleanup) Q E"
proof (rule hoareI)
  fix st y st'
  assume "P st" "op_on_error m cleanup st = (Inr y, st')"
  then have "m st = (Inr y, st')" by (auto simp: op_on_error_def split: prod.splits sum.splits)
  with \<open>P st\<close> show "Q y st'" using hoareD [OF assms(1)] by blast
next
  fix st e st'
  assume "P st" "op_on_error m cleanup st = (Inl e, st')"
  then obtain st1 where "m st = (Inl e, st1)" "st' = snd (cleanup st1)"
    by (auto simp: op_on_error_def split: prod.splits sum.splits)
  moreover from this \<open>P st\<close> have "F st1" using hoareD [OF assms(1)] by blast
  ultimately show "E st'"
    using hoareD [OF assms(2)] by (cases "cleanup st1"; cases "fst (cleanup st1)") auto
qed

lemma hoare_fold:
  assumes "\<And>acc x. x \<in> set xs \<Longrightarrow> hoare (I acc) (f acc x) I E"
  shows "hoare (I acc) (op_fold f acc xs) I E"
  using assms
proof (induction xs arbitrary: acc)
  case Nil
  show ?case by (simp add: hoare_return)
next
  case (Cons x xs)
  show ?case unfolding op_fold.simps
    by (rule hoare_bind) (use Cons in \<open>auto simp del: op_fold.simps\<close>)
qed

lemma hoare_each:
  assumes "\<And>x. x \<in> set xs \<Longrightarrow> hoare I (f x) (\<lambda>_. I) E"
  shows "hoare I (op_each f xs) (\<lambda>_. I) E"
  unfolding op_each_def by (rule hoare_fold [of xs "\<lambda>_. I"]) (rule assms)

text \<open>\<open>keeps I m\<close>: the operation keeps \<open>I\<close>, whether it succeeds or not.\<close>

abbreviation keeps :: "('s \<Rightarrow> bool) \<Rightarrow> ('s, 'a) store_op \<Rightarrow> bool" where
  "keeps I m \<equiv> hoare I m (\<lambda>_. I) I"

lemma keepsD: "keeps I m \<Longrightarrow> I st \<Longrightarrow> m st = (r, st') \<Longrightarrow> I st'"
  by (cases r) (auto dest: hoareD)

lemma keeps_bind: "keeps I m \<Longrightarrow> (\<And>x. keeps I (f x)) \<Longrightarrow> keeps I (op_bind m f)"
  by (rule hoare_bind)

lemma keeps_if: "(b \<Longrightarrow> keeps I m) \<Longrightarrow> (\<not> b \<Longrightarrow> keeps I m') \<Longrightarrow> keeps I (if b then m else m')"
  by simp

lemma keeps_option: "(x = None \<Longrightarrow> keeps I m) \<Longrightarrow> (\<And>y. x = Some y \<Longrightarrow> keeps I (f y)) \<Longrightarrow>
  keeps I (case x of None \<Rightarrow> m | Some y \<Rightarrow> f y)"
  by (cases x) simp_all

lemma keeps_prod: "(\<And>a b. x = (a, b) \<Longrightarrow> keeps I (f a b)) \<Longrightarrow> keeps I (case x of (a, b) \<Rightarrow> f a b)"
  by (cases x) simp

lemma keeps_simple:
  "keeps I (op_return x)" "keeps I (op_fail e)" "keeps I (op_gets g)" "keeps I (op_lift r)"
  by (simp_all add: hoare_def op_defs)

lemma keeps_fold: "(\<And>acc x. x \<in> set xs \<Longrightarrow> keeps I (f acc x)) \<Longrightarrow> keeps I (op_fold f acc xs)"
  by (rule hoare_fold [of xs "\<lambda>_. I"])

lemma keeps_each: "(\<And>x. x \<in> set xs \<Longrightarrow> keeps I (f x)) \<Longrightarrow> keeps I (op_each f xs)"
  by (rule hoare_each)

lemma keeps_on_error: "keeps I m \<Longrightarrow> keeps I cleanup \<Longrightarrow> keeps I (op_on_error m cleanup)"
  by (rule hoare_on_error)

lemmas keeps_rules = keeps_bind keeps_if keeps_option keeps_prod keeps_simple keeps_fold keeps_each keeps_on_error

end
