(* ===== verification/Evidence_Fs.thy ===== *)
theory Evidence_Fs
  imports Evidence_Io
begin

text \<open>
  The filesystem Evidence Store, \<open>crates/evidence-fs/src/lib.rs\<close>.

  The directories below the store's root are tables keyed by the names of their entries: objects
  (\<open>data\<close> and \<open>meta.json\<close> of one directory), the reference markers of each Session's directory,
  the markers of released Sessions and of unreferenced objects, and the trash of the collector, where
  \<open>None\<close> is a directory that was only partly deleted. JSON files are their parsed values. The checks
  for symbolic links, file types and foreign names concern entries the store never writes and are
  not modelled, nor are temporary files and staging directories.

  \<open>ff_faults\<close> decides, access by access, whether the filesystem carries it out; an exhausted
  list never fails. Reading the markers of a directory is part of the access that lists it. A process that dies in the middle of an operation leaves the disk of a run in which
  the next access failed. \<open>sha256_hex\<close> is the hash, \<open>now\<close> the time \<open>now_ms()\<close> returns. The operations run
  under the store's gates, which exclude those that touch the same objects and Sessions.
\<close>

subsection \<open>Configuration and files\<close>

definition STORE_VERSION :: nat where
  "STORE_VERSION = 1"

definition HASH_ALGORITHM :: string where
  "HASH_ALGORITHM = ''sha256''"

text \<open>\<open>tokio::sync::Semaphore::MAX_PERMITS\<close>, \<open>usize::MAX >> 3\<close>.\<close>

definition SEMAPHORE_MAX_PERMITS :: nat where
  "SEMAPHORE_MAX_PERMITS = 2 ^ 61 - 1"

record file_evidence_store_config =
  fc_max_asset_bytes :: nat
  fc_max_references_per_session :: nat
  fc_max_concurrent_writes :: nat

definition file_evidence_store_config_default :: file_evidence_store_config where
  "file_evidence_store_config_default =
     \<lparr>fc_max_asset_bytes = 256 * 1024 * 1024, fc_max_references_per_session = 10000, fc_max_concurrent_writes = 4\<rparr>"

record store_header =
  sh_schema_version :: nat
  sh_hash_algorithm :: string

record object_metadata =
  om_schema_version :: nat
  om_algorithm :: string
  om_digest :: string
  om_media_type :: string
  om_byte_length :: nat
  om_created_at_ms :: nat

record reference_marker =
  rm_schema_version :: nat
  rm_session_id :: session_id
  rm_digest :: string
  rm_media_type :: string
  rm_created_at_ms :: nat

record unreferenced_marker =
  um_schema_version :: nat
  um_digest :: string
  um_byte_length :: nat
  um_released_at_ms :: nat

record released_session_marker =
  lm_schema_version :: nat
  lm_session_id :: session_id
  lm_released_at_ms :: nat

record reference_index =
  ri_by_digest :: "(sha256_digest \<times> nat) list"
  ri_by_session :: "(session_id \<times> nat) list"

definition reference_index_default :: reference_index where
  "reference_index_default = \<lparr>ri_by_digest = [], ri_by_session = []\<rparr>"

record evidence_object =
  eo_data :: string
  eo_meta :: object_metadata

datatype io_fault = IoOk | IoFailed string | IoPartial "sha256_digest list"

record file_store =
  ff_header :: "store_header option"
  ff_objects :: "(sha256_digest \<times> evidence_object) list"
  ff_references :: "(session_id \<times> (sha256_digest \<times> reference_marker) list) list"
  ff_released :: "(session_id \<times> released_session_marker) list"
  ff_unreferenced :: "(sha256_digest \<times> unreferenced_marker) list"
  ff_trash :: "(sha256_digest \<times> evidence_object option) list"
  ff_index :: "reference_index option"
  ff_config :: file_evidence_store_config
  ff_faults :: "io_fault list"

type_synonym 'a fs_op = "(file_store, 'a) store_op"

subsection \<open>Accesses to the filesystem\<close>

definition io_step :: "string \<Rightarrow> (file_store \<Rightarrow> file_store) \<Rightarrow> unit fs_op" where
  "io_step operation effect st =
     (case ff_faults st of
        [] \<Rightarrow> (Inr (), effect st)
      | fault # rest \<Rightarrow>
          let st = st\<lparr>ff_faults := rest\<rparr> in
          (case fault of
             IoOk \<Rightarrow> (Inr (), effect st)
           | IoFailed message \<Rightarrow> (Inl (EvidenceIo operation message), st)
           | IoPartial _ \<Rightarrow> (Inl (EvidenceIo operation []), st)))"

text \<open>An access that changes nothing the tables show: a read, a sync, a directory of a shard.\<close>

definition io_access :: "string \<Rightarrow> unit fs_op" where
  "io_access operation = io_step operation id"

text \<open>
  \<open>fs::remove_dir_all\<close> deletes entry by entry: when it fails, \<open>partly\<close> of the entries that are left
  may be the state of the directory.
\<close>

definition io_remove_all :: "string \<Rightarrow> (sha256_digest list \<Rightarrow> file_store \<Rightarrow> file_store) \<Rightarrow> (file_store \<Rightarrow> file_store) \<Rightarrow> unit fs_op" where
  "io_remove_all operation partly effect st =
     (case ff_faults st of
        IoPartial left # rest \<Rightarrow> (Inl (EvidenceIo operation []), partly left (st\<lparr>ff_faults := rest\<rparr>))
      | _ \<Rightarrow> io_step operation effect st)"

definition sync_directory :: "unit fs_op" where
  "sync_directory = io_access ''sync directory''"

definition atomic_write_json :: "(file_store \<Rightarrow> bool) \<Rightarrow> (file_store \<Rightarrow> file_store) \<Rightarrow> string \<Rightarrow> unit fs_op" where
  "atomic_write_json exists_already write operation =
     op_bind (op_gets exists_already) (\<lambda>present.
       if present then op_return ()
       else op_bind (io_access operation) (\<lambda>_.
            op_bind (io_step operation write) (\<lambda>_. sync_directory)))"

subsection \<open>Validation of files\<close>

definition digest_from_hash :: "(string \<Rightarrow> string) \<Rightarrow> string \<Rightarrow> evidence_error + sha256_digest" where
  "digest_from_hash sha256_hex data = digest_parse (sha256_hex data)"

definition validate_object_metadata :: "object_metadata \<Rightarrow> sha256_digest \<Rightarrow> evidence_error + unit" where
  "validate_object_metadata metadata digest =
     (if om_schema_version metadata \<noteq> STORE_VERSION
      then Inl (EvidenceUnsupportedStoreVersion (om_schema_version metadata))
      else if om_algorithm metadata \<noteq> HASH_ALGORITHM \<or> om_digest metadata \<noteq> digest
      then Inl (EvidenceCorruptMetadata digest ''algorithm or digest mismatch'')
      else if om_byte_length metadata = 0
      then Inl (EvidenceCorruptMetadata digest ''stored object has zero length'')
      else res_bind
        (res_map_err (\<lambda>_. EvidenceCorruptMetadata digest ''stored object metadata is invalid'')
           (evidence_metadata_new digest (om_media_type metadata) (om_byte_length metadata)
              (om_created_at_ms metadata) 0))
        (\<lambda>_. Inr ()))"

definition validate_reference_marker ::
  "reference_marker \<Rightarrow> session_id \<Rightarrow> sha256_digest \<Rightarrow> string \<Rightarrow> evidence_error + unit" where
  "validate_reference_marker marker session_id digest media_type =
     (if rm_schema_version marker \<noteq> STORE_VERSION
      then Inl (EvidenceUnsupportedStoreVersion (rm_schema_version marker))
      else if rm_session_id marker \<noteq> session_id \<or> rm_digest marker \<noteq> digest \<or> rm_media_type marker \<noteq> media_type
      then Inl (EvidenceCorruptMetadata digest ''session reference fields do not match its path'')
      else Inr ())"

definition validate_unreferenced_marker :: "unreferenced_marker \<Rightarrow> sha256_digest \<Rightarrow> evidence_error + unit" where
  "validate_unreferenced_marker marker digest =
     (if um_schema_version marker \<noteq> STORE_VERSION
      then Inl (EvidenceUnsupportedStoreVersion (um_schema_version marker))
      else if um_digest marker \<noteq> digest
      then Inl (EvidenceCorruptMetadata digest ''GC marker digest does not match its path'')
      else Inr ())"

definition validate_released_session_marker ::
  "released_session_marker \<Rightarrow> session_id \<Rightarrow> evidence_error + unit" where
  "validate_released_session_marker marker session_id =
     (if lm_schema_version marker \<noteq> STORE_VERSION
      then Inl (EvidenceUnsupportedStoreVersion (lm_schema_version marker))
      else if lm_session_id marker \<noteq> session_id
      then Inl (EvidenceUnsafePath ''released Session marker does not match its path'')
      else Inr ())"

definition verify_content ::
  "(string \<Rightarrow> string) \<Rightarrow> string \<Rightarrow> sha256_digest \<Rightarrow> evidence_object \<Rightarrow> evidence_error + unit" where
  "verify_content sha256_hex length_reason digest object =
     (if length (eo_data object) \<noteq> om_byte_length (eo_meta object)
      then Inl (EvidenceCorruptMetadata digest length_reason)
      else res_bind (digest_from_hash sha256_hex (eo_data object)) (\<lambda>actual.
        if actual \<noteq> digest then Inl (EvidenceCorrupt digest actual) else Inr ()))"

definition verify_object_directory_sync ::
  "(string \<Rightarrow> string) \<Rightarrow> evidence_object option \<Rightarrow> sha256_digest \<Rightarrow> object_metadata fs_op" where
  "verify_object_directory_sync sha256_hex directory digest =
     (case directory of
        None \<Rightarrow> op_fail (EvidenceCorruptMetadata digest ''object directory has unknown or missing entries'')
      | Some object \<Rightarrow>
          op_bind (io_access ''read object metadata during recovery'') (\<lambda>_.
          op_bind (op_lift (validate_object_metadata (eo_meta object) digest)) (\<lambda>_.
          op_bind (io_access ''open object data during recovery'') (\<lambda>_.
          op_bind (op_lift (verify_content sha256_hex ''recovery object byte length differs from metadata''
            digest object)) (\<lambda>_.
            op_return (eo_meta object))))))"

definition read_object_metadata :: "sha256_digest \<Rightarrow> object_metadata fs_op" where
  "read_object_metadata digest =
     op_bind (io_access ''inspect evidence object'') (\<lambda>_.
     op_bind (op_gets (\<lambda>st. map_of (ff_objects st) digest)) (\<lambda>found.
       case found of
         None \<Rightarrow> op_fail (EvidenceNotFound digest)
       | Some object \<Rightarrow>
           op_bind (op_lift (validate_object_metadata (eo_meta object) digest)) (\<lambda>_.
             op_return (eo_meta object))))"

definition verify_object :: "(string \<Rightarrow> string) \<Rightarrow> sha256_digest \<Rightarrow> (object_metadata \<times> string) fs_op" where
  "verify_object sha256_hex digest =
     op_bind (read_object_metadata digest) (\<lambda>metadata.
     op_bind (io_access ''open evidence data'') (\<lambda>_.
     op_bind (op_gets (\<lambda>st. map_of (ff_objects st) digest)) (\<lambda>found.
       case found of
         None \<Rightarrow> op_fail (EvidenceNotFound digest)
       | Some object \<Rightarrow>
           op_bind (op_lift (verify_content sha256_hex ''stored byte length does not match data'' digest object)) (\<lambda>_.
             op_return (metadata, eo_data object)))))"

subsection \<open>Scans of the references\<close>

definition session_directory_exists :: "session_id \<Rightarrow> file_store \<Rightarrow> bool" where
  "session_directory_exists session_id st \<longleftrightarrow> map_of (ff_references st) session_id \<noteq> None"

definition session_entries :: "session_id \<Rightarrow> file_store \<Rightarrow> (sha256_digest \<times> reference_marker) list" where
  "session_entries session_id st = (case map_of (ff_references st) session_id of Some entries \<Rightarrow> entries | None \<Rightarrow> [])"

text \<open>The check that every scan of a Session's directory makes of an entry.\<close>

definition audit_reference :: "session_id \<Rightarrow> sha256_digest \<Rightarrow> reference_marker \<Rightarrow> object_metadata fs_op" where
  "audit_reference session_id digest marker =
     op_bind (op_lift (validate_reference_marker marker session_id digest (rm_media_type marker))) (\<lambda>_.
     op_bind (read_object_metadata digest) (\<lambda>object.
       if rm_media_type marker \<noteq> om_media_type object
       then op_fail (EvidenceCorruptMetadata digest ''session reference media type differs from object'')
       else op_return object))"

definition session_reference_count :: "session_id \<Rightarrow> nat fs_op" where
  "session_reference_count session_id =
     op_bind (op_gets (session_directory_exists session_id)) (\<lambda>present.
       if \<not> present then op_return 0
       else
         op_bind (io_access ''list session references'') (\<lambda>_.
         op_bind (op_gets (session_entries session_id)) (\<lambda>entries.
           op_fold (\<lambda>count (digest, marker).
             op_bind (audit_reference session_id digest marker) (\<lambda>_. op_return (saturating_add_u64 count 1)))
             0 entries)))"

definition index_entry :: "session_id \<Rightarrow> reference_index \<times> nat \<Rightarrow> sha256_digest \<times> reference_marker \<Rightarrow> (reference_index \<times> nat) fs_op" where
  "index_entry session_id acc entry =
     (case (acc, entry) of ((index, session_count), (digest, marker)) \<Rightarrow>
        op_bind (audit_reference session_id digest marker) (\<lambda>_.
          let count = (case map_of (ri_by_digest index) digest of Some c \<Rightarrow> c | None \<Rightarrow> 0) in
          op_return
            (index\<lparr>ri_by_digest := bt_insert digest (saturating_add_u64 count 1) (ri_by_digest index)\<rparr>,
             saturating_add_u64 session_count 1)))"

definition index_session :: "reference_index \<Rightarrow> session_id \<times> (sha256_digest \<times> reference_marker) list \<Rightarrow> reference_index fs_op" where
  "index_session index session =
     (case session of (session_id, entries) \<Rightarrow>
        op_bind (io_access ''list session references'') (\<lambda>_.
        op_bind (op_fold (index_entry session_id) (index, 0) entries) (\<lambda>(index, session_count).
          op_return
            (if session_count > 0
             then index\<lparr>ri_by_session := bt_insert session_id session_count (ri_by_session index)\<rparr>
             else index))))"

definition scan_reference_index :: "reference_index fs_op" where
  "scan_reference_index =
     op_bind (io_access ''list session references'') (\<lambda>_.
     op_bind (op_gets ff_references) (\<lambda>sessions.
       op_fold index_session reference_index_default sessions))"

definition rebuild_reference_index :: "unit fs_op" where
  "rebuild_reference_index =
     op_bind scan_reference_index (\<lambda>rebuilt. op_modify (\<lambda>st. st\<lparr>ff_index := Some rebuilt\<rparr>))"

definition count_references :: "sha256_digest \<Rightarrow> nat fs_op" where
  "count_references target =
     op_bind (io_access ''list session references'') (\<lambda>_.
     op_bind (op_gets ff_references) (\<lambda>sessions.
       op_fold (\<lambda>count (session_id, entries).
         op_bind (io_access ''list session references'') (\<lambda>_.
           op_fold (\<lambda>count (digest, marker).
             op_bind (audit_reference session_id digest marker) (\<lambda>_.
               op_return (if digest = target then saturating_add_u64 count 1 else count)))
             count entries))
         0 sessions))"

definition referenced_digests :: "sha256_digest list fs_op" where
  "referenced_digests =
     op_bind (io_access ''list session references'') (\<lambda>_.
     op_bind (op_gets ff_references) (\<lambda>sessions.
       op_fold (\<lambda>digests (session_id, entries).
         op_bind (io_access ''list session references'') (\<lambda>_.
           op_fold (\<lambda>digests (digest, marker).
             op_bind (audit_reference session_id digest marker) (\<lambda>_. op_return (bs_insert digest digests)))
             digests entries))
         [] sessions))"

definition raw_entry :: "session_id \<Rightarrow> sha256_digest list \<Rightarrow> sha256_digest \<times> reference_marker \<Rightarrow> sha256_digest list fs_op" where
  "raw_entry session_id digests entry =
     (case entry of (digest, marker) \<Rightarrow>
        op_bind (op_lift (validate_reference_marker marker session_id digest (rm_media_type marker))) (\<lambda>_.
          op_return (bs_insert digest digests)))"

definition raw_session :: "sha256_digest list \<Rightarrow> session_id \<times> (sha256_digest \<times> reference_marker) list \<Rightarrow> sha256_digest list fs_op" where
  "raw_session digests session =
     (case session of (session_id, entries) \<Rightarrow>
        op_bind (io_access ''list session references'') (\<lambda>_. op_fold (raw_entry session_id) digests entries))"

definition raw_referenced_digests :: "sha256_digest list fs_op" where
  "raw_referenced_digests =
     op_bind (io_access ''list session references'') (\<lambda>_.
     op_bind (op_gets ff_references) (\<lambda>sessions. op_fold raw_session [] sessions))"

definition referenced_session_ids :: "session_id list fs_op" where
  "referenced_session_ids =
     op_bind (io_access ''list session references'') (\<lambda>_.
     op_bind (op_gets ff_references) (\<lambda>sessions.
     op_bind (op_fold (\<lambda>ids (session_id, _).
         op_bind (session_reference_count session_id) (\<lambda>count.
           op_return (if count > 0 then ids @ [session_id] else ids)))
       [] sessions) (\<lambda>ids.
       op_return (sort ids))))"

subsection \<open>The index\<close>

definition indexed_reference_count :: "sha256_digest \<Rightarrow> nat fs_op" where
  "indexed_reference_count digest =
     op_bind (op_gets ff_index) (\<lambda>index.
       case index of
         Some index \<Rightarrow> op_return (case map_of (ri_by_digest index) digest of Some count \<Rightarrow> count | None \<Rightarrow> 0)
       | None \<Rightarrow> count_references digest)"

definition indexed_session_reference_count :: "session_id \<Rightarrow> nat fs_op" where
  "indexed_session_reference_count session_id =
     op_bind (op_gets ff_index) (\<lambda>index.
       case index of
         Some index \<Rightarrow> op_return (case map_of (ri_by_session index) session_id of Some count \<Rightarrow> count | None \<Rightarrow> 0)
       | None \<Rightarrow> session_reference_count session_id)"

definition indexed_referenced_digests :: "sha256_digest list fs_op" where
  "indexed_referenced_digests =
     op_bind (op_gets ff_index) (\<lambda>index.
       case index of
         Some index \<Rightarrow> op_return (map fst (ri_by_digest index))
       | None \<Rightarrow> referenced_digests)"

definition index_reference_added :: "session_id \<Rightarrow> sha256_digest \<Rightarrow> reference_index \<Rightarrow> reference_index" where
  "index_reference_added session_id digest index =
     (let digest_count = (case map_of (ri_by_digest index) digest of Some c \<Rightarrow> c | None \<Rightarrow> 0);
          session_count = (case map_of (ri_by_session index) session_id of Some c \<Rightarrow> c | None \<Rightarrow> 0)
      in \<lparr>ri_by_digest = bt_insert digest (saturating_add_u64 digest_count 1) (ri_by_digest index),
          ri_by_session = bt_insert session_id (saturating_add_u64 session_count 1) (ri_by_session index)\<rparr>)"

definition index_digest_removed :: "sha256_digest \<Rightarrow> (sha256_digest \<times> nat) list \<Rightarrow> (sha256_digest \<times> nat) list" where
  "index_digest_removed digest by_digest =
     (case map_of by_digest digest of
        Some count \<Rightarrow> if count > 1 then bt_insert digest (count - 1) by_digest else hm_remove digest by_digest
      | None \<Rightarrow> by_digest)"

definition index_session_removed :: "session_id \<Rightarrow> sha256_digest list \<Rightarrow> reference_index \<Rightarrow> reference_index" where
  "index_session_removed session_id digests index =
     \<lparr>ri_by_digest = fold index_digest_removed digests (ri_by_digest index),
      ri_by_session = hm_remove session_id (ri_by_session index)\<rparr>"

definition update_index :: "(reference_index \<Rightarrow> reference_index) \<Rightarrow> unit fs_op" where
  "update_index f = op_modify (\<lambda>st. st\<lparr>ff_index := map_option f (ff_index st)\<rparr>)"

end
