(* ===== verification/Evidence_Store_Ops.thy ===== *)
theory Evidence_Store_Ops
  imports Evidence_Fs
begin

text \<open>
  The operations of the filesystem Evidence Store: recovery, references and their release, the
  garbage collector, and the methods of \<open>EvidenceStore\<close>; \<open>crates/evidence-fs/src/lib.rs\<close>.
\<close>

subsection \<open>Markers and recovery\<close>

definition remove_unreferenced_marker_if_present :: "sha256_digest \<Rightarrow> unit fs_op" where
  "remove_unreferenced_marker_if_present digest =
     op_bind (op_gets (\<lambda>st. map_of (ff_unreferenced st) digest)) (\<lambda>marker.
       if marker = None then op_return ()
       else
         op_bind (io_step ''remove GC marker'' (\<lambda>st. st\<lparr>ff_unreferenced := hm_remove digest (ff_unreferenced st)\<rparr>)) (\<lambda>_.
           sync_directory))"

definition remove_trash :: "string \<Rightarrow> sha256_digest \<Rightarrow> unit fs_op" where
  "remove_trash operation digest =
     op_bind (io_remove_all operation
        (\<lambda>_ st. st\<lparr>ff_trash := bt_insert digest None (ff_trash st)\<rparr>)
        (\<lambda>st. st\<lparr>ff_trash := hm_remove digest (ff_trash st)\<rparr>)) (\<lambda>_.
       sync_directory)"

definition recover_gc_trash_entry :: "(string \<Rightarrow> string) \<Rightarrow> sha256_digest \<Rightarrow> bool \<Rightarrow> unit fs_op" where
  "recover_gc_trash_entry sha256_hex digest referenced =
     op_bind (op_gets (\<lambda>st. map_of (ff_trash st) digest)) (\<lambda>trash.
     op_bind (op_gets (\<lambda>st. map_of (ff_objects st) digest)) (\<lambda>normal.
       case trash of
         None \<Rightarrow> op_return ()
       | Some trash \<Rightarrow>
           (case normal of
              Some live \<Rightarrow>
                op_bind (verify_object_directory_sync sha256_hex (Some live) digest) (\<lambda>live_metadata.
                op_bind (verify_object_directory_sync sha256_hex trash digest) (\<lambda>trash_metadata.
                  if live_metadata \<noteq> trash_metadata
                  then op_fail (EvidenceCorruptMetadata digest ''live object and GC trash copy differ'')
                  else
                    op_bind (remove_trash ''remove duplicate GC trash'' digest) (\<lambda>_.
                      if referenced then remove_unreferenced_marker_if_present digest else op_return ())))
            | None \<Rightarrow>
                if referenced then
                  op_bind (verify_object_directory_sync sha256_hex trash digest) (\<lambda>_.
                  op_bind (io_access ''create store directory'') (\<lambda>_.
                  op_bind (io_step ''restore referenced GC object'' (\<lambda>st.
                     case map_of (ff_trash st) digest of
                       Some (Some object) \<Rightarrow>
                         st\<lparr>ff_objects := bt_insert digest object (ff_objects st),
                            ff_trash := hm_remove digest (ff_trash st)\<rparr>
                     | _ \<Rightarrow> st)) (\<lambda>_.
                  op_bind sync_directory (\<lambda>_.
                  op_bind sync_directory (\<lambda>_.
                    remove_unreferenced_marker_if_present digest)))))
                else
                  op_bind (remove_unreferenced_marker_if_present digest) (\<lambda>_.
                    remove_trash ''finish GC trash deletion'' digest))))"

definition recover_gc_trash :: "(string \<Rightarrow> string) \<Rightarrow> unit fs_op" where
  "recover_gc_trash sha256_hex =
     op_bind raw_referenced_digests (\<lambda>referenced.
     op_bind (io_access ''list GC trash'') (\<lambda>_.
     op_bind (op_gets (\<lambda>st. map fst (ff_trash st))) (\<lambda>entries.
       op_each (\<lambda>digest. recover_gc_trash_entry sha256_hex digest (digest \<in> set referenced)) entries)))"

definition write_unreferenced_marker :: "string \<Rightarrow> sha256_digest \<Rightarrow> nat \<Rightarrow> nat \<Rightarrow> unit fs_op" where
  "write_unreferenced_marker operation digest byte_length released_at_ms =
     atomic_write_json (\<lambda>st. map_of (ff_unreferenced st) digest \<noteq> None)
       (\<lambda>st. st\<lparr>ff_unreferenced := bt_insert digest
          \<lparr>um_schema_version = STORE_VERSION, um_digest = digest, um_byte_length = byte_length,
           um_released_at_ms = released_at_ms\<rparr> (ff_unreferenced st)\<rparr>)
       operation"

definition check_referenced_object :: "sha256_digest \<Rightarrow> unit fs_op" where
  "check_referenced_object digest =
     op_bind (op_gets (\<lambda>st. map_of (ff_objects st) digest)) (\<lambda>object.
       if object = None
       then op_fail (EvidenceCorruptMetadata digest ''session reference points to a missing object'')
       else
         op_bind (read_object_metadata digest) (\<lambda>_.
         op_bind (op_gets (\<lambda>st. map_of (ff_unreferenced st) digest)) (\<lambda>marker.
           if marker = None then op_return ()
           else io_step ''remove stale GC marker''
             (\<lambda>st. st\<lparr>ff_unreferenced := hm_remove digest (ff_unreferenced st)\<rparr>))))"

definition mark_orphan :: "nat \<Rightarrow> sha256_digest list \<Rightarrow> sha256_digest \<Rightarrow> unit fs_op" where
  "mark_orphan now references digest =
     (if digest \<in> set references then op_return ()
      else
        op_bind (read_object_metadata digest) (\<lambda>metadata.
          write_unreferenced_marker ''recover orphan marker'' digest (om_byte_length metadata) now))"

definition drop_dangling_marker :: "sha256_digest \<times> unreferenced_marker \<Rightarrow> unit fs_op" where
  "drop_dangling_marker entry =
     (case entry of (digest, marker) \<Rightarrow>
        op_bind (op_lift (validate_unreferenced_marker marker digest)) (\<lambda>_.
        op_bind (op_gets (\<lambda>st. map_of (ff_objects st) digest)) (\<lambda>object.
          if object \<noteq> None then op_return ()
          else io_step ''finish missing-object GC marker deletion''
            (\<lambda>st. st\<lparr>ff_unreferenced := hm_remove digest (ff_unreferenced st)\<rparr>))))"

definition recover_reference_state :: "nat \<Rightarrow> unit fs_op" where
  "recover_reference_state now =
     op_bind raw_referenced_digests (\<lambda>references.
     op_bind (op_each check_referenced_object references) (\<lambda>_.
     op_bind (io_access ''list object shards'') (\<lambda>_.
     op_bind (op_gets (\<lambda>st. map fst (ff_objects st))) (\<lambda>objects.
     op_bind (op_each (mark_orphan now references) objects) (\<lambda>_.
     op_bind (io_access ''list GC markers'') (\<lambda>_.
     op_bind (op_gets ff_unreferenced) (\<lambda>markers.
     op_bind (op_each drop_dangling_marker markers) (\<lambda>_.
       sync_directory))))))))"

subsection \<open>Released Sessions\<close>

definition ensure_session_open :: "session_id \<Rightarrow> unit fs_op" where
  "ensure_session_open session_id =
     op_bind (op_gets (\<lambda>st. map_of (ff_released st) session_id)) (\<lambda>marker.
       case marker of
         None \<Rightarrow> op_return ()
       | Some marker \<Rightarrow>
           op_bind (io_access ''read released Session marker'') (\<lambda>_.
           op_bind (op_lift (validate_released_session_marker marker session_id)) (\<lambda>_.
             op_fail (EvidenceSessionClosed session_id))))"

definition persist_session_release :: "session_id \<Rightarrow> nat \<Rightarrow> nat fs_op" where
  "persist_session_release session_id released_at_ms =
     op_bind (op_gets (\<lambda>st. map_of (ff_released st) session_id)) (\<lambda>marker.
       case marker of
         Some marker \<Rightarrow>
           op_bind (io_access ''read released Session marker'') (\<lambda>_.
           op_bind (op_lift (validate_released_session_marker marker session_id)) (\<lambda>_.
             op_return (lm_released_at_ms marker)))
       | None \<Rightarrow>
           op_bind (atomic_write_json (\<lambda>st. map_of (ff_released st) session_id \<noteq> None)
              (\<lambda>st. st\<lparr>ff_released := bt_insert session_id
                 \<lparr>lm_schema_version = STORE_VERSION, lm_session_id = session_id, lm_released_at_ms = released_at_ms\<rparr>
                 (ff_released st)\<rparr>)
              ''write released Session marker'') (\<lambda>_.
             op_return released_at_ms))"

definition ensure_unreferenced_marker :: "sha256_digest \<Rightarrow> nat \<Rightarrow> nat \<Rightarrow> bool fs_op" where
  "ensure_unreferenced_marker digest byte_length released_at_ms =
     op_bind (op_gets (\<lambda>st. map_of (ff_unreferenced st) digest)) (\<lambda>marker.
       case marker of
         Some marker \<Rightarrow>
           op_bind (io_access ''read GC marker'') (\<lambda>_.
           op_bind (op_lift (validate_unreferenced_marker marker digest)) (\<lambda>_.
             if um_byte_length marker \<noteq> byte_length
             then op_fail (EvidenceCorruptMetadata digest ''GC marker byte length differs'')
             else op_return False))
       | None \<Rightarrow>
           op_bind (write_unreferenced_marker ''write orphan recovery marker'' digest byte_length released_at_ms) (\<lambda>_.
             op_return True))"

definition mark_unreferenced_if_unowned :: "sha256_digest \<Rightarrow> nat \<Rightarrow> nat \<Rightarrow> unit fs_op" where
  "mark_unreferenced_if_unowned digest byte_length released_at_ms =
     op_bind (indexed_reference_count digest) (\<lambda>count.
       if count \<noteq> 0 then op_return ()
       else op_bind (ensure_unreferenced_marker digest byte_length released_at_ms) (\<lambda>_. op_return ()))"

record release_report =
  rr_session_id :: session_id
  rr_released_references :: nat
  rr_newly_unreferenced_assets :: nat
  rr_newly_unreferenced_bytes :: nat

definition released_entry ::
  "session_id \<Rightarrow> (sha256_digest \<times> object_metadata) list \<Rightarrow> sha256_digest \<times> reference_marker \<Rightarrow>
   (sha256_digest \<times> object_metadata) list fs_op" where
  "released_entry session_id released entry =
     (case entry of (digest, marker) \<Rightarrow>
        op_bind (audit_reference session_id digest marker) (\<lambda>object. op_return (bt_insert digest object released)))"

definition mark_released :: "nat \<Rightarrow> nat \<times> nat \<Rightarrow> sha256_digest \<times> object_metadata \<Rightarrow> (nat \<times> nat) fs_op" where
  "mark_released released_at_ms counts entry =
     (case (counts, entry) of ((assets, bytes), (digest, metadata)) \<Rightarrow>
        op_bind (indexed_reference_count digest) (\<lambda>count.
          if count \<noteq> 0 then op_return (assets, bytes)
          else
            op_bind (ensure_unreferenced_marker digest (om_byte_length metadata) released_at_ms) (\<lambda>created.
              op_return (if created then (saturating_add_u64 assets 1, saturating_add_u64 bytes (om_byte_length metadata))
                         else (assets, bytes)))))"

definition release_references_locked :: "nat \<Rightarrow> session_id \<Rightarrow> nat \<Rightarrow> release_report fs_op" where
  "release_references_locked now session_id released_at_ms =
     op_bind (op_gets (session_directory_exists session_id)) (\<lambda>present.
       if \<not> present then
         op_bind (recover_reference_state now) (\<lambda>_.
         op_bind rebuild_reference_index (\<lambda>_.
           op_return \<lparr>rr_session_id = session_id, rr_released_references = 0, rr_newly_unreferenced_assets = 0,
                      rr_newly_unreferenced_bytes = 0\<rparr>))
       else
         op_bind (io_access ''list session references'') (\<lambda>_.
         op_bind (op_gets (session_entries session_id)) (\<lambda>entries.
         op_bind (op_fold (released_entry session_id) [] entries) (\<lambda>released.
         op_bind (io_remove_all ''remove session references''
            (\<lambda>keep st. st\<lparr>ff_references :=
               bt_insert session_id (filter (\<lambda>e. fst e \<in> set keep) (session_entries session_id st)) (ff_references st)\<rparr>)
            (\<lambda>st. st\<lparr>ff_references := hm_remove session_id (ff_references st)\<rparr>)) (\<lambda>_.
         op_bind (update_index (index_session_removed session_id (map fst released))) (\<lambda>_.
         op_bind sync_directory (\<lambda>_.
         op_bind (op_fold (mark_released released_at_ms) (0, 0) released) (\<lambda>(assets, bytes).
           op_return \<lparr>rr_session_id = session_id, rr_released_references = length released,
                      rr_newly_unreferenced_assets = assets, rr_newly_unreferenced_bytes = bytes\<rparr>))))))))"

definition recover_released_session :: "nat \<Rightarrow> session_id \<times> released_session_marker \<Rightarrow> unit fs_op" where
  "recover_released_session now entry =
     (case entry of (session_id, marker) \<Rightarrow>
        op_bind (io_access ''read released Session marker'') (\<lambda>_.
        op_bind (op_lift (validate_released_session_marker marker session_id)) (\<lambda>_.
        op_bind (op_gets (session_directory_exists session_id)) (\<lambda>present.
          if present
          then op_bind (release_references_locked now session_id (lm_released_at_ms marker)) (\<lambda>_. op_return ())
          else op_return ()))))"

definition recover_released_sessions :: "nat \<Rightarrow> unit fs_op" where
  "recover_released_sessions now =
     op_bind (io_access ''list released Sessions'') (\<lambda>_.
     op_bind (op_gets ff_released) (\<lambda>entries. op_each (recover_released_session now) entries))"

subsection \<open>References\<close>

definition add_reference :: "session_id \<Rightarrow> sha256_digest \<Rightarrow> string \<Rightarrow> nat \<Rightarrow> bool fs_op" where
  "add_reference session_id digest media_type created_at_ms =
     op_bind (ensure_session_open session_id) (\<lambda>_.
     op_bind (op_gets (\<lambda>st. map_of (session_entries session_id st) digest)) (\<lambda>existing_marker.
       case existing_marker of
         Some marker \<Rightarrow>
           op_bind (io_access ''read session reference'') (\<lambda>_.
           op_bind (op_lift (validate_reference_marker marker session_id digest media_type)) (\<lambda>_.
             op_return False))
       | None \<Rightarrow>
           op_bind (op_gets (session_directory_exists session_id)) (\<lambda>directory.
           op_bind (if directory then indexed_session_reference_count session_id else op_return 0) (\<lambda>existing.
           op_bind (op_gets (\<lambda>st. fc_max_references_per_session (ff_config st))) (\<lambda>maximum.
             if existing \<ge> maximum then op_fail (EvidenceReferenceLimit maximum)
             else
               op_bind (remove_unreferenced_marker_if_present digest) (\<lambda>_.
               op_bind (if directory then op_return ()
                        else io_step ''create store directory''
                          (\<lambda>st. st\<lparr>ff_references := bt_insert session_id [] (ff_references st)\<rparr>)) (\<lambda>_.
               op_bind (atomic_write_json (\<lambda>st. map_of (session_entries session_id st) digest \<noteq> None)
                  (\<lambda>st. st\<lparr>ff_references := bt_insert session_id
                     (bt_insert digest
                        \<lparr>rm_schema_version = STORE_VERSION, rm_session_id = session_id, rm_digest = digest,
                         rm_media_type = media_type, rm_created_at_ms = created_at_ms\<rparr>
                        (session_entries session_id st)) (ff_references st)\<rparr>)
                  ''write session reference'') (\<lambda>_.
               op_bind (update_index (index_reference_added session_id digest)) (\<lambda>_.
                 op_return True)))))))))"

subsection \<open>The methods of the store\<close>

datatype input_read = ReadBytes string | ReadFailed string

fun stage_input :: "nat \<Rightarrow> string \<Rightarrow> input_read list \<Rightarrow> string fs_op" where
  "stage_input maximum staged [] = op_return staged"
| "stage_input maximum staged (ReadFailed message # _) = op_fail (EvidenceIo ''read evidence input'' message)"
| "stage_input maximum staged (ReadBytes [] # _) = op_return staged"
| "stage_input maximum staged (ReadBytes bytes # reads) =
     (case checked_add_u64 (length staged) (length bytes) of
        None \<Rightarrow> op_fail (EvidenceTooLarge U64_MAX maximum)
      | Some actual_size \<Rightarrow>
          if actual_size > maximum then op_fail (EvidenceTooLarge actual_size maximum)
          else op_bind (io_access ''write staged evidence'') (\<lambda>_. stage_input maximum (staged @ bytes) reads))"

definition put_stage :: "(string \<Rightarrow> string) \<Rightarrow> put_evidence \<Rightarrow> input_read list \<Rightarrow> (sha256_digest \<times> string) fs_op" where
  "put_stage sha256_hex request input =
     op_bind (ensure_session_open (pe_session_id request)) (\<lambda>_.
     op_bind (op_gets (\<lambda>st. fc_max_asset_bytes (ff_config st))) (\<lambda>maximum.
     op_bind (op_lift (case pe_declared_size_bytes request of
         Some declared \<Rightarrow> if declared > maximum then Inl (EvidenceTooLarge declared maximum) else Inr ()
       | None \<Rightarrow> Inr ())) (\<lambda>_.
     op_bind (io_access ''create staging directory'') (\<lambda>_.
     op_bind (stage_input maximum [] input) (\<lambda>data.
     op_bind (op_lift (if data = [] then Inl EvidenceEmptyContent else Inr ())) (\<lambda>_.
     op_bind (op_lift (case pe_declared_size_bytes request of
         Some declared \<Rightarrow> if declared \<noteq> length data then Inl (EvidenceDeclaredSizeMismatch declared (length data)) else Inr ()
       | None \<Rightarrow> Inr ())) (\<lambda>_.
     op_bind (io_access ''sync staged evidence'') (\<lambda>_.
     op_bind (op_lift (digest_from_hash sha256_hex data)) (\<lambda>digest.
     op_bind (op_lift (case pe_expected_sha256 request of
         Some expected \<Rightarrow> if expected \<noteq> digest then Inl (EvidenceDigestMismatch expected digest) else Inr ()
       | None \<Rightarrow> Inr ())) (\<lambda>_.
     op_bind (io_access ''write staged object metadata'') (\<lambda>_.
       op_return (digest, data))))))))))))"

definition new_object :: "sha256_digest \<Rightarrow> string \<Rightarrow> string \<Rightarrow> nat \<Rightarrow> evidence_object" where
  "new_object digest media_type data created_at_ms =
     \<lparr>eo_data = data,
      eo_meta = \<lparr>om_schema_version = STORE_VERSION, om_algorithm = HASH_ALGORITHM, om_digest = digest,
        om_media_type = media_type, om_byte_length = length data, om_created_at_ms = created_at_ms\<rparr>\<rparr>"

definition publish_object ::
  "(string \<Rightarrow> string) \<Rightarrow> string \<Rightarrow> sha256_digest \<Rightarrow> string \<Rightarrow> nat \<Rightarrow> (object_metadata \<times> bool) fs_op" where
  "publish_object sha256_hex media_type digest data created_at_ms =
     op_bind (op_gets (\<lambda>st. map_of (ff_objects st) digest)) (\<lambda>present.
       if present \<noteq> None then
         op_bind (verify_object sha256_hex digest) (\<lambda>(existing, _).
           if om_media_type existing \<noteq> media_type
           then op_fail (EvidenceMediaTypeConflict digest (om_media_type existing) media_type)
           else if om_byte_length existing \<noteq> length data
           then op_fail (EvidenceCorruptMetadata digest ''deduplicated object size differs'')
           else op_return (existing, True))
       else
         op_bind (io_step ''publish evidence object''
            (\<lambda>st. st\<lparr>ff_objects := bt_insert digest (new_object digest media_type data created_at_ms) (ff_objects st)\<rparr>)) (\<lambda>_.
         op_bind sync_directory (\<lambda>_.
         op_bind sync_directory (\<lambda>_.
           op_return (eo_meta (new_object digest media_type data created_at_ms), False)))))"

definition put_publish ::
  "(string \<Rightarrow> string) \<Rightarrow> nat \<Rightarrow> session_id \<Rightarrow> string \<Rightarrow> sha256_digest \<Rightarrow> string \<Rightarrow> stored_evidence fs_op" where
  "put_publish sha256_hex created_at_ms session_id media_type digest data =
     op_bind (indexed_reference_count digest) (\<lambda>count.
     op_bind (recover_gc_trash_entry sha256_hex digest (count > 0)) (\<lambda>_.
     op_bind (io_access ''create store directory'') (\<lambda>_.
     op_bind (publish_object sha256_hex media_type digest data created_at_ms) (\<lambda>(metadata, deduplicated).
     op_bind (op_on_error (indexed_reference_count digest)
        (mark_unreferenced_if_unowned digest (om_byte_length metadata) created_at_ms)) (\<lambda>reference_count_before.
     op_bind (op_on_error (add_reference session_id digest (om_media_type metadata) created_at_ms)
        (mark_unreferenced_if_unowned digest (om_byte_length metadata) created_at_ms)) (\<lambda>added.
     op_bind (op_lift (evidence_metadata_new digest (om_media_type metadata) (om_byte_length metadata)
        (om_created_at_ms metadata) (saturating_add_u64 reference_count_before (if added then 1 else 0)))) (\<lambda>metadata.
       op_return \<lparr>st_metadata = metadata, st_deduplicated = deduplicated\<rparr>)))))))"

definition file_put ::
  "(string \<Rightarrow> string) \<Rightarrow> nat \<Rightarrow> put_evidence \<Rightarrow> input_read list \<Rightarrow> stored_evidence fs_op" where
  "file_put sha256_hex now request input =
     op_bind (put_stage sha256_hex request input) (\<lambda>(digest, data).
       put_publish sha256_hex now (pe_session_id request) (pe_media_type request) digest data)"

definition file_attach :: "(string \<Rightarrow> string) \<Rightarrow> nat \<Rightarrow> session_id \<Rightarrow> asset_ref \<Rightarrow> stored_evidence fs_op" where
  "file_attach sha256_hex now session_id asset =
     op_bind (op_lift (from_asset_ref asset)) (\<lambda>digest.
     op_bind (ensure_session_open session_id) (\<lambda>_.
     op_bind (verify_object sha256_hex digest) (\<lambda>(metadata, _).
       if om_media_type metadata \<noteq> ar_media_type asset
       then op_fail (EvidenceInvalidReference ''mediaType does not match stored metadata'')
       else
         op_bind (indexed_reference_count digest) (\<lambda>reference_count_before.
         op_bind (add_reference session_id digest (om_media_type metadata) now) (\<lambda>added.
         op_bind (op_lift (evidence_metadata_new digest (om_media_type metadata) (om_byte_length metadata)
            (om_created_at_ms metadata) (saturating_add_u64 reference_count_before (if added then 1 else 0)))) (\<lambda>metadata.
           op_return \<lparr>st_metadata = metadata, st_deduplicated = True\<rparr>))))))"

definition verify_session_reference :: "(string \<Rightarrow> string) \<Rightarrow> session_id \<Rightarrow> asset_ref \<Rightarrow> evidence_metadata fs_op" where
  "verify_session_reference sha256_hex session_id asset =
     op_bind (op_lift (from_asset_ref asset)) (\<lambda>digest.
     op_bind (ensure_session_open session_id) (\<lambda>_.
     op_bind (io_access ''inspect session reference'') (\<lambda>_.
     op_bind (op_gets (\<lambda>st. map_of (session_entries session_id st) digest)) (\<lambda>found.
       case found of
         None \<Rightarrow> op_fail (EvidenceNotAttached session_id digest)
       | Some marker \<Rightarrow>
           op_bind (op_lift (validate_reference_marker marker session_id digest (rm_media_type marker))) (\<lambda>_.
             if rm_media_type marker \<noteq> ar_media_type asset
             then op_fail (EvidenceInvalidReference ''mediaType does not match session reference'')
             else
               op_bind (verify_object sha256_hex digest) (\<lambda>(metadata, _).
                 if om_media_type metadata \<noteq> rm_media_type marker
                 then op_fail (EvidenceCorruptMetadata digest ''session reference media type differs from object'')
                 else
                   op_bind (indexed_reference_count digest) (\<lambda>reference_count.
                     op_lift (evidence_metadata_new digest (om_media_type metadata) (om_byte_length metadata)
                       (om_created_at_ms metadata) reference_count))))))))"

definition file_open :: "(string \<Rightarrow> string) \<Rightarrow> sha256_digest \<Rightarrow> string fs_op" where
  "file_open sha256_hex digest = op_bind (verify_object sha256_hex digest) (\<lambda>(_, data). op_return data)"

definition open_asset :: "(string \<Rightarrow> string) \<Rightarrow> asset_ref \<Rightarrow> string fs_op" where
  "open_asset sha256_hex asset =
     op_bind (op_lift (from_asset_ref asset)) (\<lambda>digest.
     op_bind (verify_object sha256_hex digest) (\<lambda>(metadata, data).
       if om_media_type metadata \<noteq> ar_media_type asset
       then op_fail (EvidenceInvalidReference ''mediaType does not match stored metadata'')
       else op_return data))"

definition file_metadata :: "(string \<Rightarrow> string) \<Rightarrow> sha256_digest \<Rightarrow> evidence_metadata fs_op" where
  "file_metadata sha256_hex digest =
     op_bind (verify_object sha256_hex digest) (\<lambda>(metadata, _).
     op_bind (count_references digest) (\<lambda>reference_count.
       op_lift (evidence_metadata_new digest (om_media_type metadata) (om_byte_length metadata)
         (om_created_at_ms metadata) reference_count)))"

definition referenced_sessions :: "session_id list fs_op" where
  "referenced_sessions = referenced_session_ids"

definition release_session :: "nat \<Rightarrow> session_id \<Rightarrow> nat \<Rightarrow> release_report fs_op" where
  "release_session now session_id released_at_ms =
     op_bind (persist_session_release session_id released_at_ms) (\<lambda>released_at_ms.
       release_references_locked now session_id released_at_ms)"

subsection \<open>The garbage collector\<close>

record gc_report =
  gr_examined_assets :: nat
  gr_candidate_assets :: nat
  gr_candidate_bytes :: nat
  gr_deleted_assets :: nat
  gr_deleted_bytes :: nat
  gr_dry_run :: bool

definition gc_marker ::
  "sha256_digest list \<Rightarrow> (sha256_digest \<times> unreferenced_marker) list \<Rightarrow> sha256_digest \<times> unreferenced_marker \<Rightarrow>
   (sha256_digest \<times> unreferenced_marker) list fs_op" where
  "gc_marker referenced markers entry =
     (case entry of (digest, marker) \<Rightarrow>
        op_bind (op_lift (validate_unreferenced_marker marker digest)) (\<lambda>_.
          if digest \<in> set referenced
          then op_fail (EvidenceInternal ''GC marker exists for a referenced object'')
          else op_return (bt_insert digest marker markers)))"

definition gc_delete :: "sha256_digest \<Rightarrow> unit fs_op" where
  "gc_delete digest =
     op_bind (op_gets (\<lambda>st. map_of (ff_trash st) digest)) (\<lambda>trash.
       if trash \<noteq> None then op_fail (EvidenceCorruptMetadata digest ''GC trash target already exists'')
       else
         op_bind (io_step ''move evidence object to GC trash'' (\<lambda>st.
            case map_of (ff_objects st) digest of
              Some object \<Rightarrow>
                st\<lparr>ff_objects := hm_remove digest (ff_objects st), ff_trash := bt_insert digest (Some object) (ff_trash st)\<rparr>
            | None \<Rightarrow> st)) (\<lambda>_.
         op_bind sync_directory (\<lambda>_.
         op_bind sync_directory (\<lambda>_.
         op_bind (io_step ''delete GC marker''
            (\<lambda>st. st\<lparr>ff_unreferenced := hm_remove digest (ff_unreferenced st)\<rparr>)) (\<lambda>_.
         op_bind sync_directory (\<lambda>_.
           remove_trash ''delete GC trash'' digest))))))"

text \<open>One marker of the loop; the flag is set by \<open>break\<close>.\<close>

definition gc_candidate ::
  "(string \<Rightarrow> string) \<Rightarrow> gc_policy \<Rightarrow> gc_report \<times> bool \<Rightarrow> sha256_digest \<times> unreferenced_marker \<Rightarrow> (gc_report \<times> bool) fs_op" where
  "gc_candidate sha256_hex policy acc entry =
     (case (acc, entry) of ((report, stopped), (digest, marker)) \<Rightarrow>
        if stopped then op_return (report, True)
        else if um_released_at_ms marker > gp_unreferenced_before_ms policy then op_return (report, False)
        else
          op_bind (verify_object sha256_hex digest) (\<lambda>(metadata, _).
            if om_byte_length metadata \<noteq> um_byte_length marker
            then op_fail (EvidenceCorruptMetadata digest ''GC marker byte length differs'')
            else if (case gp_max_assets policy of Some maximum \<Rightarrow> gr_candidate_assets report \<ge> maximum | None \<Rightarrow> False)
            then op_return (report, True)
            else if (case gp_max_bytes policy of
                       Some maximum \<Rightarrow> saturating_add_u64 (gr_candidate_bytes report) (om_byte_length metadata) > maximum
                     | None \<Rightarrow> False)
            then op_return (report, False)
            else
              let report = report\<lparr>gr_candidate_assets := saturating_add_u64 (gr_candidate_assets report) 1,
                gr_candidate_bytes := saturating_add_u64 (gr_candidate_bytes report) (om_byte_length metadata)\<rparr>
              in if gp_dry_run policy then op_return (report, False)
                 else op_bind (gc_delete digest) (\<lambda>_.
                   op_return
                     (report\<lparr>gr_deleted_assets := saturating_add_u64 (gr_deleted_assets report) 1,
                        gr_deleted_bytes := saturating_add_u64 (gr_deleted_bytes report) (om_byte_length metadata)\<rparr>, False))))"

definition file_gc :: "(string \<Rightarrow> string) \<Rightarrow> nat \<Rightarrow> gc_policy \<Rightarrow> gc_report fs_op" where
  "file_gc sha256_hex now policy =
     op_bind (recover_gc_trash sha256_hex) (\<lambda>_.
     op_bind (recover_reference_state now) (\<lambda>_.
     op_bind rebuild_reference_index (\<lambda>_.
     op_bind indexed_referenced_digests (\<lambda>referenced.
     op_bind (io_access ''list GC markers'') (\<lambda>_.
     op_bind (op_gets ff_unreferenced) (\<lambda>entries.
     op_bind (op_fold (gc_marker referenced) [] entries) (\<lambda>markers.
     op_bind (op_fold (gc_candidate sha256_hex policy)
        (\<lparr>gr_examined_assets = length markers, gr_candidate_assets = 0, gr_candidate_bytes = 0,
          gr_deleted_assets = 0, gr_deleted_bytes = 0, gr_dry_run = gp_dry_run policy\<rparr>, False) markers) (\<lambda>(report, _).
       op_return report))))))))"

subsection \<open>Opening a store\<close>

definition check_header :: "store_header \<Rightarrow> evidence_error + unit" where
  "check_header header =
     (if sh_schema_version header \<noteq> STORE_VERSION
      then Inl (EvidenceUnsupportedStoreVersion (sh_schema_version header))
      else if sh_hash_algorithm header \<noteq> HASH_ALGORITHM
      then Inl (EvidenceCorruptStore ''unsupported Evidence Store hash algorithm'')
      else Inr ())"

definition check_header_if_present :: "unit fs_op" where
  "check_header_if_present =
     op_bind (op_gets ff_header) (\<lambda>header.
       case header of None \<Rightarrow> op_return ()
       | Some header \<Rightarrow> op_bind (io_access ''preflight store header'') (\<lambda>_. op_lift (check_header header)))"

definition initialize_header :: "unit fs_op" where
  "initialize_header =
     op_bind (op_gets ff_header) (\<lambda>header.
       case header of
         Some header \<Rightarrow> op_bind (io_access ''store header'') (\<lambda>_. op_lift (check_header header))
       | None \<Rightarrow>
           atomic_write_json (\<lambda>st. ff_header st \<noteq> None)
             (\<lambda>st. st\<lparr>ff_header := Some \<lparr>sh_schema_version = STORE_VERSION, sh_hash_algorithm = HASH_ALGORITHM\<rparr>\<rparr>)
             ''write store header'')"

definition remove_empty_session :: "bool \<Rightarrow> session_id \<Rightarrow> bool fs_op" where
  "remove_empty_session removed session_id =
     op_bind (op_gets (session_entries session_id)) (\<lambda>entries.
       if entries \<noteq> [] then op_return removed
       else
         op_bind (io_step ''remove empty session references''
            (\<lambda>st. st\<lparr>ff_references := hm_remove session_id (ff_references st)\<rparr>)) (\<lambda>_.
           op_return True))"

definition cleanup_atomic_temporaries :: "unit fs_op" where
  "cleanup_atomic_temporaries =
     op_bind (io_access ''list store root'') (\<lambda>_.
     op_bind (io_access ''list session references'') (\<lambda>_.
     op_bind (op_gets (\<lambda>st. map fst (ff_references st))) (\<lambda>sessions.
     op_bind (op_fold remove_empty_session False sessions) (\<lambda>removed.
       if removed then sync_directory else op_return ()))))"

definition valid_store_config :: "file_evidence_store_config \<Rightarrow> bool" where
  "valid_store_config config \<longleftrightarrow>
     \<not> (fc_max_asset_bytes config = 0 \<or> fc_max_references_per_session config = 0
        \<or> fc_max_concurrent_writes config = 0 \<or> fc_max_concurrent_writes config > SEMAPHORE_MAX_PERMITS)"

definition file_store_new :: "(string \<Rightarrow> string) \<Rightarrow> nat \<Rightarrow> file_evidence_store_config \<Rightarrow> unit fs_op" where
  "file_store_new sha256_hex now config =
     (if \<not> valid_store_config config
      then op_fail (EvidenceInvalidConfiguration
        ''filesystem Evidence Store limits are zero or exceed the runtime maximum'')
      else
        op_bind check_header_if_present (\<lambda>_.
        op_bind (io_access ''create store directory'') (\<lambda>_.
        op_bind (io_access ''lock evidence store'') (\<lambda>_.
        op_bind (op_modify (\<lambda>st. st\<lparr>ff_index := None, ff_config := config\<rparr>)) (\<lambda>_.
        op_bind cleanup_atomic_temporaries (\<lambda>_.
        op_bind initialize_header (\<lambda>_.
        op_bind (io_access ''remove abandoned staging'') (\<lambda>_.
        op_bind (recover_gc_trash sha256_hex) (\<lambda>_.
        op_bind rebuild_reference_index (\<lambda>_.
        op_bind (recover_released_sessions now) (\<lambda>_.
        op_bind (recover_reference_state now) (\<lambda>_.
          rebuild_reference_index))))))))))))"

end
