(* ===== verification/Evidence_Fs_Access.thy ===== *)
theory Evidence_Fs_Access
  imports Evidence_Store_Ops
begin

text \<open>
  Rules for the operations of the filesystem Evidence Store: which of them leave the disk alone,
  and triples for the accesses that change it, whose failure may come before or after the change.
\<close>

subsection \<open>Operations that only read\<close>

definition disk_of :: "file_store \<Rightarrow> file_store" where
  "disk_of st = st\<lparr>ff_faults := []\<rparr>"

definition reads :: "'a fs_op \<Rightarrow> bool" where
  "reads m \<longleftrightarrow> (\<forall>st. disk_of (snd (m st)) = disk_of st)"

lemma reads_bind:
  assumes "reads m" "\<And>x. reads (f x)"
  shows "reads (op_bind m f)"
  unfolding reads_def
proof
  fix st
  obtain r st1 where m: "m st = (r, st1)" by fastforce
  have "disk_of st1 = disk_of st" using assms(1) m unfolding reads_def by (metis snd_conv)
  then show "disk_of (snd (op_bind m f st)) = disk_of st"
    using assms(2) m by (cases r) (simp_all add: op_bind_def reads_def)
qed

lemma reads_simple:
  "reads (op_return x)" "reads (op_fail e)" "reads (op_gets g)" "reads (op_lift r)"
  by (simp_all add: reads_def op_defs)

lemma reads_access: "reads (io_access operation)"
  by (simp add: reads_def disk_of_def io_access_def io_step_def Let_def split: list.split io_fault.split)

lemma reads_if: "(b \<Longrightarrow> reads m) \<Longrightarrow> (\<not> b \<Longrightarrow> reads m') \<Longrightarrow> reads (if b then m else m')"
  by simp

lemma reads_option: "reads m \<Longrightarrow> (\<And>y. reads (f y)) \<Longrightarrow> reads (case x of None \<Rightarrow> m | Some y \<Rightarrow> f y)"
  by (cases x) simp_all

lemma reads_prod: "(\<And>a b. reads (f a b)) \<Longrightarrow> reads (case x of (a, b) \<Rightarrow> f a b)"
  by (cases x) simp

lemma reads_fold: "(\<And>acc x. reads (f acc x)) \<Longrightarrow> reads (op_fold f acc xs)"
  by (induction xs arbitrary: acc) (simp_all add: reads_simple reads_bind)

lemmas reads_rules = reads_bind reads_simple reads_access reads_if reads_option reads_prod reads_fold

lemma reads_scans:
  "reads (read_object_metadata d)" "reads (verify_object sha d)" "reads (verify_object_directory_sync sha dir d)"
  "reads (audit_reference s d m)" "reads (session_reference_count s)" "reads (count_references d)"
  "reads referenced_digests" "reads raw_referenced_digests" "reads scan_reference_index"
  "reads referenced_session_ids" "reads (indexed_reference_count d)" "reads (indexed_session_reference_count s)"
  "reads indexed_referenced_digests" "reads (ensure_session_open s)" "reads sync_directory"
proof -
  show 1: "reads (read_object_metadata d)" for d
    unfolding read_object_metadata_def by (intro reads_rules)
  show "reads (verify_object sha d)" unfolding verify_object_def by (intro reads_rules 1)
  show "reads (verify_object_directory_sync sha dir d)"
    unfolding verify_object_directory_sync_def by (intro reads_rules)
  show 2: "reads (audit_reference s d m)" for s d m unfolding audit_reference_def by (intro reads_rules 1)
  show 3: "reads (session_reference_count s)" for s unfolding session_reference_count_def by (intro reads_rules 2)
  show 4: "reads (count_references d)" for d unfolding count_references_def by (intro reads_rules 2)
  show 5: "reads referenced_digests" unfolding referenced_digests_def by (intro reads_rules 2)
  show "reads raw_referenced_digests"
    unfolding raw_referenced_digests_def raw_session_def raw_entry_def by (intro reads_rules)
  show "reads scan_reference_index"
    unfolding scan_reference_index_def index_session_def index_entry_def Let_def by (intro reads_rules 2)
  show "reads referenced_session_ids" unfolding referenced_session_ids_def by (intro reads_rules 3)
  show "reads (indexed_reference_count d)" unfolding indexed_reference_count_def by (intro reads_rules 4)
  show "reads (indexed_session_reference_count s)" unfolding indexed_session_reference_count_def by (intro reads_rules 3)
  show "reads indexed_referenced_digests" unfolding indexed_referenced_digests_def by (intro reads_rules 5)
  show "reads (ensure_session_open s)" unfolding ensure_session_open_def by (intro reads_rules)
  show "reads sync_directory" unfolding sync_directory_def by (rule reads_access)
qed

text \<open>Conditions on the disk do not look at the faults to come.\<close>

definition fault_free :: "(file_store \<Rightarrow> bool) \<Rightarrow> bool" where
  "fault_free P \<longleftrightarrow> (\<forall>st f. P (st\<lparr>ff_faults := f\<rparr>) = P st)"

lemma fault_free_disk: "fault_free P \<Longrightarrow> disk_of st = disk_of st' \<Longrightarrow> P st = P st'"
  unfolding fault_free_def disk_of_def by metis

lemma hoare_reads: "reads m \<Longrightarrow> fault_free P \<Longrightarrow> (\<And>st. P st \<Longrightarrow> E st) \<Longrightarrow> hoare P m (\<lambda>_. P) E"
  by (rule hoareI) (metis fault_free_disk reads_def snd_conv)+

lemma hoare_io_step:
  assumes "fault_free P" "\<And>st. P st \<Longrightarrow> E st" "\<And>st. P st \<Longrightarrow> Q () (effect st)"
  shows "hoare P (io_step operation effect) Q E"
proof (rule hoareI)
  fix st x st'
  assume "P st" "io_step operation effect st = (Inr x, st')"
  then show "Q x st'" using assms(1,3)
    by (auto simp: io_step_def fault_free_def Let_def split: list.splits io_fault.splits)
next
  fix st e st'
  assume "P st" "io_step operation effect st = (Inl e, st')"
  then show "E st'" using assms(1,2)
    by (auto simp: io_step_def fault_free_def Let_def split: list.splits io_fault.splits)
qed

lemma hoare_io_remove_all:
  assumes "fault_free P" "\<And>st. P st \<Longrightarrow> E st" "\<And>st. P st \<Longrightarrow> Q () (effect st)" "\<And>st keep. P st \<Longrightarrow> E (partly keep st)"
  shows "hoare P (io_remove_all operation partly effect) Q E"
proof -
  have step: "hoare P (io_step operation effect) Q E" by (rule hoare_io_step) (use assms in auto)
  show ?thesis
  proof (rule hoareI)
    fix st x st'
    assume *: "P st" "io_remove_all operation partly effect st = (Inr x, st')"
    then have "io_step operation effect st = (Inr x, st')"
      by (auto simp: io_remove_all_def split: list.splits io_fault.splits)
    with *(1) show "Q x st'" using hoareD [OF step] by blast
  next
    fix st e st'
    assume *: "P st" "io_remove_all operation partly effect st = (Inl e, st')"
    then have "io_step operation effect st = (Inl e, st') \<or> (\<exists>keep f. st' = partly keep (st\<lparr>ff_faults := f\<rparr>))"
      by (auto simp: io_remove_all_def split: list.splits io_fault.splits)
    with *(1) show "E st'"
      using hoareD [OF step] assms(1,4) unfolding fault_free_def by blast
  qed
qed

lemma hoare_bind_gets:
  assumes "\<And>x. hoare (\<lambda>st. P st \<and> f st = x) (g x) Q E"
  shows "hoare P (op_bind (op_gets f) g) Q E"
  by (rule hoare_bind [OF assms]) (simp add: hoare_def op_gets_def)

lemma hoare_bind_reads:
  assumes "reads m" "fault_free P" "\<And>st. P st \<Longrightarrow> E st" "\<And>x. hoare P (f x) Q E"
  shows "hoare P (op_bind m f) Q E"
  by (rule hoare_bind [OF assms(4)]) (rule hoare_reads [OF assms(1-3)])

lemma hoare_atomic_write:
  assumes "fault_free P" "\<And>st. P st \<Longrightarrow> E st" "\<And>st. P st \<Longrightarrow> present st \<Longrightarrow> Q () st"
    and "\<And>st. P st \<Longrightarrow> \<not> present st \<Longrightarrow> Q () (write st)" "fault_free (Q ())" "\<And>st. Q () st \<Longrightarrow> E st" "fault_free present"
  shows "hoare P (atomic_write_json present write operation) Q E"
  unfolding atomic_write_json_def
proof (rule hoare_bind_gets)
  fix b
  show "hoare (\<lambda>st. P st \<and> present st = b)
     (if b then op_return () else op_bind (io_access operation) (\<lambda>_. op_bind (io_step operation write) (\<lambda>_. sync_directory))) Q E"
  proof (cases b)
    case True
    then show ?thesis using assms(3) by (auto simp: hoare_def op_return_def)
  next
    case False
    have free: "fault_free (\<lambda>st. P st \<and> present st = b)" using assms(1,7) by (simp add: fault_free_def)
    show ?thesis unfolding if_not_P [OF False]
    proof (rule hoare_bind_reads [OF reads_access free])
      show "hoare (\<lambda>st. P st \<and> present st = b) (op_bind (io_step operation write) (\<lambda>_. sync_directory)) Q E"
      proof (rule hoare_bind)
        show "hoare (Q ()) sync_directory Q E"
          using hoare_reads [OF reads_scans(15) assms(5), of E] assms(6) by simp
        show "hoare (\<lambda>st. P st \<and> present st = b) (io_step operation write) (\<lambda>_. Q ()) E"
          using assms(2,4) False by (intro hoare_io_step [OF free]) auto
      qed
    qed (use assms(2) in auto)
  qed
qed

end
