(* ===== verification/Evidence_Fs_Invariant.thy ===== *)
theory Evidence_Fs_Invariant
  imports Evidence_Fs_Access
begin

text \<open>
  The invariant of the filesystem Evidence Store, kept by every operation at every point where the
  filesystem may fail: the content of every object has the digest it is stored under, the trash and
  the objects are disjoint, and every reference has its object with the recorded media type.

  \<open>store_inv_fs\<close> also carries what callers were told: \<open>A\<close> holds the references that \<open>put\<close> and
  \<open>attach\<close> returned, \<open>R\<close> the Sessions whose release was requested.
\<close>

subsection \<open>The invariant\<close>

abbreviation reference :: "file_store \<Rightarrow> session_id \<Rightarrow> sha256_digest \<Rightarrow> reference_marker option" where
  "reference st s d \<equiv> map_of (session_entries s st) d"

definition referenced :: "file_store \<Rightarrow> sha256_digest set" where
  "referenced st = {d. \<exists>s. reference st s d \<noteq> None}"

definition object_ok :: "(string \<Rightarrow> string) \<Rightarrow> sha256_digest \<Rightarrow> evidence_object \<Rightarrow> bool" where
  "object_ok sha d obj \<longleftrightarrow>
     validate_object_metadata (eo_meta obj) d = Inr () \<and> length (eo_data obj) = om_byte_length (eo_meta obj) \<and>
     digest_from_hash sha (eo_data obj) = Inr d"

definition has_object :: "sha256_digest \<Rightarrow> string \<Rightarrow> file_store \<Rightarrow> bool" where
  "has_object d media_type st \<longleftrightarrow> (\<exists>obj. map_of (ff_objects st) d = Some obj \<and> om_media_type (eo_meta obj) = media_type)"

definition objects_ok :: "(string \<Rightarrow> string) \<Rightarrow> file_store \<Rightarrow> bool" where
  "objects_ok sha st \<longleftrightarrow>
     (\<forall>d obj. map_of (ff_objects st) d = Some obj \<longrightarrow> object_ok sha d obj) \<and>
     (\<forall>d obj. map_of (ff_trash st) d = Some (Some obj) \<longrightarrow> object_ok sha d obj) \<and>
     (\<forall>d. map_of (ff_trash st) d \<noteq> None \<longrightarrow> map_of (ff_objects st) d = None)"

definition references_ok :: "file_store \<Rightarrow> bool" where
  "references_ok st \<longleftrightarrow>
     bt_wf (ff_references st) \<and> (\<forall>s. bt_wf (session_entries s st)) \<and>
     (\<forall>s d m. reference st s d = Some m \<longrightarrow>
        validate_reference_marker m s d (rm_media_type m) = Inr () \<and> has_object d (rm_media_type m) st)"

definition markers_ok :: "file_store \<Rightarrow> bool" where
  "markers_ok st \<longleftrightarrow>
     (\<forall>s m. map_of (ff_released st) s = Some m \<longrightarrow> validate_released_session_marker m s = Inr ()) \<and>
     (\<forall>d m. map_of (ff_unreferenced st) d = Some m \<longrightarrow> validate_unreferenced_marker m d = Inr ())"

definition refers :: "session_id \<Rightarrow> sha256_digest \<Rightarrow> string \<Rightarrow> file_store \<Rightarrow> bool" where
  "refers s d media_type st \<longleftrightarrow> (\<exists>m. reference st s d = Some m \<and> rm_media_type m = media_type)"

definition told :: "(session_id \<times> sha256_digest \<times> string) set \<Rightarrow> session_id set \<Rightarrow> file_store \<Rightarrow> bool" where
  "told A R st \<longleftrightarrow>
     (\<forall>s d media_type. (s, d, media_type) \<in> A \<longrightarrow> s \<notin> R \<longrightarrow> refers s d media_type st) \<and>
     (\<forall>s. map_of (ff_released st) s \<noteq> None \<longrightarrow> s \<in> R)"

definition store_inv_fs ::
  "(string \<Rightarrow> string) \<Rightarrow> (session_id \<times> sha256_digest \<times> string) set \<Rightarrow> session_id set \<Rightarrow> file_store \<Rightarrow> bool" where
  "store_inv_fs sha A R st \<longleftrightarrow> objects_ok sha st \<and> references_ok st \<and> markers_ok st \<and> told A R st"

lemmas inv_parts = store_inv_fs_def objects_ok_def references_ok_def markers_ok_def told_def has_object_def refers_def

lemma session_entries_simps [simp]:
  "session_entries s (st\<lparr>ff_header := h\<rparr>) = session_entries s st"
  "session_entries s (st\<lparr>ff_objects := x1\<rparr>) = session_entries s st"
  "session_entries s (st\<lparr>ff_released := x2\<rparr>) = session_entries s st"
  "session_entries s (st\<lparr>ff_unreferenced := x3\<rparr>) = session_entries s st"
  "session_entries s (st\<lparr>ff_trash := x4\<rparr>) = session_entries s st"
  "session_entries s (st\<lparr>ff_index := x5\<rparr>) = session_entries s st"
  "session_entries s (st\<lparr>ff_config := x6\<rparr>) = session_entries s st"
  "session_entries s (st\<lparr>ff_faults := x7\<rparr>) = session_entries s st"
  by (simp_all add: session_entries_def)

lemma session_entries_references [simp]:
  "session_entries s (st\<lparr>ff_references := bt_insert s' es (ff_references st)\<rparr>) = (if s = s' then es else session_entries s st)"
  "session_entries s (st\<lparr>ff_references := hm_remove s' (ff_references st)\<rparr>) = (if s = s' then [] else session_entries s st)"
  by (simp_all add: session_entries_def map_of_delete_fun)

lemma store_inv_fs_irrelevant [simp]:
  "store_inv_fs sha A R (st\<lparr>ff_faults := f\<rparr>) = store_inv_fs sha A R st"
  "store_inv_fs sha A R (st\<lparr>ff_index := i\<rparr>) = store_inv_fs sha A R st"
  "store_inv_fs sha A R (st\<lparr>ff_index := i, ff_config := c\<rparr>) = store_inv_fs sha A R st"
  "store_inv_fs sha A R (st\<lparr>ff_header := h\<rparr>) = store_inv_fs sha A R st"
  by (simp_all add: inv_parts)

lemma fault_free_inv [simp]: "fault_free (store_inv_fs sha A R)"
  by (simp add: fault_free_def)

lemma fault_free_conj: "fault_free P \<Longrightarrow> fault_free Q \<Longrightarrow> fault_free (\<lambda>st. P st \<and> Q st)"
  by (simp add: fault_free_def)

subsection \<open>What the scans find\<close>

lemma entries_in_references:
  "bt_wf (ff_references st) \<Longrightarrow> (s, es) \<in> set (ff_references st) \<longleftrightarrow> map_of (ff_references st) s = Some es"
  using bt_wf_distinct by (metis map_of_eq_Some_iff)

lemma reference_entry:
  "reference st s d \<noteq> None \<longleftrightarrow> (\<exists>es. map_of (ff_references st) s = Some es \<and> d \<in> fst ` set es)"
proof (cases "map_of (ff_references st) s")
  case None
  then show ?thesis by (simp add: session_entries_def)
next
  case (Some es)
  then show ?thesis using map_of_eq_None_iff [of es d] by (simp add: session_entries_def)
qed

lemma referenced_eq:
  assumes "references_ok st"
  shows "referenced st = (\<Union>(s, es) \<in> set (ff_references st). fst ` set es)"
proof -
  have wf: "bt_wf (ff_references st)" using assms by (simp add: references_ok_def)
  show ?thesis using entries_in_references [OF wf] unfolding referenced_def reference_entry by fast
qed

text \<open>A loop whose steps collect the keys \<open>g x\<close> of its items collects those of all of them.\<close>

lemma op_fold_collects:
  assumes "\<And>acc x st acc' st'. f acc x st = (Inr acc', st') \<Longrightarrow> K acc' = K acc \<union> g x"
  shows "op_fold f acc xs st = (Inr acc', st') \<Longrightarrow> K acc' = K acc \<union> (\<Union>x \<in> set xs. g x)"
proof (induction xs arbitrary: acc st)
  case Nil
  then show ?case by (simp add: op_return_def)
next
  case (Cons x xs)
  then obtain acc1 st1 where "f acc x st = (Inr acc1, st1)" "op_fold f acc1 xs st1 = (Inr acc', st')"
    by (auto simp: op_bind_Inr)
  with assms Cons.IH show ?case by fastforce
qed

lemma readsD: "reads m \<Longrightarrow> m st = (r, st') \<Longrightarrow> fault_free P \<Longrightarrow> P st' = P st"
  by (rule fault_free_disk) (auto simp: reads_def dest: spec [of _ st])

lemma reads_references: "reads m \<Longrightarrow> m st = (r, st') \<Longrightarrow> ff_references st' = ff_references st"
  using readsD [of m st r st' "\<lambda>st'. ff_references st' = ff_references st"] by (simp add: fault_free_def)

lemma raw_session_found:
  assumes "raw_session acc session st = (Inr ds, st')"
  shows "set ds = set acc \<union> fst ` set (snd session)"
proof -
  obtain s es where session: "session = (s, es)" by fastforce
  with assms obtain st1 where "op_fold (raw_entry s) acc es st1 = (Inr ds, st')"
    by (auto simp: raw_session_def op_bind_Inr)
  then have "set ds = set acc \<union> (\<Union>e \<in> set es. {fst e})"
    by (rule op_fold_collects [rotated])
      (auto simp: raw_entry_def op_bind_Inr op_return_def split: prod.splits)
  with session show ?thesis by auto
qed

lemma raw_referenced_found:
  assumes "raw_referenced_digests st = (Inr ds, st')" "references_ok st"
  shows "set ds = referenced st"
proof -
  from assms(1) obtain st1 u where st1: "io_access ''list session references'' st = (Inr u, st1)"
    and run: "op_fold raw_session [] (ff_references st1) st1 = (Inr ds, st')"
    by (auto simp: raw_referenced_digests_def op_bind_Inr op_gets_def)
  from run have "set ds = set [] \<union> (\<Union>e \<in> set (ff_references st1). fst ` set (snd e))"
    by (rule op_fold_collects [rotated]) (rule raw_session_found)
  then show ?thesis
    using reads_references [OF reads_access st1] referenced_eq [OF assms(2)] by (auto simp: case_prod_beta)
qed

abbreviation indexed :: "reference_index \<Rightarrow> sha256_digest set" where
  "indexed index \<equiv> fst ` set (ri_by_digest index)"

lemma index_session_found:
  assumes "index_session index session st = (Inr index', st')"
  shows "indexed index' = indexed index \<union> fst ` set (snd session)"
proof -
  obtain s es where session: "session = (s, es)" by fastforce
  with assms obtain st1 acc where run: "op_fold (index_entry s) (index, 0) es st1 = (Inr acc, st')"
    and index': "indexed index' = indexed (fst acc)"
    by (auto simp: index_session_def op_bind_Inr op_return_def split: prod.splits if_splits)
  have "indexed (fst acc) = indexed (fst (index, 0::nat)) \<union> (\<Union>e \<in> set es. {fst e})"
    by (rule op_fold_collects [where K = "\<lambda>acc. indexed (fst acc)", OF _ run])
      (auto simp: index_entry_def op_bind_Inr op_return_def Let_def split: prod.splits)
  moreover have "(\<Union>e \<in> set es. {fst e}) = fst ` set es" by auto
  ultimately show ?thesis unfolding session index' fst_conv snd_conv by (simp only:)
qed

lemma scan_found:
  assumes "scan_reference_index st = (Inr index, st')" "references_ok st"
  shows "indexed index = referenced st"
proof -
  from assms(1) obtain st1 u where st1: "io_access ''list session references'' st = (Inr u, st1)"
    and run: "op_fold index_session reference_index_default (ff_references st1) st1 = (Inr index, st')"
    by (auto simp: scan_reference_index_def op_bind_Inr op_gets_def)
  have "indexed index = indexed reference_index_default \<union> (\<Union>e \<in> set (ff_references st1). fst ` set (snd e))"
    by (rule op_fold_collects [OF _ run]) (rule index_session_found)
  then show ?thesis
    using reads_references [OF reads_access st1] referenced_eq [OF assms(2)]
    by (auto simp: case_prod_beta reference_index_default_def)
qed

end
