(* ===== verification/Evidence_Fs_Effects.thy ===== *)
theory Evidence_Fs_Effects
  imports Evidence_Fs_Invariant
begin

text \<open>
  The changes the filesystem Evidence Store makes to its disk, each under the condition that makes
  it keep the invariant, and the recovery of the trash and of the markers built from them.
\<close>

subsection \<open>Changes of the disk\<close>

lemma inv_drop_marker: "store_inv_fs sha A R st \<Longrightarrow> store_inv_fs sha A R (st\<lparr>ff_unreferenced := hm_remove d (ff_unreferenced st)\<rparr>)"
  by (simp add: inv_parts map_of_delete_fun)

lemma inv_add_marker:
  "store_inv_fs sha A R st \<Longrightarrow> validate_unreferenced_marker m d = Inr () \<Longrightarrow>
   store_inv_fs sha A R (st\<lparr>ff_unreferenced := bt_insert d m (ff_unreferenced st)\<rparr>)"
  by (simp add: inv_parts)

lemma inv_drop_trash: "store_inv_fs sha A R st \<Longrightarrow> store_inv_fs sha A R (st\<lparr>ff_trash := hm_remove d (ff_trash st)\<rparr>)"
  by (simp add: inv_parts map_of_delete_fun)

lemma inv_partial_trash:
  "store_inv_fs sha A R st \<Longrightarrow> map_of (ff_objects st) d = None \<Longrightarrow>
   store_inv_fs sha A R (st\<lparr>ff_trash := bt_insert d None (ff_trash st)\<rparr>)"
  by (simp add: inv_parts)

lemma inv_unowned: "store_inv_fs sha A R st \<Longrightarrow> map_of (ff_objects st) d = None \<Longrightarrow> reference st s d = None"
  by (cases "reference st s d") (auto simp: inv_parts, metis option.distinct(1))

lemma inv_publish:
  assumes "store_inv_fs sha A R st" "object_ok sha d obj" "map_of (ff_objects st) d = None" "map_of (ff_trash st) d = None"
  shows "store_inv_fs sha A R (st\<lparr>ff_objects := bt_insert d obj (ff_objects st)\<rparr>)"
  using assms inv_unowned [OF assms(1,3)] by (simp add: inv_parts)

lemma inv_restore:
  assumes "store_inv_fs sha A R st" "map_of (ff_trash st) d = Some (Some obj)"
  shows "store_inv_fs sha A R (st\<lparr>ff_objects := bt_insert d obj (ff_objects st), ff_trash := hm_remove d (ff_trash st)\<rparr>)"
proof -
  have "object_ok sha d obj" "map_of (ff_objects st) d = None"
    using assms by (auto simp: store_inv_fs_def objects_ok_def)
  then have "store_inv_fs sha A R (st\<lparr>ff_trash := hm_remove d (ff_trash st), ff_objects := bt_insert d obj (ff_objects st)\<rparr>)"
    using inv_publish [OF inv_drop_trash [OF assms(1), of d], of d obj] by (simp add: map_of_delete_fun)
  moreover have "st\<lparr>ff_trash := y, ff_objects := x\<rparr> = st\<lparr>ff_objects := x, ff_trash := y\<rparr>" for x y
    by simp
  ultimately show ?thesis by metis
qed

lemma inv_trash_object:
  assumes "store_inv_fs sha A R st" "map_of (ff_objects st) d = Some obj" "d \<notin> referenced st"
  shows "store_inv_fs sha A R (st\<lparr>ff_objects := hm_remove d (ff_objects st), ff_trash := bt_insert d (Some obj) (ff_trash st)\<rparr>)"
  using assms by (simp add: inv_parts referenced_def map_of_delete_fun)

lemma inv_add_reference:
  assumes "store_inv_fs sha A R st" "has_object d (rm_media_type m) st"
    and "validate_reference_marker m s d (rm_media_type m) = Inr ()" "reference st s d = None"
  shows "store_inv_fs sha A R (st\<lparr>ff_references := bt_insert s (bt_insert d m (session_entries s st)) (ff_references st)\<rparr>)"
proof -
  have "s \<in> R" if "(s, d, media_type) \<in> A" for media_type
    using assms(1,4) that by (force simp: store_inv_fs_def told_def refers_def)
  then show ?thesis using assms by (auto simp: inv_parts bt_wf_insert)
qed

lemma bt_wf_Nil: "bt_wf []"
  by (simp add: bt_wf_def)

lemma no_directory: "\<not> session_directory_exists s st \<Longrightarrow> session_entries s st = []"
  by (simp add: session_directory_exists_def session_entries_def)

lemma inv_same_entries:
  "store_inv_fs sha A R st \<Longrightarrow> bt_wf references \<Longrightarrow>
   (\<And>s. session_entries s (st\<lparr>ff_references := references\<rparr>) = session_entries s st) \<Longrightarrow>
   store_inv_fs sha A R (st\<lparr>ff_references := references\<rparr>)"
  by (simp add: inv_parts)

lemma inv_make_session:
  "store_inv_fs sha A R st \<Longrightarrow> \<not> session_directory_exists s st \<Longrightarrow>
   store_inv_fs sha A R (st\<lparr>ff_references := bt_insert s [] (ff_references st)\<rparr>)"
  by (rule inv_same_entries) (auto simp: references_ok_def store_inv_fs_def bt_wf_insert no_directory)

lemma inv_remove_session:
  assumes "store_inv_fs sha A R st" "s \<in> R \<or> session_entries s st = []"
  shows "store_inv_fs sha A R (st\<lparr>ff_references := hm_remove s (ff_references st)\<rparr>)"
  using assms(2)
proof
  show ?thesis if "s \<in> R" using assms(1) that by (auto simp: inv_parts bt_wf_remove bt_wf_Nil)
  show ?thesis if "session_entries s st = []"
    by (rule inv_same_entries [OF assms(1)]) (use assms(1) that in \<open>auto simp: references_ok_def store_inv_fs_def bt_wf_remove\<close>)
qed

lemma bt_wf_filter: "bt_wf m \<Longrightarrow> bt_wf (filter P m)"
  by (induction m) (auto simp: bt_wf_def)

lemma map_of_filter_key: "map_of (filter (\<lambda>e. fst e \<in> K) m) k = (if k \<in> K then map_of m k else None)"
  by (induction m) auto

lemma inv_partial_session:
  "store_inv_fs sha A R st \<Longrightarrow> s \<in> R \<Longrightarrow>
   store_inv_fs sha A R (st\<lparr>ff_references := bt_insert s (filter (\<lambda>e. fst e \<in> K) (session_entries s st)) (ff_references st)\<rparr>)"
  by (auto simp: inv_parts bt_wf_insert bt_wf_filter map_of_filter_key split: if_splits)

lemma inv_release:
  "store_inv_fs sha A R st \<Longrightarrow> s \<in> R \<Longrightarrow> validate_released_session_marker m s = Inr () \<Longrightarrow>
   store_inv_fs sha A R (st\<lparr>ff_released := bt_insert s m (ff_released st)\<rparr>)"
  by (auto simp: inv_parts)

subsection \<open>Triples for the invariant\<close>

lemma keeps_reads: "reads m \<Longrightarrow> keeps (store_inv_fs sha A R) m"
  by (rule hoare_reads) simp_all

lemma keeps_io_step:
  "(\<And>st. store_inv_fs sha A R st \<Longrightarrow> store_inv_fs sha A R (effect st)) \<Longrightarrow> keeps (store_inv_fs sha A R) (io_step operation effect)"
  by (rule hoare_io_step) simp_all

lemma keeps_atomic_write:
  assumes "\<And>st. store_inv_fs sha A R st \<Longrightarrow> store_inv_fs sha A R (write st)" "fault_free present"
  shows "keeps (store_inv_fs sha A R) (atomic_write_json present write operation)"
  by (rule hoare_atomic_write) (simp_all add: assms)

lemma keeps_access: "keeps (store_inv_fs sha A R) (io_access operation)"
  by (rule keeps_reads) (rule reads_access)

lemmas keeps_scans = reads_scans [THEN keeps_reads]

lemmas keeps_store = keeps_rules keeps_access keeps_scans

subsection \<open>Markers of unreferenced objects\<close>

lemma keeps_remove_marker: "keeps (store_inv_fs sha A R) (remove_unreferenced_marker_if_present d)"
  unfolding remove_unreferenced_marker_if_present_def by (intro keeps_store keeps_io_step inv_drop_marker)

lemma keeps_write_marker: "keeps (store_inv_fs sha A R) (write_unreferenced_marker operation d n t)"
  unfolding write_unreferenced_marker_def
  by (rule keeps_atomic_write) (auto intro!: inv_add_marker simp: validate_unreferenced_marker_def fault_free_def)

lemma keeps_ensure_marker: "keeps (store_inv_fs sha A R) (ensure_unreferenced_marker d n t)"
  unfolding ensure_unreferenced_marker_def by (intro keeps_store keeps_write_marker)

lemma keeps_mark_unowned: "keeps (store_inv_fs sha A R) (mark_unreferenced_if_unowned d n t)"
  unfolding mark_unreferenced_if_unowned_def by (intro keeps_store keeps_ensure_marker)

lemma keeps_recover_references: "keeps (store_inv_fs sha A R) (recover_reference_state now)"
  unfolding recover_reference_state_def check_referenced_object_def mark_orphan_def drop_dangling_marker_def
  by (intro keeps_store keeps_write_marker keeps_io_step inv_drop_marker)

lemma keeps_rebuild: "keeps (store_inv_fs sha A R) rebuild_reference_index"
  unfolding rebuild_reference_index_def
  by (intro keeps_store) (simp add: hoare_def op_modify_def)

lemma keeps_update_index: "keeps (store_inv_fs sha A R) (update_index f)"
  by (simp add: update_index_def hoare_def op_modify_def)

subsection \<open>The trash\<close>

lemma hoare_remove_trash:
  "hoare (\<lambda>st. store_inv_fs sha A R st \<and> map_of (ff_objects st) d = None) (remove_trash operation d)
     (\<lambda>_ st. store_inv_fs sha A R st \<and> map_of (ff_trash st) d = None) (store_inv_fs sha A R)"
  unfolding remove_trash_def
proof (rule hoare_bind)
  show "hoare (\<lambda>st. store_inv_fs sha A R st \<and> map_of (ff_trash st) d = None) sync_directory
    (\<lambda>_ st. store_inv_fs sha A R st \<and> map_of (ff_trash st) d = None) (store_inv_fs sha A R)"
    by (rule hoare_reads [OF reads_scans(15)]) (simp_all add: fault_free_def)
qed (rule hoare_io_remove_all, auto intro: inv_drop_trash inv_partial_trash simp: map_of_delete_fun fault_free_def)

lemma hoare_split: "(b \<Longrightarrow> hoare P m Q E) \<Longrightarrow> (\<not> b \<Longrightarrow> hoare P m' Q E) \<Longrightarrow> hoare P (if b then m else m') Q E"
  by simp

lemma hoare_done: "(\<And>st. P st \<Longrightarrow> Q x st) \<Longrightarrow> hoare P (op_return x) Q E"
  by (simp add: hoare_def op_return_def)

lemma hoare_remove_marker_frame:
  assumes "fault_free P" "\<And>st x. P (st\<lparr>ff_unreferenced := x\<rparr>) = P st"
  shows "hoare (\<lambda>st. store_inv_fs sha A R st \<and> P st) (remove_unreferenced_marker_if_present d)
     (\<lambda>_ st. store_inv_fs sha A R st \<and> P st) (store_inv_fs sha A R)"
  unfolding remove_unreferenced_marker_if_present_def
proof (rule hoare_bind_gets, goal_cases)
  case (1 marker)
  have free: "fault_free (\<lambda>st. store_inv_fs sha A R st \<and> P st)" by (rule fault_free_conj) (simp_all add: assms)
  have "hoare (\<lambda>st. store_inv_fs sha A R st \<and> P st)
     (if marker = None then op_return ()
      else op_bind (io_step ''remove GC marker'' (\<lambda>st. st\<lparr>ff_unreferenced := hm_remove d (ff_unreferenced st)\<rparr>)) (\<lambda>_. sync_directory))
     (\<lambda>_ st. store_inv_fs sha A R st \<and> P st) (store_inv_fs sha A R)"
    by (intro hoare_split hoare_done hoare_bind [OF hoare_reads [OF reads_scans(15) free] hoare_io_step [OF free]])
      (auto intro: inv_drop_marker simp: assms)
  then show ?case by (rule hoare_pre) simp
qed

lemma hoare_False: "(\<And>st. \<not> P st) \<Longrightarrow> hoare P m Q E"
  by (simp add: hoare_def)

lemma op_bind_fail: "op_bind (op_fail e) f = op_fail e"
  by (simp add: fun_eq_iff op_defs)

lemma hoare_restore:
  "hoare (\<lambda>st. store_inv_fs sha A R st \<and> map_of (ff_trash st) d = Some (Some obj))
     (io_step operation (\<lambda>st. case map_of (ff_trash st) d of
        Some (Some object) \<Rightarrow> st\<lparr>ff_objects := bt_insert d object (ff_objects st), ff_trash := hm_remove d (ff_trash st)\<rparr>
      | _ \<Rightarrow> st))
     (\<lambda>_ st. store_inv_fs sha A R st \<and> map_of (ff_trash st) d = None) (store_inv_fs sha A R)"
  by (rule hoare_io_step) (auto intro: inv_restore simp: map_of_delete_fun fault_free_def)

lemma free_trash: "fault_free (\<lambda>st. store_inv_fs sha A R st \<and> G (map_of (ff_trash st) d))"
  by (simp add: fault_free_def)

lemma hoare_recover_trash_entry:
  "hoare (store_inv_fs sha A R) (recover_gc_trash_entry sha d owned)
     (\<lambda>_ st. store_inv_fs sha A R st \<and> map_of (ff_trash st) d = None) (store_inv_fs sha A R)"
  unfolding recover_gc_trash_entry_def
proof (rule hoare_bind_gets, rule hoare_bind_gets, goal_cases)
  case (1 trash normal)
  consider "trash = None" | dir live where "trash = Some dir" "normal = Some live"
    | "trash = Some None" "normal = None" "owned" | obj where "trash = Some (Some obj)" "normal = None" "owned"
    | dir where "trash = Some dir" "normal = None" "\<not> owned"
    by (cases trash; cases normal; cases owned) auto
  then show ?case
  proof cases
    case 1
    then show ?thesis by (auto simp: hoare_def op_return_def)
  next
    case 2
    then show ?thesis by (intro hoare_False) (auto simp: store_inv_fs_def objects_ok_def)
  next
    case 3
    then show ?thesis by (auto simp: verify_object_directory_sync_def op_bind_fail hoare_def op_fail_def)
  next
    case (4 obj)
    have frame: "hoare (\<lambda>st. store_inv_fs sha A R st \<and> map_of (ff_trash st) d = None)
       (remove_unreferenced_marker_if_present d)
       (\<lambda>_ st. store_inv_fs sha A R st \<and> map_of (ff_trash st) d = None) (store_inv_fs sha A R)"
      by (rule hoare_remove_marker_frame) (simp_all add: fault_free_def)
    have "hoare (\<lambda>st. store_inv_fs sha A R st \<and> map_of (ff_trash st) d = Some (Some obj))
       (op_bind (verify_object_directory_sync sha (Some obj) d) (\<lambda>_.
        op_bind (io_access ''create store directory'') (\<lambda>_.
        op_bind (io_step ''restore referenced GC object'' (\<lambda>st. case map_of (ff_trash st) d of
           Some (Some object) \<Rightarrow> st\<lparr>ff_objects := bt_insert d object (ff_objects st), ff_trash := hm_remove d (ff_trash st)\<rparr>
         | _ \<Rightarrow> st)) (\<lambda>_.
        op_bind sync_directory (\<lambda>_. op_bind sync_directory (\<lambda>_. remove_unreferenced_marker_if_present d))))))
       (\<lambda>_ st. store_inv_fs sha A R st \<and> map_of (ff_trash st) d = None) (store_inv_fs sha A R)"
      by (intro hoare_bind_reads reads_scans reads_access free_trash hoare_bind [OF _ hoare_restore] frame) auto
    then show ?thesis unfolding 4(1,2) option.case if_P [OF 4(3)] by (rule hoare_pre) auto
  next
    case (5 dir)
    have "hoare (\<lambda>st. store_inv_fs sha A R st \<and> map_of (ff_objects st) d = None)
       (op_bind (remove_unreferenced_marker_if_present d) (\<lambda>_. remove_trash ''finish GC trash deletion'' d))
       (\<lambda>_ st. store_inv_fs sha A R st \<and> map_of (ff_trash st) d = None) (store_inv_fs sha A R)"
      by (rule hoare_bind, rule hoare_remove_trash, rule hoare_remove_marker_frame) (simp_all add: fault_free_def)
    then show ?thesis unfolding 5(1,2) option.case if_not_P [OF 5(3)] by (rule hoare_pre) auto
  qed
qed

lemma keeps_recover_trash_entry: "keeps (store_inv_fs sha A R) (recover_gc_trash_entry sha d owned)"
  by (rule hoare_weaken [OF hoare_recover_trash_entry]) auto

lemma keeps_recover_trash: "keeps (store_inv_fs sha A R) (recover_gc_trash sha)"
  unfolding recover_gc_trash_def by (intro keeps_store keeps_recover_trash_entry)

end
