(* ===== verification/Evidence_Fs_Keeps.thy ===== *)
theory Evidence_Fs_Keeps
  imports Evidence_Fs_Effects
begin

text \<open>
  Every operation of the filesystem Evidence Store keeps the invariant, whether it succeeds or the
  filesystem fails at any of its accesses; and an acknowledged \<open>put\<close> or \<open>attach\<close> leaves its
  reference on the disk.
\<close>

subsection \<open>Released Sessions\<close>

lemma hoare_fact: "(\<And>st. P st \<Longrightarrow> C) \<Longrightarrow> (C \<Longrightarrow> hoare P m Q E) \<Longrightarrow> hoare P m Q E"
  unfolding hoare_def by blast

lemma keeps_persist_release:
  assumes "s \<in> R"
  shows "keeps (store_inv_fs sha A R) (persist_session_release s t)"
  unfolding persist_session_release_def
  by (intro keeps_store keeps_atomic_write)
    (auto intro!: inv_release simp: assms validate_released_session_marker_def fault_free_def)

lemma keeps_release_locked:
  assumes "s \<in> R"
  shows "keeps (store_inv_fs sha A R) (release_references_locked now s t)"
proof -
  have remove: "keeps (store_inv_fs sha A R) (io_remove_all ''remove session references''
     (\<lambda>keep st. st\<lparr>ff_references :=
        bt_insert s (filter (\<lambda>e. fst e \<in> set keep) (session_entries s st)) (ff_references st)\<rparr>)
     (\<lambda>st. st\<lparr>ff_references := hm_remove s (ff_references st)\<rparr>))"
    by (rule hoare_io_remove_all) (auto intro: inv_partial_session inv_remove_session simp: assms)
  show ?thesis
    unfolding release_references_locked_def released_entry_def mark_released_def
    by (intro keeps_store remove keeps_recover_references keeps_rebuild keeps_update_index keeps_ensure_marker)
qed

lemma keeps_recover_released: "keeps (store_inv_fs sha A R) (recover_released_sessions now)"
  unfolding recover_released_sessions_def
proof (rule keeps_bind [OF keeps_access], rule hoare_bind_gets)
  fix entries
  have asked: "\<forall>x \<in> set entries. fst x \<in> R" if "store_inv_fs sha A R st \<and> ff_released st = entries" for st
  proof
    fix x
    assume "x \<in> set entries"
    then have "map_of (ff_released st) (fst x) \<noteq> None" using that by (auto simp: map_of_eq_None_iff)
    with that show "fst x \<in> R" by (auto simp: store_inv_fs_def told_def)
  qed
  have each: "keeps (store_inv_fs sha A R) (op_each (recover_released_session now) entries)" if "\<forall>x \<in> set entries. fst x \<in> R"
    unfolding recover_released_session_def
    by (intro keeps_store keeps_release_locked) (use that in auto)
  show "hoare (\<lambda>st. store_inv_fs sha A R st \<and> ff_released st = entries)
     (op_each (recover_released_session now) entries) (\<lambda>_. store_inv_fs sha A R) (store_inv_fs sha A R)"
    by (rule hoare_fact, erule asked, rule hoare_pre, erule each) simp
qed

lemma keeps_release:
  assumes "s \<in> R"
  shows "keeps (store_inv_fs sha A R) (release_session now s t)"
  unfolding release_session_def by (intro keeps_bind keeps_persist_release keeps_release_locked assms)

lemma keeps_cleanup: "keeps (store_inv_fs sha A R) cleanup_atomic_temporaries"
proof -
  have "keeps (store_inv_fs sha A R) (remove_empty_session removed s)" for removed s
    unfolding remove_empty_session_def
  proof (rule hoare_bind_gets)
    fix entries
    show "hoare (\<lambda>st. store_inv_fs sha A R st \<and> session_entries s st = entries)
       (if entries \<noteq> [] then op_return removed
        else op_bind (io_step ''remove empty session references''
          (\<lambda>st. st\<lparr>ff_references := hm_remove s (ff_references st)\<rparr>)) (\<lambda>_. op_return True))
       (\<lambda>_. store_inv_fs sha A R) (store_inv_fs sha A R)"
      by (intro hoare_split hoare_done hoare_bind [OF hoare_return hoare_io_step])
        (auto intro: inv_remove_session simp: fault_free_def)
  qed
  then show ?thesis unfolding cleanup_atomic_temporaries_def by (intro keeps_store)
qed

lemma keeps_initialize_header: "keeps (store_inv_fs sha A R) initialize_header"
  unfolding initialize_header_def by (intro keeps_store keeps_atomic_write) (simp_all add: fault_free_def)

lemma keeps_new: "keeps (store_inv_fs sha A R) (file_store_new sha now config)"
  unfolding file_store_new_def check_header_if_present_def
  by (intro keeps_store keeps_cleanup keeps_initialize_header keeps_recover_trash keeps_rebuild
        keeps_recover_released keeps_recover_references)
    (simp add: hoare_def op_modify_def)

subsection \<open>References\<close>

lemma hoare_read_metadata:
  "hoare (store_inv_fs sha A R) (read_object_metadata d)
     (\<lambda>metadata st. store_inv_fs sha A R st \<and> has_object d (om_media_type metadata) st) (store_inv_fs sha A R)"
  unfolding read_object_metadata_def
proof (rule hoare_bind_reads [OF reads_access], goal_cases)
  case (3 x)
  show ?case
  proof (rule hoare_bind_gets)
    fix found
    show "hoare (\<lambda>st. store_inv_fs sha A R st \<and> map_of (ff_objects st) d = found)
       (case found of None \<Rightarrow> op_fail (EvidenceNotFound d)
        | Some object \<Rightarrow> op_bind (op_lift (validate_object_metadata (eo_meta object) d)) (\<lambda>_. op_return (eo_meta object)))
       (\<lambda>metadata st. store_inv_fs sha A R st \<and> has_object d (om_media_type metadata) st) (store_inv_fs sha A R)"
      by (cases found) (auto simp: hoare_def op_defs has_object_def split: sum.splits)
  qed
qed simp_all

lemma free_object: "fault_free (\<lambda>st. store_inv_fs sha A R st \<and> has_object d m st)"
  by (simp add: fault_free_def has_object_def)

lemma hoare_verify_object:
  "hoare (store_inv_fs sha A R) (verify_object sha' d)
     (\<lambda>r st. store_inv_fs sha A R st \<and> has_object d (om_media_type (fst r)) st) (store_inv_fs sha A R)"
  unfolding verify_object_def
proof (rule hoare_bind [OF _ hoare_read_metadata])
  fix metadata
  show "hoare (\<lambda>st. store_inv_fs sha A R st \<and> has_object d (om_media_type metadata) st)
     (op_bind (io_access ''open evidence data'') (\<lambda>_.
      op_bind (op_gets (\<lambda>st. map_of (ff_objects st) d)) (\<lambda>found.
        case found of None \<Rightarrow> op_fail (EvidenceNotFound d)
        | Some object \<Rightarrow>
            op_bind (op_lift (verify_content sha' ''stored byte length does not match data'' d object)) (\<lambda>_.
              op_return (metadata, eo_data object)))))
     (\<lambda>r st. store_inv_fs sha A R st \<and> has_object d (om_media_type (fst r)) st) (store_inv_fs sha A R)"
    by (rule hoare_bind_reads [OF reads_access free_object])
      (auto simp: hoare_def op_defs split: sum.splits option.splits)
qed

text \<open>The object is there and the Session does not refer to it yet.\<close>

definition unattached ::
  "(string \<Rightarrow> string) \<Rightarrow> (session_id \<times> sha256_digest \<times> string) set \<Rightarrow> session_id set \<Rightarrow> session_id \<Rightarrow>
   sha256_digest \<Rightarrow> string \<Rightarrow> file_store \<Rightarrow> bool" where
  "unattached sha A R s d media_type st \<longleftrightarrow>
     store_inv_fs sha A R st \<and> has_object d media_type st \<and> reference st s d = None"

lemma hoare_write_reference:
  assumes "validate_reference_marker m s d (rm_media_type m) = Inr ()"
  shows "hoare (unattached sha A R s d (rm_media_type m))
     (atomic_write_json (\<lambda>st. reference st s d \<noteq> None)
        (\<lambda>st. st\<lparr>ff_references := bt_insert s (bt_insert d m (session_entries s st)) (ff_references st)\<rparr>) operation)
     (\<lambda>_ st. store_inv_fs sha A R st \<and> refers s d (rm_media_type m) st) (store_inv_fs sha A R)"
  by (rule hoare_atomic_write)
    (auto intro: inv_add_reference simp: fault_free_def has_object_def refers_def unattached_def assms)

lemma hoare_make_session:
  "hoare (\<lambda>st. unattached sha A R s d m st \<and> session_directory_exists s st = directory)
     (if directory then op_return ()
      else io_step ''create store directory'' (\<lambda>st. st\<lparr>ff_references := bt_insert s [] (ff_references st)\<rparr>))
     (\<lambda>_. unattached sha A R s d m) (store_inv_fs sha A R)"
  by (intro hoare_split hoare_done hoare_io_step)
    (auto intro: inv_make_session simp: fault_free_def has_object_def session_directory_exists_def unattached_def)

lemma free_session: "fault_free (\<lambda>st. unattached sha A R s d m st \<and> session_directory_exists s st = directory)"
  by (simp add: fault_free_def has_object_def session_directory_exists_def unattached_def)

lemma hoare_marker_session:
  "hoare (\<lambda>st. unattached sha A R s d m st \<and> session_directory_exists s st = directory)
     (remove_unreferenced_marker_if_present d')
     (\<lambda>_ st. unattached sha A R s d m st \<and> session_directory_exists s st = directory) (store_inv_fs sha A R)"
  unfolding unattached_def conj_assoc
  by (rule hoare_remove_marker_frame) (simp_all add: fault_free_def has_object_def session_directory_exists_def)

lemma hoare_index_reference:
  "hoare (\<lambda>st. store_inv_fs sha A R st \<and> refers s d m st)
     (op_bind (update_index f) (\<lambda>_. op_return b))
     (\<lambda>_ st. store_inv_fs sha A R st \<and> refers s d m st) (store_inv_fs sha A R)"
  by (auto simp: hoare_def op_defs update_index_def refers_def)

lemma hoare_add_reference:
  "hoare (\<lambda>st. store_inv_fs sha A R st \<and> has_object d m st) (add_reference s d m t)
     (\<lambda>_ st. store_inv_fs sha A R st \<and> refers s d m st) (store_inv_fs sha A R)"
  unfolding add_reference_def
proof (rule hoare_bind_reads [OF reads_scans(14) free_object], simp, rule hoare_bind_gets, goal_cases)
  case (1 _ marker)
  show ?case
  proof (cases marker)
    case (Some mk)
    have free: "fault_free (\<lambda>st. (store_inv_fs sha A R st \<and> has_object d m st) \<and> reference st s d = Some mk)"
      by (simp add: fault_free_def has_object_def)
    show ?thesis unfolding Some option.case
      by (rule hoare_bind_reads [OF reads_access free])
        (auto simp: hoare_def op_defs refers_def validate_reference_marker_def split: sum.splits if_splits)
  next
    case None
    let ?marker = "\<lparr>rm_schema_version = STORE_VERSION, rm_session_id = s, rm_digest = d, rm_media_type = m, rm_created_at_ms = t\<rparr>"
    have "validate_reference_marker ?marker s d (rm_media_type ?marker) = Inr ()"
      by (simp add: validate_reference_marker_def)
    note store = hoare_write_reference [OF this, of sha A R, simplified reference_marker.select_convs]
    have "reads (if directory then indexed_session_reference_count s else op_return 0)" for directory
      by (intro reads_rules reads_scans)
    note count = hoare_bind_reads [OF this free_session]
    show ?thesis unfolding None option.case
      apply (rule hoare_pre [of "unattached sha A R s d m"])
       apply (rule hoare_bind_gets, rule count, simp add: unattached_def, rule hoare_bind_gets, rule hoare_split)
        apply (auto simp: hoare_def op_fail_def unattached_def) [1]
       apply (rule hoare_pre, rule hoare_bind [OF _ hoare_marker_session])
        apply (rule hoare_bind [OF _ hoare_make_session], rule hoare_bind [OF _ store], rule hoare_index_reference)
       apply (auto simp: unattached_def)
      done
  qed
qed

end
