(* ===== verification/Evidence_Fs_Methods.thy ===== *)
theory Evidence_Fs_Methods
  imports Evidence_Fs_Keeps
begin

text \<open>
  The methods of the filesystem Evidence Store keep its invariant: \<open>put\<close>, \<open>attach\<close> and the
  collector. \<open>gc\<close> deletes only objects that no Session refers to.
\<close>

subsection \<open>Publication\<close>

text \<open>What \<open>put\<close> has checked of the staged bytes when it publishes them.\<close>

definition staged_ok :: "(string \<Rightarrow> string) \<Rightarrow> string \<Rightarrow> sha256_digest \<Rightarrow> string \<Rightarrow> bool" where
  "staged_ok sha media_type digest data \<longleftrightarrow>
     data \<noteq> [] \<and> digest_from_hash sha data = Inr digest \<and> validate_media_type media_type = Inr ()"

lemma new_object_ok: "staged_ok sha media_type d data \<Longrightarrow> object_ok sha d (new_object d media_type data t)"
  by (simp add: staged_ok_def object_ok_def new_object_def validate_object_metadata_def evidence_metadata_new_def)

lemma hoare_publish_object:
  assumes "staged_ok sha media_type d data"
  shows "hoare (\<lambda>st. store_inv_fs sha A R st \<and> map_of (ff_trash st) d = None)
     (publish_object sha media_type d data t)
     (\<lambda>r st. store_inv_fs sha A R st \<and> has_object d (om_media_type (fst r)) st) (store_inv_fs sha A R)"
  unfolding publish_object_def
proof (rule hoare_bind_gets, rule hoare_split, goal_cases)
  case (1 present)
  have "hoare (store_inv_fs sha A R) (op_bind (verify_object sha d) (\<lambda>(existing, _).
           if om_media_type existing \<noteq> media_type
           then op_fail (EvidenceMediaTypeConflict d (om_media_type existing) media_type)
           else if om_byte_length existing \<noteq> length data
           then op_fail (EvidenceCorruptMetadata d ''deduplicated object size differs'')
           else op_return (existing, True)))
     (\<lambda>r st. store_inv_fs sha A R st \<and> has_object d (om_media_type (fst r)) st) (store_inv_fs sha A R)"
    by (rule hoare_bind [OF _ hoare_verify_object]) (auto simp: hoare_def op_defs split: if_splits)
  then show ?case by (rule hoare_pre) simp
next
  case (2 present)
  let ?obj = "new_object d media_type data t"
  have "hoare (\<lambda>st. (store_inv_fs sha A R st \<and> map_of (ff_trash st) d = None) \<and> map_of (ff_objects st) d = present)
     (io_step ''publish evidence object'' (\<lambda>st. st\<lparr>ff_objects := bt_insert d ?obj (ff_objects st)\<rparr>))
     (\<lambda>_ st. store_inv_fs sha A R st \<and> has_object d (om_media_type (eo_meta ?obj)) st) (store_inv_fs sha A R)"
    using 2 by (intro hoare_io_step) (auto intro: inv_publish new_object_ok [OF assms] simp: fault_free_def has_object_def)
  moreover have "hoare (\<lambda>st. store_inv_fs sha A R st \<and> has_object d (om_media_type (eo_meta ?obj)) st)
     (op_bind sync_directory (\<lambda>_. op_bind sync_directory (\<lambda>_. op_return (eo_meta ?obj, False))))
     (\<lambda>r st. store_inv_fs sha A R st \<and> has_object d (om_media_type (fst r)) st) (store_inv_fs sha A R)"
    by (intro hoare_bind_reads reads_scans free_object hoare_done) auto
  ultimately show ?case by (rule hoare_bind [rotated])
qed

text \<open>The caller was told that Session \<open>s\<close> refers to the evidence.\<close>

definition acknowledged :: "session_id \<Rightarrow> stored_evidence \<Rightarrow> file_store \<Rightarrow> bool" where
  "acknowledged s stored st \<longleftrightarrow> refers s (em_digest (st_metadata stored)) (em_media_type (st_metadata stored)) st"

lemma hoare_recorded:
  "hoare (\<lambda>st. store_inv_fs sha A R st \<and> refers s d m st)
     (op_bind (op_lift (evidence_metadata_new d m n t c))
        (\<lambda>metadata. op_return \<lparr>st_metadata = metadata, st_deduplicated = b\<rparr>))
     (\<lambda>r st. store_inv_fs sha A R st \<and> acknowledged s r st) (store_inv_fs sha A R)"
  by (auto simp: hoare_def op_defs acknowledged_def evidence_metadata_new_def res_bind_eq_Inr split: sum.splits)

lemma hoare_put_publish:
  assumes "staged_ok sha media_type d data"
  shows "hoare (store_inv_fs sha A R) (put_publish sha t s media_type d data)
     (\<lambda>r st. store_inv_fs sha A R st \<and> acknowledged s r st) (store_inv_fs sha A R)"
  unfolding put_publish_def
proof (rule hoare_bind_reads [OF reads_scans(11)], simp, simp, rule hoare_bind [OF _ hoare_recover_trash_entry],
    rule hoare_bind_reads [OF reads_access free_trash], simp, rule hoare_bind [OF _ hoare_publish_object [OF assms]],
    goal_cases)
  case (1 _ _ _ r)
  obtain metadata deduplicated where r: "r = (metadata, deduplicated)" by fastforce
  have counted: "hoare (\<lambda>st. store_inv_fs sha A R st \<and> has_object d m st)
     (op_on_error (indexed_reference_count d) (mark_unreferenced_if_unowned d n t))
     (\<lambda>_ st. store_inv_fs sha A R st \<and> has_object d m st) (store_inv_fs sha A R)" for m n
    by (rule hoare_on_error [OF _ keeps_mark_unowned], rule hoare_reads [OF reads_scans(11) free_object]) simp
  have added: "hoare (\<lambda>st. store_inv_fs sha A R st \<and> has_object d m st)
     (op_on_error (add_reference s d m t) (mark_unreferenced_if_unowned d n t))
     (\<lambda>_ st. store_inv_fs sha A R st \<and> refers s d m st) (store_inv_fs sha A R)" for m n
    by (rule hoare_on_error [OF hoare_add_reference keeps_mark_unowned])
  show ?case unfolding r prod.case fst_conv
    by (rule hoare_bind [OF _ counted], rule hoare_bind [OF _ added], rule hoare_recorded)
qed

lemma reads_stage_input: "reads (stage_input maximum staged input)"
  by (induction maximum staged input rule: stage_input.induct)
    (auto intro!: reads_rules split: option.split)

lemma reads_put_stage: "reads (put_stage sha request input)"
  unfolding put_stage_def by (intro reads_rules reads_scans reads_stage_input)

lemma put_stage_ok:
  assumes "put_stage sha request input st = (Inr (d, data), st')" "validate_media_type (pe_media_type request) = Inr ()"
  shows "staged_ok sha (pe_media_type request) d data"
  using assms by (auto simp: put_stage_def op_bind_Inr op_lift_def op_return_def staged_ok_def split: if_splits)

lemma hoare_put:
  assumes "validate_media_type (pe_media_type request) = Inr ()"
  shows "hoare (store_inv_fs sha A R) (file_put sha now request input)
     (\<lambda>r st. store_inv_fs sha A R st \<and> acknowledged (pe_session_id request) r st) (store_inv_fs sha A R)"
  unfolding file_put_def
proof (rule hoare_bind)
  show "hoare (store_inv_fs sha A R) (put_stage sha request input)
     (\<lambda>r st. staged_ok sha (pe_media_type request) (fst r) (snd r) \<and> store_inv_fs sha A R st) (store_inv_fs sha A R)"
    using hoareD [OF keeps_reads [OF reads_put_stage]] put_stage_ok [OF _ assms]
    by (intro hoareI) (metis prod.collapse)+
  show "hoare (\<lambda>st. staged_ok sha (pe_media_type request) (fst r) (snd r) \<and> store_inv_fs sha A R st)
     (case r of (digest, data) \<Rightarrow> put_publish sha now (pe_session_id request) (pe_media_type request) digest data)
     (\<lambda>r st. store_inv_fs sha A R st \<and> acknowledged (pe_session_id request) r st) (store_inv_fs sha A R)" for r
    by (rule hoare_fact [where C = "staged_ok sha (pe_media_type request) (fst r) (snd r)"])
      (auto simp: case_prod_beta intro: hoare_pre [OF hoare_put_publish])
qed

lemma hoare_attach:
  "hoare (store_inv_fs sha A R) (file_attach sha now s asset)
     (\<lambda>r st. store_inv_fs sha A R st \<and> acknowledged s r st) (store_inv_fs sha A R)"
  unfolding file_attach_def
proof (rule hoare_bind_reads [OF reads_simple(4)], simp, simp, rule hoare_bind_reads [OF reads_scans(14)], simp, simp,
    rule hoare_bind [OF _ hoare_verify_object], goal_cases)
  case (1 d _ r)
  obtain metadata data where r: "r = (metadata, data)" by fastforce
  show ?case unfolding r prod.case fst_conv
    by (rule hoare_split, force simp: hoare_def op_fail_def,
        rule hoare_bind_reads [OF reads_scans(11) free_object], simp,
        rule hoare_bind [OF _ hoare_add_reference], rule hoare_recorded)
qed

subsection \<open>The collector\<close>

text \<open>The invariant while the collector holds the store: the references are those it found.\<close>

definition collecting ::
  "(string \<Rightarrow> string) \<Rightarrow> (session_id \<times> sha256_digest \<times> string) set \<Rightarrow> session_id set \<Rightarrow> sha256_digest set \<Rightarrow> file_store \<Rightarrow> bool" where
  "collecting sha A R D st \<longleftrightarrow> store_inv_fs sha A R st \<and> referenced st = D"

lemma referenced_irrelevant [simp]:
  "referenced (st\<lparr>ff_faults := f\<rparr>) = referenced st" "referenced (st\<lparr>ff_unreferenced := u\<rparr>) = referenced st"
  "referenced (st\<lparr>ff_trash := t\<rparr>) = referenced st" "referenced (st\<lparr>ff_objects := x\<rparr>) = referenced st"
  "referenced (st\<lparr>ff_index := i\<rparr>) = referenced st"
  by (simp_all add: referenced_def)

lemma free_collecting: "fault_free (collecting sha A R D)"
  by (simp add: fault_free_def collecting_def)

lemma collecting_inv: "collecting sha A R D st \<Longrightarrow> store_inv_fs sha A R st"
  by (simp add: collecting_def)

lemma hoare_rebuild:
  "hoare (store_inv_fs sha A R) rebuild_reference_index
     (\<lambda>_ st. store_inv_fs sha A R st \<and> (\<exists>index. ff_index st = Some index \<and> indexed index = referenced st))
     (store_inv_fs sha A R)"
  unfolding rebuild_reference_index_def
proof (rule hoare_bind)
  show "hoare (store_inv_fs sha A R) scan_reference_index
     (\<lambda>index st. store_inv_fs sha A R st \<and> indexed index = referenced st) (store_inv_fs sha A R)"
  proof (rule hoareI)
    fix st index st'
    assume *: "store_inv_fs sha A R st" "scan_reference_index st = (Inr index, st')"
    have "references_ok st" using *(1) by (simp add: store_inv_fs_def)
    then have "indexed index = referenced st" using scan_found *(2) by blast
    moreover have "store_inv_fs sha A R st' = store_inv_fs sha A R st"
      using readsD [OF reads_scans(9) *(2) fault_free_inv] .
    moreover have "(referenced st' = referenced st) = (referenced st = referenced st)"
      by (rule readsD [OF reads_scans(9) *(2), where P = "\<lambda>st'. referenced st' = referenced st"]) (simp add: fault_free_def)
    ultimately show "store_inv_fs sha A R st' \<and> indexed index = referenced st'" using *(1) by simp
  qed (use hoareD [OF keeps_reads [OF reads_scans(9)]] in blast)
qed (simp add: hoare_def op_modify_def)

lemma hoare_indexed_digests:
  "hoare (\<lambda>st. store_inv_fs sha A R st \<and> (\<exists>index. ff_index st = Some index \<and> indexed index = referenced st))
     indexed_referenced_digests (\<lambda>digests. collecting sha A R (set digests)) (store_inv_fs sha A R)"
  by (auto simp: hoare_def indexed_referenced_digests_def op_defs collecting_def)

lemma gc_markers_unreferenced:
  "op_fold (gc_marker digests) [] entries st = (Inr markers, st') \<Longrightarrow> fst ` set markers \<inter> set digests = {}"
proof -
  have "hoare (\<lambda>_. fst ` set acc \<inter> set digests = {}) (op_fold (gc_marker digests) acc entries)
     (\<lambda>markers _. fst ` set markers \<inter> set digests = {}) (\<lambda>_. True)" for acc
    by (rule hoare_fold [where I = "\<lambda>acc _. fst ` set acc \<inter> set digests = {}"])
      (auto simp: hoare_def gc_marker_def op_defs split: prod.splits sum.splits if_splits)
  from hoareD(1) [OF this, of "[]" st] show "op_fold (gc_marker digests) [] entries st = (Inr markers, st') \<Longrightarrow> ?thesis"
    by simp
qed

lemma hoare_case_prod: "(\<And>a b. hoare P (f a b) Q E) \<Longrightarrow> hoare P (case r of (a, b) \<Rightarrow> f a b) Q E"
  by (cases r) simp

definition trashing ::
  "(string \<Rightarrow> string) \<Rightarrow> (session_id \<times> sha256_digest \<times> string) set \<Rightarrow> session_id set \<Rightarrow> sha256_digest set \<Rightarrow> sha256_digest \<Rightarrow>
   file_store \<Rightarrow> bool" where
  "trashing sha A R D d st \<longleftrightarrow> collecting sha A R D st \<and> map_of (ff_objects st) d = None"

lemma free_trashing: "fault_free (trashing sha A R D d)"
  by (simp add: fault_free_def collecting_def trashing_def)

lemma hoare_trashing_remove:
  "hoare (trashing sha A R D d) (remove_trash operation d) (\<lambda>_. collecting sha A R D) (store_inv_fs sha A R)"
  unfolding remove_trash_def
  by (rule hoare_bind [OF hoare_reads [OF reads_scans(15) free_collecting collecting_inv] hoare_io_remove_all [OF free_trashing]])
    (auto intro: inv_drop_trash inv_partial_trash simp: trashing_def collecting_def)

lemma hoare_move_to_trash:
  assumes "d \<notin> D"
  shows "hoare (collecting sha A R D)
     (io_step operation (\<lambda>st. case map_of (ff_objects st) d of
        Some object \<Rightarrow>
          st\<lparr>ff_objects := hm_remove d (ff_objects st), ff_trash := bt_insert d (Some object) (ff_trash st)\<rparr>
      | None \<Rightarrow> st)) (\<lambda>_. trashing sha A R D d) (store_inv_fs sha A R)"
  by (rule hoare_io_step [OF free_collecting collecting_inv])
    (use assms in \<open>auto intro: inv_trash_object simp: trashing_def collecting_def map_of_delete_fun split: option.split\<close>)

lemma hoare_trashing_marker:
  "hoare (trashing sha A R D d)
     (io_step operation (\<lambda>st. st\<lparr>ff_unreferenced := hm_remove d (ff_unreferenced st)\<rparr>))
     (\<lambda>_. trashing sha A R D d) (store_inv_fs sha A R)"
  by (rule hoare_io_step [OF free_trashing]) (auto intro: inv_drop_marker simp: trashing_def collecting_def)

lemma hoare_gc_delete:
  assumes "d \<notin> D"
  shows "hoare (collecting sha A R D) (gc_delete d) (\<lambda>_. collecting sha A R D) (store_inv_fs sha A R)"
proof -
  have inv: "trashing sha A R D d st \<Longrightarrow> store_inv_fs sha A R st" for st by (simp add: trashing_def collecting_def)
  note sync = hoare_bind_reads [OF reads_scans(15) free_trashing inv]
  show ?thesis
    unfolding gc_delete_def
    by (rule hoare_bind_reads [OF reads_simple(3) free_collecting collecting_inv], assumption,
        rule hoare_split, force simp: hoare_def op_fail_def collecting_def,
        rule hoare_bind [OF _ hoare_move_to_trash [OF assms]], rule sync, assumption, rule sync, assumption,
        rule hoare_bind [OF _ hoare_trashing_marker], rule sync, assumption, rule hoare_trashing_remove)
qed

lemma hoare_gc_candidate:
  assumes "fst entry \<notin> D"
  shows "hoare (collecting sha A R D) (gc_candidate sha policy acc entry) (\<lambda>_. collecting sha A R D) (store_inv_fs sha A R)"
proof -
  obtain report stopped d marker where "acc = (report, stopped)" "entry = (d, marker)" by (metis surj_pair)
  note parts = this
  have delete: "hoare (collecting sha A R D) (op_bind (gc_delete d) (\<lambda>_. op_return x)) (\<lambda>_. collecting sha A R D)
    (store_inv_fs sha A R)" for x :: "gc_report \<times> bool"
    by (rule hoare_bind [OF hoare_done hoare_gc_delete]) (use assms parts in auto)
  have fails: "hoare (collecting sha A R D) (op_fail e) Q (store_inv_fs sha A R)" for e Q
    by (simp add: hoare_def op_fail_def collecting_def)
  show ?thesis
    unfolding gc_candidate_def parts prod.case Let_def
    by (intro hoare_split hoare_done, assumption, assumption, rule hoare_bind_reads [OF reads_scans(2) free_collecting collecting_inv],
        assumption, rule hoare_case_prod) (intro hoare_split hoare_done fails delete, assumption+)
qed

lemma hoare_gc_markers:
  "hoare (collecting sha A R (set digests)) (op_fold (gc_marker digests) [] entries)
     (\<lambda>markers st. fst ` set markers \<inter> set digests = {} \<and> collecting sha A R (set digests) st) (store_inv_fs sha A R)"
proof -
  have "reads (gc_marker digests acc entry)" for acc entry
    unfolding gc_marker_def by (intro reads_rules)
  then have "reads (op_fold (gc_marker digests) [] entries)" by (rule reads_fold)
  then have scan: "hoare (collecting sha A R (set digests)) (op_fold (gc_marker digests) [] entries)
     (\<lambda>_. collecting sha A R (set digests)) (store_inv_fs sha A R)"
    by (rule hoare_reads [OF _ free_collecting collecting_inv])
  show ?thesis
  proof (rule hoareI)
    fix st markers st'
    assume "collecting sha A R (set digests) st" "op_fold (gc_marker digests) [] entries st = (Inr markers, st')"
    then show "fst ` set markers \<inter> set digests = {} \<and> collecting sha A R (set digests) st'"
      using hoareD(1) [OF scan] gc_markers_unreferenced by blast
  qed (use hoareD(2) [OF scan] in blast)
qed

lemma hoare_gc_deletions:
  "hoare (\<lambda>st. fst ` set markers \<inter> D = {} \<and> collecting sha A R D st)
     (op_bind (op_fold (gc_candidate sha policy) acc markers) (\<lambda>(report, _). op_return report))
     (\<lambda>_. store_inv_fs sha A R) (store_inv_fs sha A R)"
proof (rule hoare_fact [where C = "fst ` set markers \<inter> D = {}"])
  assume disjoint: "fst ` set markers \<inter> D = {}"
  have "hoare (collecting sha A R D) (op_fold (gc_candidate sha policy) acc markers) (\<lambda>_. collecting sha A R D) (store_inv_fs sha A R)"
    by (rule hoare_fold [where I = "\<lambda>_. collecting sha A R D"], rule hoare_gc_candidate) (use disjoint in blast)
  then have "hoare (collecting sha A R D)
     (op_bind (op_fold (gc_candidate sha policy) acc markers) (\<lambda>(report, _). op_return report))
     (\<lambda>_. store_inv_fs sha A R) (store_inv_fs sha A R)"
    by (rule hoare_bind [rotated]) (auto simp: hoare_def op_return_def collecting_def)
  then show "hoare (\<lambda>st. fst ` set markers \<inter> D = {} \<and> collecting sha A R D st)
     (op_bind (op_fold (gc_candidate sha policy) acc markers) (\<lambda>(report, _). op_return report))
     (\<lambda>_. store_inv_fs sha A R) (store_inv_fs sha A R)"
    by (rule hoare_pre) simp
qed simp

lemma keeps_gc: "keeps (store_inv_fs sha A R) (file_gc sha now policy)"
  unfolding file_gc_def
  by (rule keeps_bind [OF keeps_recover_trash], rule keeps_bind [OF keeps_recover_references],
      rule hoare_bind [OF _ hoare_rebuild], rule hoare_bind [OF _ hoare_indexed_digests],
      rule hoare_bind_reads [OF reads_access free_collecting collecting_inv], assumption,
      rule hoare_bind_reads [OF reads_simple(3) free_collecting collecting_inv], assumption,
      rule hoare_bind [OF hoare_gc_deletions hoare_gc_markers])

end
