(* ===== verification/Evidence_Contract.thy ===== *)
theory Evidence_Contract
  imports Evidence
begin

text \<open>
  What the runtime needs of an evidence store, as an interface: its operations keep the store
  sound, evidence they return for a Session is held by it, and what is held stays held. The lemmas
  carry this over to all calls a Driver makes on its writer during one operation.
\<close>

locale evidence_contract =
  fixes put :: "('i, 'e) store_put"
    and attach_asset :: "'e store_attach"
    and sound :: "'e \<Rightarrow> bool"
    and held :: "session_id \<Rightarrow> stored_evidence \<Rightarrow> 'e \<Rightarrow> bool"
  assumes put_sound:
      "sound e \<Longrightarrow> validate_media_type (pe_media_type request) = Inr () \<Longrightarrow> put request i e = (r, e') \<Longrightarrow> sound e'"
    and put_held:
      "sound e \<Longrightarrow> validate_media_type (pe_media_type request) = Inr () \<Longrightarrow> put request i e = (Inr stored, e') \<Longrightarrow>
       held (pe_session_id request) stored e'"
    and put_keeps:
      "sound e \<Longrightarrow> validate_media_type (pe_media_type request) = Inr () \<Longrightarrow> put request i e = (r, e') \<Longrightarrow>
       held s x e \<Longrightarrow> held s x e'"
    and attach_sound: "sound e \<Longrightarrow> attach_asset s a e = (r, e') \<Longrightarrow> sound e'"
    and attach_held: "sound e \<Longrightarrow> attach_asset s a e = (Inr stored, e') \<Longrightarrow> held s stored e'"
    and attach_keeps: "sound e \<Longrightarrow> attach_asset s a e = (r, e') \<Longrightarrow> held s' x e \<Longrightarrow> held s' x e'"
begin

text \<open>One call of the writer: what it returned is held, and so is everything held before.\<close>

definition advances :: "session_id \<Rightarrow> evidence_error + stored_evidence \<Rightarrow> 'e \<Rightarrow> 'e \<Rightarrow> bool" where
  "advances s r e e' \<longleftrightarrow>
     sound e' \<and> (\<forall>stored. r = Inr stored \<longrightarrow> held s stored e') \<and> (\<forall>s x. held s x e \<longrightarrow> held s x e')"

lemma put_advances:
  assumes "sound e" "put_evidence_new s media_type = Inr request" "put (f request) i e = (r, e')"
    and "pe_media_type (f request) = pe_media_type request" "pe_session_id (f request) = pe_session_id request"
  shows "advances s r e e'"
proof -
  have "validate_media_type (pe_media_type (f request)) = Inr ()" "pe_session_id (f request) = s"
    using assms(2,4,5) by (auto simp: put_evidence_new_def res_bind_eq_Inr)
  then show ?thesis
    using put_sound [OF assms(1) _ assms(3)] put_held [OF assms(1), of "f request" i] put_keeps [OF assms(1) _ assms(3)] assms(3)
    by (auto simp: advances_def)
qed

lemma writer_put_advances:
  assumes "sound e" "writer_put put media_type i w e = (r, w', e')"
  shows "advances (sw_session_id w) r e e' \<and> sw_session_id w' = sw_session_id w"
proof (cases "put_evidence_new (sw_session_id w) media_type")
  case (Inl x)
  with assms show ?thesis by (auto simp: writer_put_def advances_def)
next
  case (Inr request)
  obtain r1 e1 where run: "put request i e = (r1, e1)" by fastforce
  have "advances (sw_session_id w) r1 e e1" using put_advances [OF assms(1) Inr, of "\<lambda>x. x"] run by simp
  with assms(2) Inr run show ?thesis by (auto simp: writer_put_def split: sum.splits)
qed

lemma writer_put_sized_advances:
  assumes "sound e" "writer_put_with_declared_size put media_type n i w e = (r, w', e')"
  shows "advances (sw_session_id w) r e e' \<and> sw_session_id w' = sw_session_id w"
proof (cases "put_evidence_new (sw_session_id w) media_type")
  case (Inl x)
  with assms show ?thesis by (auto simp: writer_put_with_declared_size_def advances_def)
next
  case (Inr request)
  obtain r1 e1 where run: "put (with_declared_size_bytes n request) i e = (r1, e1)" by fastforce
  have "advances (sw_session_id w) r1 e e1"
    using put_advances [OF assms(1) Inr, of "with_declared_size_bytes n"] run by (simp add: with_declared_size_bytes_def)
  with assms(2) Inr run show ?thesis by (auto simp: writer_put_with_declared_size_def split: sum.splits)
qed

lemma writer_attach_advances:
  assumes "sound e" "writer_attach attach_asset a w e = (r, w', e')"
  shows "advances (sw_session_id w) r e e' \<and> sw_session_id w' = sw_session_id w"
proof -
  obtain r1 e1 where run: "attach_asset (sw_session_id w) a e = (r1, e1)" by fastforce
  then have "advances (sw_session_id w) r1 e e1"
    using attach_sound [OF assms(1)] attach_held [OF assms(1)] attach_keeps [OF assms(1)] by (auto simp: advances_def)
  with assms(2) run show ?thesis by (auto simp: writer_attach_def split: sum.splits)
qed

lemma writer_run_held:
  assumes "writer_run put attach_asset calls w e = (issued, w', e')" "sound e"
  shows "sound e' \<and> (\<forall>x \<in> set issued. held (sw_session_id w) x e') \<and> (\<forall>s x. held s x e \<longrightarrow> held s x e')"
  using assms
proof (induction calls arbitrary: w e issued w' e')
  case (Cons c cs)
  obtain r w1 e1 where call: "(case c of
              CallPut m i \<Rightarrow> writer_put put m i w e
            | CallPutSized m n i \<Rightarrow> writer_put_with_declared_size put m n i w e
            | CallAttach a \<Rightarrow> writer_attach attach_asset a w e) = (r, w1, e1)"
    by (metis prod_cases3)
  obtain rest w2 e2 where rest: "writer_run put attach_asset cs w1 e1 = (rest, w2, e2)" by (metis prod_cases3)
  have step: "advances (sw_session_id w) r e e1" "sw_session_id w1 = sw_session_id w"
    using call Cons.prems(2) writer_put_advances writer_put_sized_advances writer_attach_advances
    by (cases c; fastforce)+
  have "e' = e2" "issued = (case r of Inl _ \<Rightarrow> rest | Inr stored \<Rightarrow> stored # rest)"
    using Cons.prems(1) by (simp_all only: writer_run.simps call rest prod.case prod.inject)
  with Cons.IH [OF rest] step show ?case by (cases r) (auto simp: advances_def)
qed simp

end

end
