(* ===== verification/Evidence_Fs_Properties.thy ===== *)
theory Evidence_Fs_Properties
  imports Evidence_Fs_Methods Evidence_Contract
begin

text \<open>
  What callers of the filesystem Evidence Store can rely on, over every sequence of calls, whatever
  accesses of the filesystem fail in each of them and however often the store is reopened.
\<close>

subsection \<open>Sequences of calls\<close>

text \<open>
  \<open>DoPublish\<close> is the part of a \<open>put\<close> after its bytes were staged and checked: staging runs
  without the store's exclusive gates, so other calls may come in between. A process that dies is
  a call with failing accesses that is followed by \<open>DoNew\<close>.
\<close>

datatype evidence_call =
    DoNew nat file_evidence_store_config
  | DoPut nat session_id string "sha256_digest option" "nat option" "input_read list"
  | DoPublish nat session_id string sha256_digest string
  | DoAttach nat session_id asset_ref
  | DoVerify session_id asset_ref
  | DoOpen asset_ref
  | DoMetadata sha256_digest
  | DoReferencedSessions
  | DoRelease nat session_id nat
  | DoGc nat gc_policy

text \<open>The store, the evidence that calls returned for a Session, and the Sessions whose release was requested.\<close>

record evidence_history =
  eh_store :: file_store
  eh_issued :: "(session_id \<times> stored_evidence) list"
  eh_released :: "session_id list"

definition issue ::
  "session_id \<Rightarrow> (evidence_error + stored_evidence) \<times> file_store \<Rightarrow> evidence_history \<Rightarrow> evidence_history" where
  "issue s outcome h =
     h\<lparr>eh_store := snd outcome,
       eh_issued := (case fst outcome of Inr stored \<Rightarrow> (s, stored) # eh_issued h | Inl _ \<Rightarrow> eh_issued h)\<rparr>"

fun evidence_apply :: "(string \<Rightarrow> string) \<Rightarrow> evidence_call \<Rightarrow> evidence_history \<Rightarrow> evidence_history" where
  "evidence_apply sha (DoNew now config) h = h\<lparr>eh_store := snd (file_store_new sha now config (eh_store h))\<rparr>"
| "evidence_apply sha (DoPut now s media_type expected declared input) h =
     (case put_evidence_new s media_type of
        Inl _ \<Rightarrow> h
      | Inr request \<Rightarrow>
          issue s (file_put sha now (request\<lparr>pe_expected_sha256 := expected, pe_declared_size_bytes := declared\<rparr>)
                     input (eh_store h)) h)"
| "evidence_apply sha (DoPublish now s media_type digest data) h =
     (if staged_ok sha media_type digest data
      then issue s (put_publish sha now s media_type digest data (eh_store h)) h else h)"
| "evidence_apply sha (DoAttach now s asset) h = issue s (file_attach sha now s asset (eh_store h)) h"
| "evidence_apply sha (DoVerify s asset) h = h\<lparr>eh_store := snd (verify_session_reference sha s asset (eh_store h))\<rparr>"
| "evidence_apply sha (DoOpen asset) h = h\<lparr>eh_store := snd (open_asset sha asset (eh_store h))\<rparr>"
| "evidence_apply sha (DoMetadata digest) h = h\<lparr>eh_store := snd (file_metadata sha digest (eh_store h))\<rparr>"
| "evidence_apply sha DoReferencedSessions h = h\<lparr>eh_store := snd (referenced_sessions (eh_store h))\<rparr>"
| "evidence_apply sha (DoRelease now s released_at_ms) h =
     h\<lparr>eh_store := snd (release_session now s released_at_ms (eh_store h)), eh_released := s # eh_released h\<rparr>"
| "evidence_apply sha (DoGc now policy) h = h\<lparr>eh_store := snd (file_gc sha now policy (eh_store h))\<rparr>"

definition empty_disk :: "file_evidence_store_config \<Rightarrow> file_store" where
  "empty_disk config =
     \<lparr>ff_header = None, ff_objects = [], ff_references = [], ff_released = [], ff_unreferenced = [], ff_trash = [],
      ff_index = None, ff_config = config, ff_faults = []\<rparr>"

definition evidence_calls ::
  "(string \<Rightarrow> string) \<Rightarrow> (io_fault list \<times> evidence_call) list \<Rightarrow> evidence_history \<Rightarrow> evidence_history" where
  "evidence_calls sha =
     fold (\<lambda>(faults, call) h. evidence_apply sha call (h\<lparr>eh_store := (eh_store h)\<lparr>ff_faults := faults\<rparr>\<rparr>))"

definition evidence_history ::
  "(string \<Rightarrow> string) \<Rightarrow> file_evidence_store_config \<Rightarrow> (io_fault list \<times> evidence_call) list \<Rightarrow> evidence_history" where
  "evidence_history sha config calls =
     evidence_calls sha calls \<lparr>eh_store = empty_disk config, eh_issued = [], eh_released = []\<rparr>"

lemma evidence_calls_simps [simp]:
  "evidence_calls sha [] h = h"
  "evidence_calls sha ((faults, call) # calls) h =
     evidence_calls sha calls (evidence_apply sha call (h\<lparr>eh_store := (eh_store h)\<lparr>ff_faults := faults\<rparr>\<rparr>))"
  by (simp_all add: evidence_calls_def)

subsection \<open>The invariant along the calls\<close>

definition issued_references :: "evidence_history \<Rightarrow> (session_id \<times> sha256_digest \<times> string) set" where
  "issued_references h =
     (\<lambda>(s, stored). (s, em_digest (st_metadata stored), em_media_type (st_metadata stored))) ` set (eh_issued h)"

definition history_ok :: "(string \<Rightarrow> string) \<Rightarrow> evidence_history \<Rightarrow> bool" where
  "history_ok sha h \<longleftrightarrow> store_inv_fs sha (issued_references h) (set (eh_released h)) (eh_store h)"

lemma history_simps [simp]:
  "issued_references (h\<lparr>eh_store := st\<rparr>) = issued_references h"
  "issued_references (h\<lparr>eh_released := rs\<rparr>) = issued_references h"
  by (simp_all add: issued_references_def)

lemma inv_more_released: "store_inv_fs sha A R st \<Longrightarrow> R \<subseteq> R' \<Longrightarrow> store_inv_fs sha A R' st"
  by (auto simp: store_inv_fs_def told_def)

lemma history_issue:
  assumes "history_ok sha h" "outcome = m (eh_store h)"
    and "\<And>A R. hoare (store_inv_fs sha A R) m (\<lambda>r st. store_inv_fs sha A R st \<and> acknowledged s r st) (store_inv_fs sha A R)"
  shows "history_ok sha (issue s outcome h)"
proof -
  obtain r st' where m: "m (eh_store h) = (r, st')" by fastforce
  note inv = assms(1) [unfolded history_ok_def]
  show ?thesis
  proof (cases r)
    case (Inl e)
    then show ?thesis using hoareD(2) [OF assms(3) inv] m assms(2) by (simp add: issue_def history_ok_def issued_references_def)
  next
    case (Inr stored)
    then show ?thesis using hoareD(1) [OF assms(3) inv] m assms(2)
      by (auto simp: issue_def history_ok_def issued_references_def store_inv_fs_def told_def acknowledged_def)
  qed
qed

lemma history_keeps:
  assumes "history_ok sha h" "\<And>A R. keeps (store_inv_fs sha A R) m"
  shows "history_ok sha (h\<lparr>eh_store := snd (m (eh_store h))\<rparr>)"
  using keepsD [OF assms(2)] assms(1) by (simp add: history_ok_def) (metis prod.collapse)

lemma reads_methods:
  "reads (verify_session_reference sha s asset)" "reads (open_asset sha asset)" "reads (file_metadata sha d)"
  "reads referenced_sessions"
  unfolding verify_session_reference_def open_asset_def file_metadata_def referenced_sessions_def
  by (intro reads_rules reads_scans)+

lemma hoare_put_request:
  assumes "put_evidence_new s media_type = Inr request"
  shows "hoare (store_inv_fs sha A R)
     (file_put sha now (request\<lparr>pe_expected_sha256 := expected, pe_declared_size_bytes := declared\<rparr>) input)
     (\<lambda>r st. store_inv_fs sha A R st \<and> acknowledged s r st) (store_inv_fs sha A R)"
  using hoare_put [of "request\<lparr>pe_expected_sha256 := expected, pe_declared_size_bytes := declared\<rparr>" sha A R now input] assms
  by (auto simp: put_evidence_new_def res_bind_eq_Inr)

lemma evidence_apply_ok: "history_ok sha h \<Longrightarrow> history_ok sha (evidence_apply sha call h)"
proof (induction sha call h rule: evidence_apply.induct)
  case (2 sha now s media_type expected declared input h)
  then show ?case
    by (auto intro!: history_issue hoare_put_request split: sum.split)
next
  case (9 sha now s released_at_ms h)
  have "store_inv_fs sha (issued_references h) (set (s # eh_released h)) (eh_store h)"
    using 9 by (auto simp: history_ok_def intro: inv_more_released)
  then show ?case
    using keepsD [OF keeps_release, of s "set (s # eh_released h)"] by (simp add: history_ok_def) (metis prod.collapse)
qed (auto intro!: history_keeps history_issue hoare_put_publish hoare_attach keeps_new keeps_gc keeps_reads reads_methods)

lemma evidence_calls_ok: "history_ok sha h \<Longrightarrow> history_ok sha (evidence_calls sha calls h)"
proof (induction calls arbitrary: h)
  case (Cons x calls)
  obtain faults call where x: "x = (faults, call)" by fastforce
  have "history_ok sha (h\<lparr>eh_store := (eh_store h)\<lparr>ff_faults := faults\<rparr>\<rparr>)"
    using Cons.prems by (simp add: history_ok_def)
  then show ?case unfolding x evidence_calls_simps by (rule Cons.IH [OF evidence_apply_ok])
qed simp

lemma history_invariant: "history_ok sha (evidence_history sha config calls)"
  unfolding evidence_history_def
  by (rule evidence_calls_ok)
    (simp add: history_ok_def inv_parts issued_references_def empty_disk_def session_entries_def bt_wf_Nil)

text \<open>What was issued before has no effect on the calls, and releases are only added.\<close>

lemma evidence_apply_issued:
  "evidence_apply sha call (h\<lparr>eh_issued := eh_issued h @ xs\<rparr>) =
     (evidence_apply sha call h)\<lparr>eh_issued := eh_issued (evidence_apply sha call h) @ xs\<rparr>"
  by (cases call) (auto simp: issue_def split: sum.split)

lemma evidence_calls_issued:
  "evidence_calls sha calls (h\<lparr>eh_issued := eh_issued h @ xs\<rparr>) =
     (evidence_calls sha calls h)\<lparr>eh_issued := eh_issued (evidence_calls sha calls h) @ xs\<rparr>"
proof (induction calls arbitrary: h)
  case (Cons x calls)
  obtain faults call where x: "x = (faults, call)" by fastforce
  have "(h\<lparr>eh_issued := eh_issued h @ xs\<rparr>)\<lparr>eh_store := st\<rparr> = (h\<lparr>eh_store := st\<rparr>)\<lparr>eh_issued := eh_issued (h\<lparr>eh_store := st\<rparr>) @ xs\<rparr>"
    for st by simp
  then show ?case unfolding x evidence_calls_simps by (simp only: evidence_apply_issued Cons.IH) simp
qed simp

lemma evidence_calls_released: "set (eh_released h) \<subseteq> set (eh_released (evidence_calls sha calls h))"
proof (induction calls arbitrary: h)
  case (Cons x calls)
  obtain faults call where x: "x = (faults, call)" by fastforce
  have "set (eh_released h) \<subseteq> set (eh_released (evidence_apply sha call (h\<lparr>eh_store := st\<rparr>)))" for st
    by (cases call) (auto simp: issue_def split: sum.split)
  from order_trans [OF this Cons.IH] show ?case by (auto simp: x)
qed simp

subsection \<open>The store as the provider of the writer\<close>

text \<open>
  The store meets the contract of the writer at every point of a history: \<open>A\<close> are the references
  issued before, \<open>R\<close> the Sessions whose release was requested.
\<close>

definition reference_held :: "session_id set \<Rightarrow> session_id \<Rightarrow> stored_evidence \<Rightarrow> file_store \<Rightarrow> bool" where
  "reference_held R s stored st \<longleftrightarrow> s \<in> R \<or> acknowledged s stored st"

lemma inv_held:
  "store_inv_fs sha A R st \<and> reference_held R s stored st \<longleftrightarrow>
     store_inv_fs sha (insert (s, em_digest (st_metadata stored), em_media_type (st_metadata stored)) A) R st"
  by (auto simp: store_inv_fs_def told_def reference_held_def acknowledged_def)

lemma issuing_keeps_held:
  assumes "\<And>A R. hoare (store_inv_fs sha A R) m (\<lambda>r st. store_inv_fs sha A R st \<and> acknowledged s r st) (store_inv_fs sha A R)"
    and "store_inv_fs sha A R st" "m st = (r, st')"
  shows "store_inv_fs sha A R st'" "r = Inr stored \<Longrightarrow> reference_held R s stored st'"
    "reference_held R s' stored' st \<Longrightarrow> reference_held R s' stored' st'"
proof -
  have inv: "store_inv_fs sha B R st'" if "store_inv_fs sha B R st" for B
    using hoareD [OF assms(1) that] assms(3) by (cases r) auto
  then show "store_inv_fs sha A R st'" using assms(2) .
  show "reference_held R s stored st'" if "r = Inr stored"
    using hoareD(1) [OF assms(1,2)] assms(3) that by (simp add: reference_held_def)
  show "reference_held R s' stored' st'" if "reference_held R s' stored' st"
    using inv inv_held that assms(2) by blast
qed

interpretation fs_evidence:
  evidence_contract "file_put sha now" "file_attach sha now" "store_inv_fs sha A R" "reference_held R" for sha now A R
proof (unfold_locales, goal_cases)
  case (1 e request i r e')
  show ?case by (rule issuing_keeps_held(1) [OF hoare_put 1(1,3)]) (rule 1(2))
next
  case (2 e request i stored e')
  show ?case by (rule issuing_keeps_held(2) [OF hoare_put 2(1,3) refl]) (rule 2(2))
next
  case (3 e request i r e' s x)
  show ?case by (rule issuing_keeps_held(3) [OF hoare_put 3(1,3,4)]) (rule 3(2))
next
  case (4 e s a r e')
  then show ?case by (rule issuing_keeps_held(1) [OF hoare_attach])
next
  case (5 e s a stored e')
  then show ?case by (rule issuing_keeps_held(2) [OF hoare_attach _ _ refl])
next
  case (6 e s a r e' s' x)
  then show ?case by (rule issuing_keeps_held(3) [OF hoare_attach])
qed

subsection \<open>Reads without failures\<close>

lemma quiet_access: "ff_faults st = [] \<Longrightarrow> io_access operation st = (Inr (), st)"
  by (simp add: io_access_def io_step_def)

lemma quiet_fold:
  "(\<And>acc x. x \<in> set xs \<Longrightarrow> \<exists>acc'. f acc x st = (Inr acc', st)) \<Longrightarrow> \<exists>acc'. op_fold f acc xs st = (Inr acc', st)"
proof (induction xs arbitrary: acc)
  case (Cons x xs)
  obtain acc1 where "f acc x st = (Inr acc1, st)" using Cons.prems by force
  moreover obtain acc' where "op_fold f acc1 xs st = (Inr acc', st)" using Cons by force
  ultimately show ?case by (simp add: op_bind_def)
qed (simp add: op_return_def)

lemma quiet_metadata:
  assumes "ff_faults st = []" "map_of (ff_objects st) d = Some obj" "object_ok sha d obj"
  shows "read_object_metadata d st = (Inr (eo_meta obj), st)"
  using assms by (simp add: read_object_metadata_def op_defs quiet_access object_ok_def)

lemma quiet_verify:
  assumes "ff_faults st = []" "map_of (ff_objects st) d = Some obj" "object_ok sha d obj"
  shows "verify_object sha d st = (Inr (eo_meta obj, eo_data obj), st)"
  using assms quiet_metadata [OF assms]
  by (simp add: verify_object_def op_defs quiet_access object_ok_def verify_content_def)

lemma quiet_audit:
  assumes "ff_faults st = []" "store_inv_fs sha A R st" "reference st s d = Some m"
  shows "\<exists>object. audit_reference s d m st = (Inr object, st)"
proof -
  from assms(2,3) obtain obj where obj: "map_of (ff_objects st) d = Some obj" "om_media_type (eo_meta obj) = rm_media_type m"
    and "object_ok sha d obj" "validate_reference_marker m s d (rm_media_type m) = Inr ()"
    by (auto simp: inv_parts) metis
  with quiet_metadata [OF assms(1)] show ?thesis by (simp add: audit_reference_def op_defs)
qed

lemma scanned_reference:
  assumes "references_ok st" "(s, es) \<in> set (ff_references st)" "(d, m) \<in> set es"
  shows "reference st s d = Some m"
proof -
  have "session_entries s st = es"
    using assms entries_in_references [of st s es] by (simp add: session_entries_def references_ok_def)
  moreover from this have "bt_wf es" using assms(1) by (auto simp: references_ok_def)
  ultimately show ?thesis using assms(3) bt_wf_distinct by (metis map_of_eq_Some_iff)
qed

lemma quiet_count_session:
  assumes "ff_faults st = []" "store_inv_fs sha A R st" "(s, es) \<in> set (ff_references st)"
  shows "\<exists>count'. op_fold (\<lambda>count (digest, marker). op_bind (audit_reference s digest marker) (\<lambda>_.
      op_return (if digest = d then saturating_add_u64 count 1 else count))) count es st = (Inr count', st)"
proof (rule quiet_fold)
  fix count x
  assume "x \<in> set es"
  then have "reference st s (fst x) = Some (snd x)"
    using scanned_reference [of st s es "fst x" "snd x"] assms(2,3) by (simp add: store_inv_fs_def)
  then obtain object where "audit_reference s (fst x) (snd x) st = (Inr object, st)"
    using quiet_audit [OF assms(1,2)] by blast
  then show "\<exists>count'. (case x of (digest, marker) \<Rightarrow> op_bind (audit_reference s digest marker) (\<lambda>_.
      op_return (if digest = d then saturating_add_u64 count 1 else count))) st = (Inr count', st)"
    by (simp add: case_prod_beta op_bind_def op_return_def)
qed

lemma quiet_count:
  assumes "ff_faults st = []" "store_inv_fs sha A R st"
  shows "\<exists>count. indexed_reference_count d st = (Inr count, st)"
proof -
  have "\<exists>count. op_fold (\<lambda>count (s, es). op_bind (io_access ''list session references'') (\<lambda>_.
      op_fold (\<lambda>count (digest, marker). op_bind (audit_reference s digest marker) (\<lambda>_.
        op_return (if digest = d then saturating_add_u64 count 1 else count))) count es))
      0 (ff_references st) st = (Inr count, st)"
    by (rule quiet_fold) (use quiet_count_session [OF assms] in \<open>auto simp: op_bind_def quiet_access [OF assms(1)]\<close>)
  then have "\<exists>count. count_references d st = (Inr count, st)"
    by (simp add: count_references_def op_bind_def quiet_access [OF assms(1)] op_gets_def)
  then show ?thesis by (simp add: indexed_reference_count_def op_bind_def op_gets_def op_return_def split: option.split)
qed

lemma valid_object_media_type: "object_ok sha d obj \<Longrightarrow> validate_media_type (om_media_type (eo_meta obj)) = Inr ()"
  by (auto simp: object_ok_def validate_object_metadata_def evidence_metadata_new_def res_map_err_def res_bind_eq_Inr
      split: if_splits sum.splits)

lemma issued_asset_digest:
  assumes "object_ok sha d obj" "em_digest (st_metadata stored) = d"
    and "em_media_type (st_metadata stored) = om_media_type (eo_meta obj)"
  shows "from_asset_ref (stored_asset_ref stored) = Inr d"
proof -
  have "digest_parse d = Inr d"
    using assms(1) by (auto simp: object_ok_def digest_from_hash_def digest_parse_def split: if_splits)
  then show ?thesis using valid_object_media_type [OF assms(1)] assms(2,3)
    by (simp add: from_asset_ref_def stored_asset_ref_def Let_def res_map_err_def)
qed

lemma quiet_retrieval:
  assumes "ff_faults st = []" "store_inv_fs sha A R st" "s \<notin> R"
    and "(s, em_digest (st_metadata stored), em_media_type (st_metadata stored)) \<in> A"
  shows "\<exists>data metadata.
     open_asset sha (stored_asset_ref stored) st = (Inr data, st) \<and>
     digest_from_hash sha data = Inr (em_digest (st_metadata stored)) \<and>
     verify_session_reference sha s (stored_asset_ref stored) st = (Inr metadata, st) \<and>
     em_digest metadata = em_digest (st_metadata stored)"
proof -
  let ?d = "em_digest (st_metadata stored)"
  obtain m where m: "reference st s ?d = Some m" "rm_media_type m = em_media_type (st_metadata stored)"
    using assms(2-4) unfolding store_inv_fs_def told_def refers_def by blast
  then obtain obj where obj: "map_of (ff_objects st) ?d = Some obj" "om_media_type (eo_meta obj) = rm_media_type m"
    and ok: "object_ok sha ?d obj" and valid: "validate_reference_marker m s ?d (rm_media_type m) = Inr ()"
    using assms(2) by (auto simp: inv_parts) metis
  have digest: "from_asset_ref (stored_asset_ref stored) = Inr ?d"
    using issued_asset_digest [OF ok] obj m by simp
  have type: "ar_media_type (stored_asset_ref stored) = rm_media_type m"
    using m by (simp add: stored_asset_ref_def Let_def)
  have opened: "map_of (ff_released st) s = None" using assms(2,3) by (auto simp: store_inv_fs_def told_def)
  obtain count where count: "indexed_reference_count ?d st = (Inr count, st)" using quiet_count [OF assms(1,2)] by blast
  note verify = quiet_verify [OF assms(1) obj(1) ok]
  have "open_asset sha (stored_asset_ref stored) st = (Inr (eo_data obj), st)"
    using digest type obj(2) by (simp add: open_asset_def op_defs verify)
  moreover have "\<exists>metadata. verify_session_reference sha s (stored_asset_ref stored) st = (Inr metadata, st) \<and> em_digest metadata = ?d"
    using digest type obj(2) m(1) valid opened valid_object_media_type [OF ok] count
    by (simp add: verify_session_reference_def op_defs ensure_session_open_def quiet_access [OF assms(1)] verify
        evidence_metadata_new_def)
  moreover have "digest_from_hash sha (eo_data obj) = Inr ?d" using ok by (simp add: object_ok_def)
  ultimately show ?thesis by blast
qed

text \<open>Evidence a Driver stored through its writer, at any later point before its Session is released.\<close>

lemma writer_evidence_retrievable:
  assumes "history_ok sha h"
    and run: "writer_run (file_put sha now) (file_attach sha now) calls (evidence_writer_new s)
                ((eh_store h)\<lparr>ff_faults := faults\<rparr>) = (issued, w, st')" "stored \<in> set issued"
    and later: "h' = evidence_calls sha later (h\<lparr>eh_store := st'\<rparr>)" "s \<notin> set (eh_released h')"
    and st: "st = (eh_store h')\<lparr>ff_faults := []\<rparr>"
  shows "\<exists>data metadata.
     open_asset sha (stored_asset_ref stored) st = (Inr data, st) \<and>
     digest_from_hash sha data = Inr (em_digest (st_metadata stored)) \<and>
     verify_session_reference sha s (stored_asset_ref stored) st = (Inr metadata, st) \<and>
     em_digest metadata = em_digest (st_metadata stored)"
proof -
  let ?h = "(h\<lparr>eh_store := st'\<rparr>)\<lparr>eh_issued := eh_issued (h\<lparr>eh_store := st'\<rparr>) @ [(s, stored)]\<rparr>"
  let ?h' = "h'\<lparr>eh_issued := eh_issued h' @ [(s, stored)]\<rparr>"
  have "store_inv_fs sha (issued_references h) (set (eh_released h)) ((eh_store h)\<lparr>ff_faults := faults\<rparr>)"
    using assms(1) by (simp add: history_ok_def)
  from fs_evidence.writer_run_held [OF run(1) this] run(2)
  have "store_inv_fs sha (issued_references h) (set (eh_released h)) st' \<and> reference_held (set (eh_released h)) s stored st'"
    by (simp add: evidence_writer_new_def)
  then have "history_ok sha ?h" unfolding inv_held by (simp add: history_ok_def issued_references_def)
  then have "history_ok sha ?h'" using evidence_calls_ok [of sha ?h later] by (simp only: evidence_calls_issued later(1))
  then have "store_inv_fs sha (issued_references ?h') (set (eh_released h')) st" by (simp add: history_ok_def st)
  then show ?thesis by (rule quiet_retrieval [rotated]) (use later(2) in \<open>auto simp: st issued_references_def\<close>)
qed

subsection \<open>A sample run\<close>

definition sample_sha :: "string \<Rightarrow> string" where
  "sample_sha _ = replicate 64 CHR ''a''"

definition sample_calls :: "(io_fault list \<times> evidence_call) list" where
  "sample_calls =
     [([], DoNew 0 file_evidence_store_config_default),
      ([], DoPut 2 7 ''image/png'' None None [ReadBytes ''abc'']),
      ([IoOk, IoFailed ''interrupted''], DoRelease 2 8 2),
      ([IoFailed ''interrupted''], DoGc 3 (gc_policy_delete 3))]"

definition sample_stored :: stored_evidence where
  "sample_stored =
     \<lparr>st_metadata = \<lparr>em_digest = replicate 64 CHR ''a'', em_media_type = ''image/png'', em_byte_length = 3,
        em_created_at_ms = 2, em_reference_count = 1\<rparr>, st_deduplicated = False\<rparr>"

lemma sample_media: "validate_media_type ''image/png'' = Inr ()"
  by code_simp

lemma sample_digest: "digest_from_hash sample_sha data = Inr (replicate 64 CHR ''a'')"
proof -
  have "digest_from_hash (\<lambda>_. replicate 64 CHR ''a'') data = digest_parse (replicate 64 CHR ''a'')"
    by (simp add: digest_from_hash_def)
  also have "\<dots> = Inr (replicate 64 CHR ''a'')" by code_simp
  finally show ?thesis by (simp add: sample_sha_def [abs_def])
qed

lemmas io_defs = io_access_def io_step_def io_remove_all_def atomic_write_json_def sync_directory_def op_defs

definition sample_opened :: file_store where
  "sample_opened =
     (empty_disk file_evidence_store_config_default)
       \<lparr>ff_header := Some \<lparr>sh_schema_version = STORE_VERSION, sh_hash_algorithm = HASH_ALGORITHM\<rparr>,
        ff_index := Some reference_index_default\<rparr>"

lemma sample_new:
  "file_store_new sample_sha 0 file_evidence_store_config_default (empty_disk file_evidence_store_config_default) =
     (Inr (), sample_opened)"
  by (simp add: file_store_new_def io_defs valid_store_config_def file_evidence_store_config_default_def
      SEMAPHORE_MAX_PERMITS_def check_header_if_present_def empty_disk_def cleanup_atomic_temporaries_def
      initialize_header_def recover_gc_trash_def raw_referenced_digests_def rebuild_reference_index_def
      scan_reference_index_def recover_released_sessions_def recover_reference_state_def sample_opened_def)

lemma sample_put:
  assumes "request = \<lparr>pe_session_id = 7, pe_media_type = ''image/png'', pe_expected_sha256 = None, pe_declared_size_bytes = None\<rparr>"
  shows "fst (file_put sample_sha 2 request [ReadBytes ''abc''] sample_opened) = Inr sample_stored"
  by (simp add: assms file_put_def put_stage_def put_publish_def publish_object_def add_reference_def io_defs
      ensure_session_open_def empty_disk_def file_evidence_store_config_default_def checked_add_u64_def
      saturating_add_u64_def U64_MAX_def sample_digest indexed_reference_count_def reference_index_default_def
      recover_gc_trash_entry_def indexed_session_reference_count_def session_entries_def
      session_directory_exists_def remove_unreferenced_marker_if_present_def evidence_metadata_new_def sample_media
      new_object_def update_index_def sample_opened_def sample_stored_def)

lemma sample_history:
  "eh_issued (evidence_history sample_sha file_evidence_store_config_default sample_calls) = [(7, sample_stored)]"
  "eh_released (evidence_history sample_sha file_evidence_store_config_default sample_calls) = [8]"
proof -
  have "(empty_disk c)\<lparr>ff_faults := []\<rparr> = empty_disk c" for c by (simp add: empty_disk_def)
  moreover have "sample_opened\<lparr>ff_faults := []\<rparr> = sample_opened" by (simp add: sample_opened_def empty_disk_def)
  ultimately show
    "eh_issued (evidence_history sample_sha file_evidence_store_config_default sample_calls) = [(7, sample_stored)]"
    "eh_released (evidence_history sample_sha file_evidence_store_config_default sample_calls) = [8]"
    by (simp_all add: evidence_history_def sample_calls_def sample_new put_evidence_new_def sample_media issue_def sample_put)
qed

subsection \<open>Properties\<close>

text \<open>
  C6. Type of the store: whatever calls are made and whatever accesses of the filesystem fail in
  them, reopening after crashes included, the disk is well-formed. The content of every object, live
  or in the trash, has the length its metadata states and the digest it is stored under; no digest is both live
  and in the trash; every reference marker agrees with its path and points to a live object of the
  media type it records; and the markers of released Sessions and unreferenced objects agree with
  their paths.
\<close>

theorem evidence_disk_well_formed:
  "let st = eh_store (evidence_history sha config calls) in objects_ok sha st \<and> references_ok st \<and> markers_ok st"
  using history_invariant [of sha config calls] by (simp add: Let_def history_ok_def store_inv_fs_def)

text \<open>
  C5. Issued evidence is retrievable: once \<open>put\<close> or \<open>attach\<close> has returned a reference for a
  Session, then as long as no release of that Session was requested, and whatever calls follow, the collector and
  failed or interrupted operations included, a caller whose accesses do not fail can open the
  reference and gets bytes of its digest, and \<open>verify_session_reference\<close> confirms it for the Session.
\<close>

theorem issued_evidence_retrievable:
  assumes "(s, stored) \<in> set (eh_issued (evidence_history sha config calls))"
    and "s \<notin> set (eh_released (evidence_history sha config calls))"
    and "st = (eh_store (evidence_history sha config calls))\<lparr>ff_faults := []\<rparr>"
  shows "\<exists>data metadata.
     open_asset sha (stored_asset_ref stored) st = (Inr data, st) \<and>
     digest_from_hash sha data = Inr (em_digest (st_metadata stored)) \<and>
     verify_session_reference sha s (stored_asset_ref stored) st = (Inr metadata, st) \<and>
     em_digest metadata = em_digest (st_metadata stored)"
proof (rule quiet_retrieval)
  show "ff_faults st = []" using assms(3) by simp
  show "store_inv_fs sha (issued_references (evidence_history sha config calls))
      (set (eh_released (evidence_history sha config calls))) st"
    using history_invariant [of sha config calls] assms(3) by (simp add: history_ok_def)
  show "(s, em_digest (st_metadata stored), em_media_type (st_metadata stored)) \<in> issued_references (evidence_history sha config calls)"
    using assms(1) by (force simp: issued_references_def)
qed (rule assms(2))

theorem issued_evidence_retrievable_witness:
  "let h = evidence_history sample_sha file_evidence_store_config_default sample_calls in
   (7, sample_stored) \<in> set (eh_issued h) \<and> 7 \<notin> set (eh_released h) \<and>
   (\<exists>data metadata.
     fst (open_asset sample_sha (stored_asset_ref sample_stored) ((eh_store h)\<lparr>ff_faults := []\<rparr>)) = Inr data \<and>
     digest_from_hash sample_sha data = Inr (em_digest (st_metadata sample_stored)) \<and>
     fst (verify_session_reference sample_sha 7 (stored_asset_ref sample_stored) ((eh_store h)\<lparr>ff_faults := []\<rparr>)) = Inr metadata)"
  using issued_evidence_retrievable [of 7 sample_stored sample_sha file_evidence_store_config_default sample_calls, OF _ _ refl]
  by (auto simp: Let_def sample_history)

end
