(* ===== verification/Driver_Registry.thy ===== *)
theory Driver_Registry
  imports Device_Gates Runtime
begin

text \<open>
  The registry of Drivers, \<open>crates/core/src/registry.rs\<close>: the routes to the registered devices beside
  the device pool that arbitrates their leases.

  An entry is an \<open>Arc\<close>: \<open>re_ref\<close> is its address, which \<open>Arc::ptr_eq\<close> compares, and a handle is
  the entry it points to. The metadata of an entry is mutable and kept in \<open>dr_infos\<close>. Registration
  and removal hold the write lock of the routes from their first check to their end, every other
  operation of the pool runs under its read lock; an operation is therefore one step, and the gate of a device is the
  current one when its body runs. Clock readings, fresh gates, addresses and lease ids, and the
  outcomes of waiting for the lifecycle gate and for the Driver are arguments.
\<close>

subsection \<open>Errors\<close>

datatype registry_error =
    RegInvalidDeviceId device_id
  | RegInvalidDeviceName device_id
  | RegDeviceIdMismatch device_id device_id
  | RegDeviceAlreadyRegistered device_id
  | RegDeviceNotFound device_id
  | RegDeviceLeased device_id
  | RegInventoryInconsistent device_id
  | RegNoDevicesRegistered
  | RegDeviceSelectionRequired nat

text \<open>\<open>debug\<close> is the \<open>Debug\<close> form of a device id, which the first message quotes.\<close>

definition registry_error_info :: "(device_id \<Rightarrow> string) \<Rightarrow> registry_error \<Rightarrow> error_info" where
  "registry_error_info debug e =
     (let info = (\<lambda>code message retryable details.
            \<lparr>ei_code = code, ei_message = message, ei_retryable = retryable, ei_details = details\<rparr>);
          device = (\<lambda>d. Some (json_object [(''deviceId'', JString d)]))
      in case e of
        RegInvalidDeviceId d \<Rightarrow> info ''invalid_device_id'' (''device id must not be empty: '' @ debug d) False (device d)
      | RegInvalidDeviceName d \<Rightarrow>
          info ''invalid_device_name'' (''device name must not be empty for '' @ d) False (device d)
      | RegDeviceIdMismatch driver_id info_id \<Rightarrow>
          info ''device_id_mismatch'' (''driver id '' @ driver_id @ '' does not match device info id '' @ info_id) False
            (Some (json_object [(''driverId'', JString driver_id), (''deviceInfoId'', JString info_id)]))
      | RegDeviceAlreadyRegistered d \<Rightarrow>
          info ''device_already_registered'' (''device is already registered: '' @ d) False (device d)
      | RegDeviceNotFound d \<Rightarrow> info ''device_not_found'' (''device is not registered: '' @ d) False (device d)
      | RegDeviceLeased d \<Rightarrow> info ''device_leased'' (''cannot unregister a leased device: '' @ d) True (device d)
      | RegInventoryInconsistent d \<Rightarrow>
          info ''registry_inventory_inconsistent''
            (''registry and device pool inventory are inconsistent for '' @ d) False (device d)
      | RegNoDevicesRegistered \<Rightarrow> info ''no_devices_registered'' ''no devices are registered'' True None
      | RegDeviceSelectionRequired count \<Rightarrow>
          info ''device_selection_required''
            (''a device must be selected because '' @ decimal count @ '' devices are registered'') False
            (Some (json_object [(''deviceCount'', json_u64 count)])))"

definition unregister_error :: "device_id \<Rightarrow> device_pool_error \<Rightarrow> registry_error" where
  "unregister_error device_id e =
     (case e of PoolDeviceLeased _ \<Rightarrow> RegDeviceLeased device_id | _ \<Rightarrow> RegInventoryInconsistent device_id)"

definition validate_registration :: "device_id \<Rightarrow> device_info \<Rightarrow> registry_error + unit" where
  "validate_registration driver_id info =
     (if trim_is_empty driver_id then Inl (RegInvalidDeviceId driver_id)
      else if trim_is_empty (di_id info) then Inl (RegInvalidDeviceId (di_id info))
      else if trim_is_empty (di_name info) then Inl (RegInvalidDeviceName (di_id info))
      else if di_id info \<noteq> driver_id then Inl (RegDeviceIdMismatch driver_id (di_id info))
      else Inr ())"

subsection \<open>The registry\<close>

record registry_entry =
  re_ref :: nat
  re_runtime :: device_runtime
  re_registration :: device_registration_token

abbreviation handle_id :: "registry_entry \<Rightarrow> device_id" where
  "handle_id handle \<equiv> rt_driver_id (re_runtime handle)"

record driver_registry =
  dr_strict_evidence_receipts :: bool
  dr_screenshot_policy :: screenshot_policy
  dr_pool_config :: device_pool_config
  dr_pool :: pool_state
  dr_entries :: "(device_id \<times> registry_entry) list"
  dr_infos :: "(nat \<times> device_info) list"

text \<open>\<open>strict\<close> is set by \<open>with_evidence_and_pool_config\<close> and not by \<open>new_with_pool_config\<close>.\<close>

definition registry_with_pool_config :: "bool \<Rightarrow> device_pool_config \<Rightarrow> device_pool_error + driver_registry" where
  "registry_with_pool_config strict pool_config =
     res_bind (device_pool_new pool_config) (\<lambda>(config, pool).
       Inr \<lparr>dr_strict_evidence_receipts = strict, dr_screenshot_policy = Capture, dr_pool_config = config,
            dr_pool = pool, dr_entries = [], dr_infos = []\<rparr>)"

definition registry_with_screenshot_policy :: "screenshot_policy \<Rightarrow> driver_registry \<Rightarrow> driver_registry" where
  "registry_with_screenshot_policy policy reg = reg\<lparr>dr_screenshot_policy := policy\<rparr>"

definition ensure_current_entry ::
  "(device_id \<times> registry_entry) list \<Rightarrow> registry_entry \<Rightarrow> device_pool_error + unit" where
  "ensure_current_entry entries handle =
     (case map_of entries (handle_id handle) of
        Some entry \<Rightarrow>
          if re_ref entry = re_ref handle then Inr () else Inl (PoolDeviceRegistrationChanged (handle_id handle))
      | None \<Rightarrow> Inl (PoolDeviceNotFound (handle_id handle)))"

text \<open>\<open>None\<close> stands for a panic inside the pool.\<close>

definition registry_register ::
  "gate \<Rightarrow> nat \<Rightarrow> device_id \<Rightarrow> device_info \<Rightarrow> driver_registry \<Rightarrow>
   ((registry_error + registry_entry) \<times> driver_registry) option" where
  "registry_register gate ref driver_id info reg =
     (case validate_registration driver_id info of
        Inl e \<Rightarrow> Some (Inl e, reg)
      | Inr _ \<Rightarrow>
          let runtime = runtime_with_screenshot_policy (dr_screenshot_policy reg)
                (if dr_strict_evidence_receipts reg then device_runtime_with_evidence driver_id
                 else device_runtime_new driver_id)
          in case map_of (dr_entries reg) driver_id of
               Some _ \<Rightarrow> Some (Inl (RegDeviceAlreadyRegistered driver_id), reg)
             | None \<Rightarrow>
                 (case register gate driver_id (dr_pool reg) of
                    Returns (Inl _) pool \<Rightarrow>
                      Some (Inl (RegDeviceAlreadyRegistered driver_id), reg\<lparr>dr_pool := pool\<rparr>)
                  | Returns (Inr registration) pool \<Rightarrow>
                      let entry = \<lparr>re_ref = ref, re_runtime = runtime, re_registration = registration\<rparr>
                      in Some (Inr entry,
                               reg\<lparr>dr_pool := pool, dr_entries := bt_insert driver_id entry (dr_entries reg),
                                   dr_infos := bt_insert ref info (dr_infos reg)\<rparr>)
                  | _ \<Rightarrow> None))"

definition registry_list :: "driver_registry \<Rightarrow> device_info list" where
  "registry_list reg = List.map_filter (\<lambda>(_, entry). map_of (dr_infos reg) (re_ref entry)) (dr_entries reg)"

definition registry_unregister ::
  "device_id \<Rightarrow> nat \<Rightarrow> nat \<Rightarrow> driver_registry \<Rightarrow> ((registry_error + unit) \<times> driver_registry) option" where
  "registry_unregister device_id now_ms now reg =
     (if map_of (dr_entries reg) device_id = None then Some (Inl (RegDeviceNotFound device_id), reg)
      else
        (case remove_device device_id now_ms now (dr_pool reg) of
           Returns (Inl e) pool \<Rightarrow> Some (Inl (unregister_error device_id e), reg\<lparr>dr_pool := pool\<rparr>)
         | Returns (Inr _) pool \<Rightarrow>
             Some (Inr (), reg\<lparr>dr_pool := pool, dr_entries := hm_remove device_id (dr_entries reg)\<rparr>)
         | _ \<Rightarrow> None))"

definition resolve :: "device_id \<Rightarrow> driver_registry \<Rightarrow> registry_error + registry_entry" where
  "resolve device_id reg = ok_or (map_of (dr_entries reg) device_id) (RegDeviceNotFound device_id)"

definition sole :: "driver_registry \<Rightarrow> registry_error + registry_entry" where
  "sole reg =
     (case dr_entries reg of
        [] \<Rightarrow> Inl RegNoDevicesRegistered
      | [(_, entry)] \<Rightarrow> Inr entry
      | _ \<Rightarrow> Inl (RegDeviceSelectionRequired (length (dr_entries reg))))"

subsection \<open>Operations on the pool\<close>

definition registry_record_health ::
  "registry_entry \<Rightarrow> pool_health \<Rightarrow> nat \<Rightarrow> nat \<Rightarrow> driver_registry \<Rightarrow> pool_health pool_run" where
  "registry_record_health handle health now_ms now reg =
     (case ensure_current_entry (dr_entries reg) handle of
        Inl e \<Rightarrow> Returns (Inl e) (dr_pool reg)
      | Inr _ \<Rightarrow> record_health (re_registration handle) health now_ms now (dr_pool reg))"

definition acquire_lease ::
  "lease_id list \<Rightarrow> registry_entry \<Rightarrow> lease_owner_id \<Rightarrow> nat \<Rightarrow> nat \<Rightarrow> driver_registry \<Rightarrow> device_lease pool_run" where
  "acquire_lease draws handle owner_id now_ms now reg =
     (case ensure_current_entry (dr_entries reg) handle of
        Inl e \<Rightarrow> Returns (Inl e) (dr_pool reg)
      | Inr _ \<Rightarrow> acquire (dr_pool_config reg) draws (handle_id handle) owner_id now_ms now (dr_pool reg))"

text \<open>The body of an access operation runs with the gate that the pool has for the device.\<close>

definition on_current_entry ::
  "registry_entry \<Rightarrow> (gate \<Rightarrow> pool_state \<Rightarrow> device_id pool_run) \<Rightarrow> driver_registry \<Rightarrow> device_id pool_run" where
  "on_current_entry handle body reg =
     (case ensure_current_entry (dr_entries reg) handle of
        Inl e \<Rightarrow> Returns (Inl e) (dr_pool reg)
      | Inr _ \<Rightarrow>
          (case pool_gate (handle_id handle) (dr_pool reg) of
             Inl e \<Rightarrow> Returns (Inl e) (dr_pool reg)
           | Inr gate \<Rightarrow> body gate (dr_pool reg)))"

definition registry_access_with_lease ::
  "registry_entry \<Rightarrow> lease_id \<Rightarrow> lease_owner_id \<Rightarrow> nat \<Rightarrow> nat \<Rightarrow> driver_registry \<Rightarrow> device_id pool_run" where
  "registry_access_with_lease handle lid owner_id now_ms now reg =
     on_current_entry handle
       (\<lambda>gate. access_with_lease_inner (dr_pool_config reg) lid (handle_id handle) owner_id now_ms True gate now) reg"

definition registry_access_available_to ::
  "registry_entry \<Rightarrow> lease_owner_id \<Rightarrow> nat \<Rightarrow> nat \<Rightarrow> driver_registry \<Rightarrow> device_id pool_run" where
  "registry_access_available_to handle owner_id now_ms now reg =
     on_current_entry handle
       (\<lambda>gate. access_available_to_with_gate (handle_id handle) owner_id now_ms gate now) reg"

definition cleanup_access_with_lease ::
  "registry_entry \<Rightarrow> lease_id \<Rightarrow> lease_owner_id \<Rightarrow> nat \<Rightarrow> nat \<Rightarrow> driver_registry \<Rightarrow> device_id pool_run" where
  "cleanup_access_with_lease handle lid owner_id now_ms now reg =
     on_current_entry handle
       (\<lambda>gate. access_with_lease_inner (dr_pool_config reg) lid (handle_id handle) owner_id now_ms False gate now) reg"

subsection \<open>Operations on a device\<close>

text \<open>\<open>acquire_read\<close> and \<open>acquire_write\<close> of the lifecycle gate.\<close>

definition acquire_lifecycle ::
  "reading \<Rightarrow> execution_control \<Rightarrow> unit select_outcome \<Rightarrow> runtime_error + unit" where
  "acquire_lifecycle r control outcome =
     (case inactive_control_error r control of
        Some e \<Rightarrow> Inl e
      | None \<Rightarrow>
          (case outcome of
             FutureReady _ \<Rightarrow> Inr ()
           | CancelSignalled reason \<Rightarrow> Inl (RuntimeCancelled reason)
           | DeadlineFired \<Rightarrow> Inl (timeout_error control)))"

text \<open>\<open>capabilities\<close>, \<open>health_check\<close>, \<open>observe\<close> and \<open>execute\<close>: the operation of the runtime under the gate.\<close>

definition handle_operation ::
  "reading \<Rightarrow> execution_control \<Rightarrow> unit select_outcome \<Rightarrow> ('s \<Rightarrow> (runtime_error + 'a) \<times> 's) \<Rightarrow>
   's \<Rightarrow> (runtime_error + 'a) \<times> 's" where
  "handle_operation r control outcome operation st =
     (case acquire_lifecycle r control outcome of Inl e \<Rightarrow> (Inl e, st) | Inr _ \<Rightarrow> operation st)"

definition handle_connect ::
  "reading \<Rightarrow> unit select_outcome \<Rightarrow> reading \<Rightarrow> reading \<Rightarrow> execution_control \<Rightarrow>
   (driver_error + device_info) select_outcome \<Rightarrow> registry_entry \<Rightarrow> driver_registry \<Rightarrow>
   (runtime_error + device_info) \<times> driver_registry" where
  "handle_connect r outcome before after control reply handle reg =
     (case acquire_lifecycle r control outcome of
        Inl e \<Rightarrow> (Inl e, reg)
      | Inr _ \<Rightarrow>
          (case runtime_connect before after control reply of
             Inl e \<Rightarrow> (Inl e, reg)
           | Inr info \<Rightarrow>
               if di_id info \<noteq> handle_id handle
               then (Inl (RuntimeDriver (DriverProtocol
                       (''connected device id '' @ di_id info @ '' does not match registered device '' @
                        handle_id handle))), reg)
               else (Inr info, reg\<lparr>dr_infos := bt_insert (re_ref handle) info (dr_infos reg)\<rparr>)))"

definition handle_disconnect ::
  "reading \<Rightarrow> unit select_outcome \<Rightarrow> reading \<Rightarrow> reading \<Rightarrow> execution_control \<Rightarrow>
   (driver_error + unit) select_outcome \<Rightarrow> registry_entry \<Rightarrow> driver_registry \<Rightarrow>
   (runtime_error + unit) \<times> driver_registry" where
  "handle_disconnect r outcome before after control reply handle reg =
     (case acquire_lifecycle r control outcome of
        Inl e \<Rightarrow> (Inl e, reg)
      | Inr _ \<Rightarrow>
          (case runtime_disconnect before after control reply of
             Inl e \<Rightarrow> (Inl e, reg)
           | Inr _ \<Rightarrow>
               (Inr (),
                case map_of (dr_infos reg) (re_ref handle) of
                  Some info \<Rightarrow> reg\<lparr>dr_infos := bt_insert (re_ref handle) (info\<lparr>di_connected := False\<rparr>) (dr_infos reg)\<rparr>
                | None \<Rightarrow> reg)))"

end
