(* ===== verification/Registry_Properties.thy ===== *)
theory Registry_Properties
  imports Driver_Registry Pool_Properties
begin

text \<open>
  The registry and its pool under concurrency. \<open>gs_guards\<close> are the live \<open>DriverAccess\<close> and
  \<open>DriverLifecycleAccess\<close> values, each with the guard of the pool it holds, \<open>gs_handles\<close> the
  entries created so far and \<open>gs_issued\<close> their gates. The routes and the inventory of the pool
  always agree, and a live access keeps its route registered.
\<close>

subsection \<open>The system and its steps\<close>

record registry_system =
  gs_registry :: driver_registry
  gs_guards :: "(registry_entry \<times> access_guard) list"
  gs_handles :: "registry_entry set"
  gs_issued :: "gate set"

definition pool_of :: "registry_system \<Rightarrow> pool_system" where
  "pool_of s = \<lparr>sy_state = dr_pool (gs_registry s), sy_guards = map snd (gs_guards s), sy_issued = gs_issued s\<rparr>"

definition set_pool :: "pool_state \<Rightarrow> registry_system \<Rightarrow> registry_system" where
  "set_pool st s = s\<lparr>gs_registry := (gs_registry s)\<lparr>dr_pool := st\<rparr>\<rparr>"

definition grant_access ::
  "registry_entry \<Rightarrow> gate \<Rightarrow> lease_owner_id \<Rightarrow> device_pool_error + device_id \<Rightarrow> pool_state \<Rightarrow> registry_system \<Rightarrow>
   registry_system" where
  "grant_access handle g owner res st s =
     (set_pool st s)\<lparr>gs_guards :=
        (if is_ok res then (handle, g, handle_id handle, owner) # gs_guards s else gs_guards s)\<rparr>"

text \<open>An operation that waits for the exclusive gate of a device runs while no guard holds it.\<close>

definition device_free :: "registry_system \<Rightarrow> device_id \<Rightarrow> bool" where
  "device_free s d \<longleftrightarrow>
     (case pool_gate d (dr_pool (gs_registry s)) of Inr g \<Rightarrow> unguarded (pool_of s) g | Inl _ \<Rightarrow> True)"

definition registry_initial :: "driver_registry \<Rightarrow> registry_system" where
  "registry_initial reg = \<lparr>gs_registry = reg, gs_guards = [], gs_handles = {}, gs_issued = {}\<rparr>"

definition added_handles :: "registry_error + registry_entry \<Rightarrow> registry_entry set" where
  "added_handles res = (case res of Inr entry \<Rightarrow> {entry} | Inl _ \<Rightarrow> {})"

inductive registry_step :: "registry_system \<Rightarrow> registry_system \<Rightarrow> bool" where
  step_register: "g \<notin> gs_issued s \<Longrightarrow> ref \<notin> re_ref ` gs_handles s \<Longrightarrow>
    registry_register g ref driver_id info (gs_registry s) = Some (res, reg) \<Longrightarrow>
    registry_step s (s\<lparr>gs_registry := reg, gs_handles := gs_handles s \<union> added_handles res,
                       gs_issued := insert g (gs_issued s)\<rparr>)"
| step_unregister: "device_free s d \<Longrightarrow> registry_unregister d now_ms now (gs_registry s) = Some (res, reg) \<Longrightarrow>
    registry_step s (s\<lparr>gs_registry := reg\<rparr>)"
| step_health: "handle \<in> gs_handles s \<Longrightarrow>
    registry_record_health handle health now_ms now (gs_registry s) = Returns res st \<Longrightarrow>
    registry_step s (set_pool st s)"
| step_acquire: "handle \<in> gs_handles s \<Longrightarrow> device_free s (handle_id handle) \<Longrightarrow>
    acquire_lease draws handle owner now_ms now (gs_registry s) = Returns res st \<Longrightarrow>
    registry_step s (set_pool st s)"
| step_access: "handle \<in> gs_handles s \<Longrightarrow>
    registry_access_with_lease handle lid owner now_ms now (gs_registry s) = Returns res st \<Longrightarrow>
    (is_ok res \<Longrightarrow> pool_gate (handle_id handle) (dr_pool (gs_registry s)) = Inr g) \<Longrightarrow>
    registry_step s (grant_access handle g owner res st s)"
| step_available: "handle \<in> gs_handles s \<Longrightarrow>
    registry_access_available_to handle owner now_ms now (gs_registry s) = Returns res st \<Longrightarrow>
    (is_ok res \<Longrightarrow> pool_gate (handle_id handle) (dr_pool (gs_registry s)) = Inr g) \<Longrightarrow>
    registry_step s (grant_access handle g owner res st s)"
| step_cleanup: "handle \<in> gs_handles s \<Longrightarrow>
    cleanup_access_with_lease handle lid owner now_ms now (gs_registry s) = Returns res st \<Longrightarrow>
    (is_ok res \<Longrightarrow> pool_gate (handle_id handle) (dr_pool (gs_registry s)) = Inr g) \<Longrightarrow>
    registry_step s (grant_access handle g owner res st s)"
| step_drop: "registry_step s (s\<lparr>gs_guards := remove1 access (gs_guards s)\<rparr>)"
| step_release: "unguarded (pool_of s) g \<Longrightarrow>
    release_with_gate lid owner now_ms d g now (dr_pool (gs_registry s)) = Returns res st \<Longrightarrow>
    registry_step s (set_pool st s)"
| step_release_owner: "unguarded (pool_of s) g \<Longrightarrow>
    release_owner_target owner now_ms now (d, g) (released, dr_pool (gs_registry s)) = (released', st) \<Longrightarrow>
    registry_step s (set_pool st s)"
| step_release_all: "unguarded (pool_of s) g \<Longrightarrow>
    release_all_target now_ms (d, g) (released, dr_pool (gs_registry s)) = (released', st) \<Longrightarrow>
    registry_step s (set_pool st s)"
| step_pool_entries: "pool_entries now_ms now (dr_pool (gs_registry s)) = (entries, st) \<Longrightarrow>
    registry_step s (set_pool st s)"
| step_connect: "handle \<in> gs_handles s \<Longrightarrow>
    handle_connect r outcome before after control reply handle (gs_registry s) = (res_info, reg) \<Longrightarrow>
    registry_step s (s\<lparr>gs_registry := reg\<rparr>)"
| step_disconnect: "handle \<in> gs_handles s \<Longrightarrow>
    handle_disconnect r outcome before after control reply' handle (gs_registry s) = (res_unit, reg) \<Longrightarrow>
    registry_step s (s\<lparr>gs_registry := reg\<rparr>)"

abbreviation registry_reachable :: "registry_system \<Rightarrow> bool" where
  "registry_reachable s \<equiv>
     (\<exists>strict config policy reg. registry_with_pool_config strict config = Inr reg \<and>
        registry_step\<^sup>*\<^sup>* (registry_initial (registry_with_screenshot_policy policy reg)) s)"

inductive_cases registry_stepE: "registry_step s s'"

subsection \<open>The gates of the pool\<close>

definition gates :: "pool_state \<Rightarrow> device_id \<Rightarrow> gate option" where
  "gates st d = map_option pr_gate (registered st d)"

lemma gates_device: "gates st d = map_option pr_gate (map_of (ps_devices st) d)"
  by (simp add: gates_def registered_def option.map_comp o_def)

lemma pool_gate_gates: "pool_gate d st = ok_or (gates st d) (PoolDeviceNotFound d)"
  by (simp add: pool_gate_def gates_device)

lemma current_gates: "current (pool_view st) d g \<longleftrightarrow> gates st d = Some g"
  by (auto simp: gates_def current_def pool_view_def)

lemma view_keeps_gates:
  "map_option pr_gate (fst (snd (snd (view_acquire config lid d owner now_ms g now v))) e) = map_option pr_gate (fst (snd v) e)"
  "map_option pr_gate (fst (snd (snd (view_access config lid d owner now_ms fresh g now v))) e) = map_option pr_gate (fst (snd v) e)"
  "map_option pr_gate (fst (snd (snd (view_available d owner now_ms g now v))) e) = map_option pr_gate (fst (snd v) e)"
  "map_option pr_gate (fst (snd (snd (view_release lid owner now_ms d g now v))) e) = map_option pr_gate (fst (snd v) e)"
  "map_option pr_gate (fst (snd (snd (view_record_health tok health now_ms now v))) e) = map_option pr_gate (fst (snd v) e)"
  "map_option pr_gate (fst (snd (snd (view_target P Q now_ms target (released, v)))) e) = map_option pr_gate (fst (snd v) e)"
  by (cases v; auto simp: view_defs view_record_health_def split: option.split sum.split if_split prod.split)+

lemma gates_view: "gates st d = map_option pr_gate (fst (snd (pool_view st)) d)"
  by (simp add: gates_def pool_view_def)

lemma reader_keeps_gates:
  assumes "pool_inv st"
  shows "access_with_lease_inner config lid d owner now_ms fresh g now st = Returns res st' \<Longrightarrow> gates st' = gates st"
    and "access_available_to_with_gate d owner now_ms g now st = Returns res' st' \<Longrightarrow> gates st' = gates st"
proof -
  assume run: "access_with_lease_inner config lid d owner now_ms fresh g now st = Returns res st'"
  show "gates st' = gates st"
  proof (cases "now + lease_ttl config < INSTANT_LIMIT")
    case True
    from refinesD [OF access_refines [OF assms True] run] show ?thesis
      by (simp add: fun_eq_iff gates_view view_keeps_gates)
  next
    case False
    with run show ?thesis by (simp add: access_out_of_range)
  qed
next
  assume run: "access_available_to_with_gate d owner now_ms g now st = Returns res' st'"
  from refinesD [OF available_refines [OF assms] run] show "gates st' = gates st"
    by (simp add: fun_eq_iff gates_view view_keeps_gates)
qed

lemma acquire_keeps_gates:
  assumes "pool_inv st" "acquire_with_gate config draws d owner now_ms g now st = Returns res st'"
  shows "gates st' = gates st"
proof (cases "now + lease_ttl config < INSTANT_LIMIT")
  case True
  obtain lid where "refines (acquire_with_gate config draws d owner now_ms g now st)
      (view_acquire config lid d owner now_ms g now (pool_view st))"
    using acquire_refines [OF assms(1) True refl, of draws d owner now_ms g 0] assms(2) by auto
  from refinesD [OF this assms(2)] show ?thesis by (simp add: fun_eq_iff gates_view view_keeps_gates)
next
  case False
  with assms(2) show ?thesis by (simp add: access_out_of_range)
qed

lemma others_keep_gates:
  assumes "pool_inv st"
  shows "release_with_gate lid owner now_ms d g now st = Returns res1 st' \<Longrightarrow> gates st' = gates st"
    and "record_health tok health now_ms now st = Returns res2 st' \<Longrightarrow> gates st' = gates st"
    and "release_owner_target owner now_ms now target (released, st) = (released', st') \<Longrightarrow> gates st' = gates st"
    and "release_all_target now_ms target (released, st) = (released', st') \<Longrightarrow> gates st' = gates st"
    and "pool_entries now_ms now st = (entries, st') \<Longrightarrow> gates st' = gates st"
proof -
  show "gates st' = gates st" if "release_with_gate lid owner now_ms d g now st = Returns res1 st'"
    using refinesD [OF release_refines [OF assms] that] by (simp add: fun_eq_iff gates_view view_keeps_gates)
  show "gates st' = gates st" if "record_health tok health now_ms now st = Returns res2 st'"
    using refinesD [OF record_health_refines [OF assms] that] by (simp add: fun_eq_iff gates_view view_keeps_gates)
  have loop: "gates st' = gates st" if "refines_loop (released', st') (view_target P Q now_ms target (released, pool_view st))" for P Q
  proof -
    from that have "pool_view st' = snd (view_target P Q now_ms target (released, pool_view st))"
      unfolding refines_loop_def by (metis snd_conv)
    then show ?thesis by (simp add: fun_eq_iff gates_view view_keeps_gates)
  qed
  show "gates st' = gates st" if "release_owner_target owner now_ms now target (released, st) = (released', st')"
    using target_refines(1) [OF assms, of owner now_ms now target released] that loop by simp
  show "gates st' = gates st" if "release_all_target now_ms target (released, st) = (released', st')"
    using target_refines(2) [OF assms, of now_ms target released] that loop by simp
  show "gates st' = gates st" if "pool_entries now_ms now st = (entries, st')"
    using that advance_wall_clock_spec [OF assms, of now_ms] by (auto simp: pool_entries_def Let_def gates_def fun_eq_iff)
qed

subsection \<open>The invariant\<close>

abbreviation entry_gate :: "registry_entry \<Rightarrow> gate" where
  "entry_gate e \<equiv> rt_gate (re_registration e)"

definition routes_ok :: "registry_system \<Rightarrow> bool" where
  "routes_ok s \<longleftrightarrow>
     bt_wf (dr_entries (gs_registry s)) \<and>
     (\<forall>d. gates (dr_pool (gs_registry s)) d = map_option entry_gate (map_of (dr_entries (gs_registry s)) d)) \<and>
     (\<forall>d e. map_of (dr_entries (gs_registry s)) d = Some e \<longrightarrow> e \<in> gs_handles s \<and> handle_id e = d)"

definition handles_ok :: "registry_system \<Rightarrow> bool" where
  "handles_ok s \<longleftrightarrow>
     inj_on re_ref (gs_handles s) \<and> inj_on entry_gate (gs_handles s) \<and>
     (\<forall>e \<in> gs_handles s. entry_gate e \<in> gs_issued s \<and>
        (\<exists>info. map_of (dr_infos (gs_registry s)) (re_ref e) = Some info \<and> di_id info = handle_id e))"

definition accesses_ok :: "registry_system \<Rightarrow> bool" where
  "accesses_ok s \<longleftrightarrow>
     (\<forall>h g d owner. (h, g, d, owner) \<in> set (gs_guards s) \<longrightarrow>
        h \<in> gs_handles s \<and> handle_id h = d \<and> entry_gate h = g)"

definition registry_inv :: "registry_system \<Rightarrow> bool" where
  "registry_inv s \<longleftrightarrow> sys_inv (pool_of s) \<and> routes_ok s \<and> handles_ok s \<and> accesses_ok s"

lemma set_pool_simps [simp]:
  "dr_pool (gs_registry (set_pool st s)) = st" "dr_entries (gs_registry (set_pool st s)) = dr_entries (gs_registry s)"
  "dr_infos (gs_registry (set_pool st s)) = dr_infos (gs_registry s)" "gs_handles (set_pool st s) = gs_handles s"
  "gs_guards (set_pool st s) = gs_guards s" "gs_issued (set_pool st s) = gs_issued s"
  "pool_of (set_pool st s) = (pool_of s)\<lparr>sy_state := st\<rparr>"
  by (simp_all add: set_pool_def pool_of_def)

lemma pool_of_simps [simp]:
  "sy_state (pool_of s) = dr_pool (gs_registry s)" "sy_guards (pool_of s) = map snd (gs_guards s)"
  "sy_issued (pool_of s) = gs_issued s"
  by (simp_all add: pool_of_def)

lemma inv_pool: "registry_inv s \<Longrightarrow> pool_inv (dr_pool (gs_registry s))"
  using sys_inv_pool [of "pool_of s"] by (simp add: registry_inv_def)

lemma inv_set_pool:
  assumes "registry_inv s" "pool_step config (pool_of s) ((pool_of s)\<lparr>sy_state := st\<rparr>)"
    and "gates st = gates (dr_pool (gs_registry s))"
  shows "registry_inv (set_pool st s)"
proof -
  have "sys_inv ((pool_of s)\<lparr>sy_state := st\<rparr>)"
    using pool_step_good [OF assms(2)] assms(1) by (simp add: registry_inv_def good_step_def)
  then show ?thesis
    using assms(1) fun_cong [OF assms(3)]
    by (simp add: registry_inv_def routes_ok_def handles_ok_def accesses_ok_def)
qed

lemma inv_same_pool: "registry_inv s \<Longrightarrow> registry_inv (set_pool (dr_pool (gs_registry s)) s)"
  by (simp add: set_pool_def)

lemma inv_gates:
  "registry_inv s \<Longrightarrow> gates (dr_pool (gs_registry s)) d = map_option entry_gate (map_of (dr_entries (gs_registry s)) d)"
  unfolding registry_inv_def routes_ok_def by blast

lemma current_entry:
  assumes "registry_inv s" "h \<in> gs_handles s" "ensure_current_entry (dr_entries (gs_registry s)) h = Inr u"
  shows "map_of (dr_entries (gs_registry s)) (handle_id h) = Some h"
proof -
  from assms(3) obtain e where e: "map_of (dr_entries (gs_registry s)) (handle_id h) = Some e" "re_ref e = re_ref h"
    by (auto simp: ensure_current_entry_def split: option.splits if_splits)
  then have "e \<in> gs_handles s" using assms(1) by (auto simp: registry_inv_def routes_ok_def)
  with e(2) assms(1,2) have "e = h" by (auto simp: registry_inv_def handles_ok_def dest: inj_onD)
  with e(1) show ?thesis by simp
qed

lemma grant_pool: "pool_of (grant_access h g owner res st s) = grant (g, handle_id h, owner) res st (pool_of s)"
  by (simp add: grant_access_def grant_def pool_of_def set_pool_def)

lemma grant_fields:
  "dr_pool (gs_registry (grant_access h g owner res st s)) = st"
  "dr_entries (gs_registry (grant_access h g owner res st s)) = dr_entries (gs_registry s)"
  "dr_infos (gs_registry (grant_access h g owner res st s)) = dr_infos (gs_registry s)"
  "gs_handles (grant_access h g owner res st s) = gs_handles s"
  "gs_issued (grant_access h g owner res st s) = gs_issued s"
  "gs_guards (grant_access h g owner res st s) =
     (if is_ok res then (h, g, handle_id h, owner) # gs_guards s else gs_guards s)"
  by (simp_all add: grant_access_def)

lemma inv_grant:
  assumes "registry_inv s" "h \<in> gs_handles s"
    and "pool_step config (pool_of s) (grant (g, handle_id h, owner) res st (pool_of s))"
    and "gates st = gates (dr_pool (gs_registry s))"
    and "is_ok res \<Longrightarrow> map_of (dr_entries (gs_registry s)) (handle_id h) = Some h"
    and "is_ok res \<Longrightarrow> pool_gate (handle_id h) (dr_pool (gs_registry s)) = Inr g"
  shows "registry_inv (grant_access h g owner res st s)"
proof -
  have "sys_inv (pool_of (grant_access h g owner res st s))"
    unfolding grant_pool using pool_step_good [OF assms(3)] assms(1) by (simp add: registry_inv_def good_step_def)
  moreover have "entry_gate h = g" if "is_ok res"
  proof -
    have "gates (dr_pool (gs_registry s)) (handle_id h) = Some (entry_gate h)"
      using assms(5) [OF that] inv_gates [OF assms(1)] by simp
    with assms(6) [OF that] show ?thesis by (simp add: pool_gate_gates)
  qed
  moreover have "routes_ok (grant_access h g owner res st s)" "handles_ok (grant_access h g owner res st s)"
    using assms(1) unfolding registry_inv_def routes_ok_def handles_ok_def grant_fields fun_cong [OF assms(4)] by blast+
  moreover have "accesses_ok s" using assms(1) by (simp add: registry_inv_def)
  then have "accesses_ok (grant_access h g owner res st s)" if "is_ok res \<Longrightarrow> entry_gate h = g"
    using assms(2) that unfolding accesses_ok_def grant_fields by (cases "is_ok res") auto
  ultimately show ?thesis unfolding registry_inv_def by blast
qed

subsection \<open>The steps keep the invariant\<close>

lemma access_step:
  assumes "registry_inv s" "h \<in> gs_handles s" "on_current_entry h body (gs_registry s) = Returns res st"
    and "is_ok res \<Longrightarrow> pool_gate (handle_id h) (dr_pool (gs_registry s)) = Inr g"
    and step: "\<And>g res st. body g (dr_pool (gs_registry s)) = Returns res st \<Longrightarrow>
      pool_step config (pool_of s) (grant (g, handle_id h, owner) res st (pool_of s))"
    and keeps: "\<And>g res st. body g (dr_pool (gs_registry s)) = Returns res st \<Longrightarrow> gates st = gates (dr_pool (gs_registry s))"
  shows "registry_inv (grant_access h g owner res st s)"
proof (cases "ensure_current_entry (dr_entries (gs_registry s)) h")
  case (Inl e)
  with assms(1,3) show ?thesis by (auto simp: on_current_entry_def grant_access_def set_pool_def is_ok_def)
next
  case (Inr u)
  note current = current_entry [OF assms(1,2) Inr]
  show ?thesis
  proof (cases "pool_gate (handle_id h) (dr_pool (gs_registry s))")
    case (Inl e)
    with assms(1,3) Inr show ?thesis by (auto simp: on_current_entry_def grant_access_def set_pool_def is_ok_def)
  next
    case gate: (Inr g')
    have run: "body g' (dr_pool (gs_registry s)) = Returns res st"
      using assms(3) Inr gate by (simp add: on_current_entry_def)
    show ?thesis
    proof (cases "is_ok res")
      case True
      with assms(4) gate have "g' = g" by simp
      with run show ?thesis using inv_grant [OF assms(1,2) step keeps current assms(4)] by blast
    next
      case False
      have "grant_access h g owner res st s = grant_access h g' owner res st s"
        using False by (simp add: grant_access_def)
      with run False show ?thesis using inv_grant [OF assms(1,2) step keeps current, of g' res st] by simp
    qed
  qed
qed

lemma acquire_step:
  assumes "registry_inv s" "device_free s (handle_id h)"
    and "acquire_lease draws h owner now_ms now (gs_registry s) = Returns res st"
  shows "registry_inv (set_pool st s)"
proof -
  consider "st = dr_pool (gs_registry s)"
    | g where "pool_gate (handle_id h) (dr_pool (gs_registry s)) = Inr g"
      "acquire_with_gate (dr_pool_config (gs_registry s)) draws (handle_id h) owner now_ms g now (dr_pool (gs_registry s)) = Returns res st"
    using assms(3) by (auto simp: acquire_lease_def acquire_def split: sum.splits)
  then show ?thesis
  proof cases
    case 1
    then show ?thesis using inv_same_pool [OF assms(1)] by simp
  next
    case (2 g)
    then have "unguarded (pool_of s) g" using assms(2) by (simp add: device_free_def)
    with 2 show ?thesis
      using inv_set_pool [OF assms(1) pool_acquire] acquire_keeps_gates [OF inv_pool [OF assms(1)]] by simp
  qed
qed

lemma remove_cases:
  assumes "pool_inv st" "gates st d = Some g"
  obtains (refused) st' where "remove_with_gate d now_ms g now st = Returns (Inl (PoolDeviceLeased d)) st'" "gates st' = gates st"
    | (removed) st' where "remove_with_gate d now_ms g now st = Returns (Inr ()) st'" "gates st' = (gates st)(d := None)"
proof -
  obtain res st' where run: "remove_with_gate d now_ms g now st = Returns res st'"
    using remove_refines [OF assms(1), of d now_ms g now] by (auto simp: refines_def split: pool_run.splits)
  note spec = refinesD [OF remove_refines [OF assms(1)] run]
  obtain r where r: "registered st d = Some r" "pr_gate r = g" using assms(2) by (auto simp: gates_def)
  have "res = Inl (PoolDeviceLeased d) \<and> registered st' = registered st \<or>
        res = Inr () \<and> registered st' = (registered st)(d := None)"
    using spec r by (auto simp: view_remove_def view_gated_def pool_view_def Let_def split: if_splits)
  then show thesis using refused removed run by (auto simp: fun_eq_iff gates_def)
qed

lemma unregister_run:
  assumes "registry_inv s" "map_of (dr_entries (gs_registry s)) d = Some e"
  shows "remove_device d now_ms now (dr_pool (gs_registry s)) = remove_with_gate d now_ms (entry_gate e) now (dr_pool (gs_registry s))"
    and "gates (dr_pool (gs_registry s)) d = Some (entry_gate e)"
  using inv_gates [OF assms(1), of d] assms(2) by (simp_all add: remove_device_def pool_gate_gates)

lemma unregister_outcome:
  assumes "registry_inv s"
  shows "\<exists>res reg. registry_unregister d now_ms now (gs_registry s) = Some (res, reg) \<and>
    res \<in> {Inr (), Inl (RegDeviceNotFound d), Inl (RegDeviceLeased d)}"
proof (cases "map_of (dr_entries (gs_registry s)) d")
  case None
  then show ?thesis by (simp add: registry_unregister_def)
next
  case (Some e)
  note run = unregister_run [OF assms Some]
  show ?thesis
    by (rule remove_cases [OF inv_pool [OF assms] run(2), where now_ms = now_ms and now = now])
      (simp_all add: registry_unregister_def Some run(1) unregister_error_def)
qed

lemma unregister_step:
  assumes "registry_inv s" "device_free s d" "registry_unregister d now_ms now (gs_registry s) = Some (res, reg)"
  shows "registry_inv (s\<lparr>gs_registry := reg\<rparr>)"
proof (cases "map_of (dr_entries (gs_registry s)) d")
  case None
  with assms show ?thesis by (auto simp: registry_unregister_def)
next
  case (Some e)
  note run = unregister_run [OF assms(1) Some]
  have free: "unguarded (pool_of s) (entry_gate e)"
    using assms(2) run(2) by (simp add: device_free_def pool_gate_gates)
  show ?thesis
  proof (rule remove_cases [OF inv_pool [OF assms(1)] run(2), where now_ms = now_ms and now = now])
    fix st'
    assume refused: "remove_with_gate d now_ms (entry_gate e) now (dr_pool (gs_registry s)) = Returns (Inl (PoolDeviceLeased d)) st'"
      "gates st' = gates (dr_pool (gs_registry s))"
    then have "s\<lparr>gs_registry := reg\<rparr> = set_pool st' s"
      using assms(3) by (auto simp: registry_unregister_def Some run(1) set_pool_def)
    then show ?thesis
      using inv_set_pool [OF assms(1) pool_remove refused(2)] free refused(1) by simp
  next
    fix st'
    assume removed: "remove_with_gate d now_ms (entry_gate e) now (dr_pool (gs_registry s)) = Returns (Inr ()) st'"
      "gates st' = (gates (dr_pool (gs_registry s)))(d := None)"
    let ?s = "s\<lparr>gs_registry := reg\<rparr>"
    have reg: "reg = (gs_registry s)\<lparr>dr_pool := st', dr_entries := hm_remove d (dr_entries (gs_registry s))\<rparr>"
      using assms(3) removed(1) by (auto simp: registry_unregister_def Some run(1))
    have "sys_inv (pool_of ?s)"
      using pool_step_good [OF pool_remove [of "pool_of s", OF free]] removed(1) assms(1)
      by (auto simp: registry_inv_def good_step_def reg pool_of_def)
    moreover have "routes_ok ?s"
      using assms(1) fun_cong [OF removed(2)]
      unfolding registry_inv_def routes_ok_def by (auto simp: reg bt_wf_remove map_of_delete_fun split: if_splits)
    ultimately show ?thesis
      using assms(1) by (auto simp: registry_inv_def handles_ok_def accesses_ok_def reg)
  qed
qed

lemma register_run:
  assumes "gates st d = None" "\<not> trim_is_empty d"
  obtains st' where "register g d st = Returns (Inr \<lparr>rt_device_id = d, rt_gate = g\<rparr>) st'" "gates st' = (gates st)(d \<mapsto> g)"
proof -
  have "map_of (ps_devices st) d = None" using assms(1) by (simp add: gates_device)
  then show thesis using assms(2) that by (simp add: register_def gates_device fun_eq_iff)
qed

lemma inv_more_issued: "registry_inv s \<Longrightarrow> g \<notin> gs_issued s \<Longrightarrow> registry_inv (s\<lparr>gs_issued := insert g (gs_issued s)\<rparr>)"
  by (auto simp: registry_inv_def sys_inv_def routes_ok_def handles_ok_def accesses_ok_def pool_of_def)

lemma register_cases:
  assumes "registry_inv s" "registry_register g ref driver_id info (gs_registry s) = Some (res, reg)"
  obtains (refused) e where "res = Inl e" "reg = gs_registry s"
    | (added) st entry where "register g driver_id (dr_pool (gs_registry s)) = Returns (Inr (re_registration entry)) st"
      "gates st = (gates (dr_pool (gs_registry s)))(driver_id \<mapsto> g)"
      "map_of (dr_entries (gs_registry s)) driver_id = None" "res = Inr entry" "di_id info = driver_id"
      "re_ref entry = ref" "entry_gate entry = g" "handle_id entry = driver_id"
      "reg = (gs_registry s)\<lparr>dr_pool := st, dr_entries := bt_insert driver_id entry (dr_entries (gs_registry s)),
         dr_infos := bt_insert ref info (dr_infos (gs_registry s))\<rparr>"
proof (cases "validate_registration driver_id info")
  case (Inl e)
  with assms(2) show ?thesis using refused by (auto simp: registry_register_def)
next
  case (Inr u)
  then have valid: "\<not> trim_is_empty driver_id" "di_id info = driver_id"
    by (auto simp: validate_registration_def split: if_splits)
  show ?thesis
  proof (cases "map_of (dr_entries (gs_registry s)) driver_id")
    case (Some e)
    with Inr assms(2) show ?thesis using refused by (auto simp: registry_register_def Let_def)
  next
    case None
    with inv_gates [OF assms(1), of driver_id] have "gates (dr_pool (gs_registry s)) driver_id = None" by simp
    then obtain st where st: "register g driver_id (dr_pool (gs_registry s)) = Returns (Inr \<lparr>rt_device_id = driver_id, rt_gate = g\<rparr>) st"
      "gates st = (gates (dr_pool (gs_registry s)))(driver_id \<mapsto> g)" using register_run [OF _ valid(1)] by blast
    show ?thesis
      using added [of "\<lparr>re_ref = ref, re_runtime = _, re_registration = \<lparr>rt_device_id = driver_id, rt_gate = g\<rparr>\<rparr>" st]
        assms(2) Inr None st valid
      by (auto simp: registry_register_def Let_def runtime_with_screenshot_policy_def device_runtime_new_def
          device_runtime_with_evidence_def)
  qed
qed

lemma register_step:
  assumes "registry_inv s" "g \<notin> gs_issued s" "ref \<notin> re_ref ` gs_handles s"
    and "registry_register g ref driver_id info (gs_registry s) = Some (res, reg)"
  shows "registry_inv (s\<lparr>gs_registry := reg, gs_handles := gs_handles s \<union> added_handles res,
                       gs_issued := insert g (gs_issued s)\<rparr>)" (is "registry_inv ?s")
  using assms(1,4)
proof (cases rule: register_cases)
  case (refused e)
  then show ?thesis using inv_more_issued [OF assms(1,2)] by (simp add: added_handles_def)
next
  case (added st entry)
  have "sys_inv (pool_of ?s)"
    using pool_step_good [OF pool_register [of g "pool_of s"]] added(1) assms(1,2)
    by (auto simp: registry_inv_def good_step_def added(9) pool_of_def)
  moreover have "routes_ok ?s"
    using assms(1) fun_cong [OF added(2)] unfolding registry_inv_def routes_ok_def
    by (auto simp: added bt_wf_insert added_handles_def)
  moreover have "handles_ok ?s"
    using assms unfolding registry_inv_def handles_ok_def
    by (auto simp: added added_handles_def)
  moreover have "accesses_ok ?s"
    using assms(1) unfolding registry_inv_def accesses_ok_def by auto
  ultimately show ?thesis by (simp add: registry_inv_def)
qed

lemma info_step:
  assumes "registry_inv s" "h \<in> gs_handles s" "di_id info = handle_id h"
  shows "registry_inv (s\<lparr>gs_registry := (gs_registry s)\<lparr>dr_infos := bt_insert (re_ref h) info (dr_infos (gs_registry s))\<rparr>\<rparr>)"
    (is "registry_inv ?s")
proof -
  have "handles_ok ?s"
    using assms unfolding registry_inv_def handles_ok_def by (auto dest: inj_onD)
  then show ?thesis
    using assms(1) by (simp add: registry_inv_def routes_ok_def accesses_ok_def pool_of_def)
qed

lemma connect_step:
  assumes "registry_inv s" "h \<in> gs_handles s"
    and "handle_connect r outcome before after control reply h (gs_registry s) = (res, reg)"
  shows "registry_inv (s\<lparr>gs_registry := reg\<rparr>)"
proof -
  consider "reg = gs_registry s"
    | info where "di_id info = handle_id h"
      "reg = (gs_registry s)\<lparr>dr_infos := bt_insert (re_ref h) info (dr_infos (gs_registry s))\<rparr>"
    using assms(3) by (auto simp: handle_connect_def split: sum.splits if_splits)
  then show ?thesis by cases (use assms info_step in auto)
qed

lemma disconnect_step:
  assumes "registry_inv s" "h \<in> gs_handles s"
    and "handle_disconnect r outcome before after control reply h (gs_registry s) = (res, reg)"
  shows "registry_inv (s\<lparr>gs_registry := reg\<rparr>)"
proof -
  obtain info where info: "map_of (dr_infos (gs_registry s)) (re_ref h) = Some info" "di_id info = handle_id h"
    using assms(1,2) by (auto simp: registry_inv_def handles_ok_def)
  then consider "reg = gs_registry s"
    | "reg = (gs_registry s)\<lparr>dr_infos := bt_insert (re_ref h) (info\<lparr>di_connected := False\<rparr>) (dr_infos (gs_registry s))\<rparr>"
    using assms(3) by (auto simp: handle_disconnect_def split: sum.splits)
  then show ?thesis by cases (use assms info info_step in auto)
qed

lemma health_step:
  assumes "registry_inv s" "registry_record_health h health now_ms now (gs_registry s) = Returns res st"
  shows "registry_inv (set_pool st s)"
proof -
  consider "st = dr_pool (gs_registry s)" | "record_health (re_registration h) health now_ms now (dr_pool (gs_registry s)) = Returns res st"
    using assms(2) by (auto simp: registry_record_health_def split: sum.splits)
  then show ?thesis
  proof cases
    case 1
    then show ?thesis using inv_same_pool [OF assms(1)] by simp
  next
    case 2
    then show ?thesis
      using inv_set_pool [OF assms(1) pool_health] others_keep_gates(2) [OF inv_pool [OF assms(1)]] by simp
  qed
qed

lemma drop_step: "registry_inv s \<Longrightarrow> registry_inv (s\<lparr>gs_guards := remove1 access (gs_guards s)\<rparr>)"
proof -
  have sub: "set (remove1 access (gs_guards s)) \<subseteq> set (gs_guards s)" by (rule set_remove1_subset)
  then have "set (map snd (remove1 access (gs_guards s))) \<subseteq> set (map snd (gs_guards s))" by auto
  with sub show "registry_inv s \<Longrightarrow> ?thesis"
    by (simp add: registry_inv_def sys_inv_def routes_ok_def handles_ok_def accesses_ok_def pool_of_def) blast
qed

lemma registry_step_inv:
  assumes "registry_step s s'" "registry_inv s"
  shows "registry_inv s'"
  using assms(1)
proof cases
  case (step_access handle lid owner now_ms now res st g)
  show ?thesis unfolding step_access(1)
    by (rule access_step [OF assms(2) step_access(2) step_access(3) [unfolded registry_access_with_lease_def]])
      (use step_access(4) reader_keeps_gates(1) [OF inv_pool [OF assms(2)]] in \<open>auto intro: pool_access\<close>)
next
  case (step_available handle owner now_ms now res st g)
  show ?thesis unfolding step_available(1)
    by (rule access_step [OF assms(2) step_available(2) step_available(3) [unfolded registry_access_available_to_def]])
      (use step_available(4) reader_keeps_gates(2) [OF inv_pool [OF assms(2)]] in \<open>auto intro: pool_available\<close>)
next
  case (step_cleanup handle lid owner now_ms now res st g)
  show ?thesis unfolding step_cleanup(1)
    by (rule access_step [OF assms(2) step_cleanup(2) step_cleanup(3) [unfolded cleanup_access_with_lease_def]])
      (use step_cleanup(4) reader_keeps_gates(1) [OF inv_pool [OF assms(2)]] in \<open>auto intro: pool_access\<close>)
next
  case (step_release g lid owner now_ms d now res st)
  then show ?thesis
    using inv_set_pool [OF assms(2) pool_release] others_keep_gates(1) [OF inv_pool [OF assms(2)]] by simp
next
  case (step_release_owner g owner now_ms now d released released' st)
  then show ?thesis
    using inv_set_pool [OF assms(2) pool_release_owner] others_keep_gates(3) [OF inv_pool [OF assms(2)]] by simp
next
  case (step_release_all g now_ms d released released' st)
  then show ?thesis
    using inv_set_pool [OF assms(2) pool_release_all] others_keep_gates(4) [OF inv_pool [OF assms(2)]] by simp
next
  case (step_pool_entries now_ms now entries st)
  then show ?thesis
    using inv_set_pool [OF assms(2) pool_list] others_keep_gates(5) [OF inv_pool [OF assms(2)]] by simp
qed (use assms(2) in \<open>auto intro: register_step unregister_step health_step acquire_step drop_step connect_step disconnect_step\<close>)

lemma registry_inv_initial:
  "registry_with_pool_config strict config = Inr reg \<Longrightarrow>
   registry_inv (registry_initial (registry_with_screenshot_policy policy reg))"
  using sys_inv_initial
  by (auto simp: registry_with_pool_config_def registry_with_screenshot_policy_def device_pool_new_def res_bind_eq_Inr registry_initial_def registry_inv_def
      pool_of_def pool_system_initial_def routes_ok_def handles_ok_def accesses_ok_def bt_wf_def gates_device)

lemma registry_inv_reachable: "registry_step\<^sup>*\<^sup>* s s' \<Longrightarrow> registry_inv s \<Longrightarrow> registry_inv s'"
  by (induction rule: rtranclp_induct) (auto intro: registry_step_inv)

subsection \<open>What follows from the invariant\<close>

lemma live_access_current:
  assumes "registry_inv s" "(h, g, d, owner) \<in> set (gs_guards s)"
  shows "resolve (handle_id h) (gs_registry s) = Inr h"
proof -
  have h: "h \<in> gs_handles s" "handle_id h = d" "entry_gate h = g"
    using assms by (auto simp: registry_inv_def accesses_ok_def)
  have "(g, d, owner) \<in> set (sy_guards (pool_of s))" using assms(2) by (force simp: pool_of_def)
  then have "guard_ok (sys_view (pool_of s)) (g, d, owner)"
    using assms(1) unfolding registry_inv_def sys_inv_def by blast
  then have "gates (dr_pool (gs_registry s)) d = Some g" by (auto simp: guard_ok_def pool_view_def gates_def)
  then have "map_option entry_gate (map_of (dr_entries (gs_registry s)) d) = Some g"
    using inv_gates [OF assms(1), of d] by simp
  then obtain e where e: "map_of (dr_entries (gs_registry s)) d = Some e" "entry_gate e = g" by auto
  then have "e \<in> gs_handles s" using assms(1) by (auto simp: registry_inv_def routes_ok_def)
  then have "e = h" using h e(2) assms(1) by (auto simp: registry_inv_def handles_ok_def dest: inj_onD)
  with e(1) h(2) show ?thesis by (simp add: resolve_def)
qed

lemma map_filter_all: "(\<And>x. x \<in> set xs \<Longrightarrow> \<exists>y. f x = Some y \<and> k y = m x) \<Longrightarrow> map k (List.map_filter f xs) = map m xs"
proof (induction xs)
  case (Cons x xs)
  obtain y where "f x = Some y" "k y = m x" using Cons.prems [of x] by auto
  with Cons show ?case by (simp add: List.map_filter_simps)
qed (simp add: List.map_filter_simps)

lemma listed_devices:
  assumes "registry_inv s"
  shows "map di_id (registry_list (gs_registry s)) = map fst (dr_entries (gs_registry s))"
  unfolding registry_list_def
proof (rule map_filter_all)
  fix x
  assume x: "x \<in> set (dr_entries (gs_registry s))"
  have "distinct (map fst (dr_entries (gs_registry s)))"
    using assms bt_wf_distinct unfolding registry_inv_def routes_ok_def by blast
  with x have "map_of (dr_entries (gs_registry s)) (fst x) = Some (snd x)" by simp
  with assms have "snd x \<in> gs_handles s" "handle_id (snd x) = fst x"
    unfolding registry_inv_def routes_ok_def by blast+
  with assms show "\<exists>info. (case x of (_, entry) \<Rightarrow> map_of (dr_infos (gs_registry s)) (re_ref entry)) = Some info \<and> di_id info = fst x"
    unfolding registry_inv_def handles_ok_def by (auto simp: case_prod_beta)
qed

lemma registration_outcome:
  assumes "registry_inv s"
  shows "(\<exists>entry reg. registry_register g ref d info (gs_registry s) = Some (Inr entry, reg)) \<longleftrightarrow>
     validate_registration d info = Inr () \<and> map_of (dr_entries (gs_registry s)) d = None"
proof (cases "validate_registration d info")
  case (Inl e)
  then show ?thesis by (simp add: registry_register_def)
next
  case (Inr u)
  then have valid: "\<not> trim_is_empty d" by (auto simp: validate_registration_def split: if_splits)
  show ?thesis
  proof (cases "map_of (dr_entries (gs_registry s)) d")
    case None
    with inv_gates [OF assms, of d] have "gates (dr_pool (gs_registry s)) d = None" by simp
    from register_run [OF this valid, of g] obtain st where
      "register g d (dr_pool (gs_registry s)) = Returns (Inr \<lparr>rt_device_id = d, rt_gate = g\<rparr>) st" by blast
    with Inr None show ?thesis by (simp add: registry_register_def Let_def)
  qed (simp add: registry_register_def Inr Let_def)
qed

subsection \<open>A sample run\<close>

definition route_info :: device_info where
  "route_info = \<lparr>di_id = ''d'', di_name = ''n'', di_platform = Android, di_os_version = None, di_connected = False\<rparr>"

definition route_registry :: driver_registry where
  "route_registry =
     \<lparr>dr_strict_evidence_receipts = True, dr_screenshot_policy = Capture, dr_pool_config = device_pool_config_default,
      dr_pool = sy_state pool_system_initial, dr_entries = [], dr_infos = []\<rparr>"

definition route_entry :: registry_entry where
  "route_entry =
     \<lparr>re_ref = 0, re_runtime = device_runtime_with_evidence ''d'',
      re_registration = \<lparr>rt_device_id = ''d'', rt_gate = 0\<rparr>\<rparr>"

definition route_registered :: registry_system where
  "route_registered =
     \<lparr>gs_registry = route_registry\<lparr>dr_pool := sy_state ex_registered, dr_entries := [(''d'', route_entry)],
        dr_infos := [(0, route_info)]\<rparr>, gs_guards = [], gs_handles = {route_entry}, gs_issued = {0}\<rparr>"

definition route_accessed :: registry_system where
  "route_accessed = route_registered\<lparr>gs_guards := [(route_entry, 0, ''d'', 1)]\<rparr>"

lemmas route_defs = route_info_def route_registry_def route_entry_def route_registered_def route_accessed_def

lemma route_new: "registry_with_pool_config True device_pool_config_default = Inr route_registry"
  by (simp add: registry_with_pool_config_def device_pool_new_def device_pool_config_default_def device_pool_config_new_def
      MAX_DURATION_MS_def route_registry_def pool_system_initial_def)

lemma route_register: "registry_step (registry_initial route_registry) route_registered"
proof -
  have "validate_registration ''d'' route_info = Inr ()"
    by (simp add: validate_registration_def route_info_def trim_is_empty_def ws1_def)
  moreover have "register 0 ''d'' (dr_pool route_registry) = Returns (Inr \<lparr>rt_device_id = ''d'', rt_gate = 0\<rparr>) (sy_state ex_registered)"
    by (simp add: register_def route_registry_def ex_defs trim_is_empty_def ws1_def)
  ultimately have "registry_register 0 0 ''d'' route_info (gs_registry (registry_initial route_registry)) =
      Some (Inr route_entry, gs_registry route_registered)"
    by (simp add: registry_register_def registry_initial_def Let_def route_defs runtime_with_screenshot_policy_def
        device_runtime_with_evidence_def)
  from step_register [OF _ _ this] show ?thesis
    by (simp add: registry_initial_def route_registered_def added_handles_def)
qed

lemma route_access: "registry_step route_registered route_accessed"
proof -
  have "registry_access_available_to route_entry 1 0 0 (gs_registry route_registered) =
      Returns (Inr ''d'') (sy_state ex_registered)"
    by (simp add: registry_access_available_to_def on_current_entry_def ensure_current_entry_def pool_gate_def
        access_available_to_with_gate_def route_defs device_runtime_with_evidence_def ex_defs pool_eval)
  from step_available [OF _ this, of 0] show ?thesis
    by (simp add: grant_access_def set_pool_def route_defs is_ok_def pool_gate_def ex_registered_def
        device_runtime_with_evidence_def)
qed

lemma route_reachable: "registry_reachable route_accessed"
proof -
  have "registry_step\<^sup>*\<^sup>* (registry_initial route_registry) route_accessed"
    using route_register route_access by (meson rtranclp.rtrancl_into_rtrancl rtranclp.rtrancl_refl)
  moreover have "registry_with_screenshot_policy Capture route_registry = route_registry"
    by (simp add: registry_with_screenshot_policy_def route_registry_def)
  ultimately show ?thesis using route_new by metis
qed

subsection \<open>Properties\<close>

text \<open>
  C24. However the operations of the registry interleave, its routes and the inventory of its pool
  agree. A device is registered exactly when its metadata is valid and its id is vacant; it is
  unregistered, not found, or refused because of a lease, and never reported as inconsistent; the
  listing has one record per registered device, under its own id and in order; and as long as a
  \<open>DriverAccess\<close> or \<open>DriverLifecycleAccess\<close> is alive, its device resolves to the very route the
  access was granted for.
\<close>

theorem registry_routes_consistent:
  assumes "registry_reachable s"
  shows "(\<forall>g ref d info. (\<exists>entry reg. registry_register g ref d info (gs_registry s) = Some (Inr entry, reg)) \<longleftrightarrow>
        validate_registration d info = Inr () \<and> map_of (dr_entries (gs_registry s)) d = None) \<and>
     (\<forall>d now_ms now. \<exists>res reg. registry_unregister d now_ms now (gs_registry s) = Some (res, reg) \<and>
        res \<in> {Inr (), Inl (RegDeviceNotFound d), Inl (RegDeviceLeased d)}) \<and>
     map di_id (registry_list (gs_registry s)) = map fst (dr_entries (gs_registry s)) \<and>
     sorted_wrt (<) (map fst (dr_entries (gs_registry s))) \<and>
     (\<forall>h g d owner. (h, g, d, owner) \<in> set (gs_guards s) \<longrightarrow> resolve (handle_id h) (gs_registry s) = Inr h)"
proof -
  have inv: "registry_inv s" using assms registry_inv_initial registry_inv_reachable by blast
  then have "sorted_wrt (<) (map fst (dr_entries (gs_registry s)))"
    by (simp add: registry_inv_def routes_ok_def bt_wf_def)
  with registration_outcome [OF inv] unregister_outcome [OF inv] listed_devices [OF inv] live_access_current [OF inv]
  show ?thesis by blast
qed

theorem registry_routes_consistent_witness:
  "(\<exists>res reg. registry_unregister ''d'' 0 0 (gs_registry route_accessed) = Some (res, reg) \<and>
      res \<in> {Inr (), Inl (RegDeviceNotFound ''d''), Inl (RegDeviceLeased ''d'')}) \<and>
   map di_id (registry_list (gs_registry route_accessed)) = [''d''] \<and>
   resolve ''d'' (gs_registry route_accessed) = Inr route_entry"
proof -
  note facts = registry_routes_consistent [OF route_reachable]
  have "map fst (dr_entries (gs_registry route_accessed)) = [''d'']" by (simp add: route_defs)
  moreover have "(route_entry, 0, ''d'', 1) \<in> set (gs_guards route_accessed)" by (simp add: route_defs)
  moreover have "handle_id route_entry = ''d''" by (simp add: route_entry_def device_runtime_with_evidence_def)
  ultimately show ?thesis using facts by metis
qed

end
