(* ===== verification/Spec2Isabelle.thy ===== *)
theory Spec2Isabelle
  imports Store_Reads Handshake Pool_Properties Runtime_Properties Bundle_References Media_Recovery Node_Leases Manual_Recording Evidence_Fs_Properties Registry_Properties
begin

text \<open>
  DeviceRail lets programs observe and operate test devices and keeps a complete record of what
  happened. This library verifies its core: the Rust crates under \<open>src/crates\<close> that hold the state
  and decide what is recorded.

  \<^bold>\<open>The parts and how they interact.\<close> A client negotiates a protocol version and starts a Session in the
  event store. It leases a device in the device pool, which the registry routes to a Driver. The
  runtime runs an observation or an Action on the Driver: it checks the request's deadline and
  cancellation, appends the start to the Session's log, hands the Driver a writer for its evidence
  (screenshots and the like, kept in the Evidence Store under their SHA-256), checks the Driver's
  answer and the evidence it refers to, and appends the outcome. Media streams and manual
  recordings use the same store and writer. Subscribers replay a log and follow it. An ended
  Session is exported as a bundle, whose validation accepts only legal logs. In a distributed
  setting each node decides on its own leases and on which calls it has already executed.

  \<^bold>\<open>Conventions.\<close> \<open>Rail_Prelude\<close> says how Rust is rendered: \<open>Result\<close> is a sum with \<open>Inl\<close> for \<open>Err\<close>,
  strings are byte lists, integers are natural numbers with checked, saturating and wrapping
  arithmetic written out, maps are association lists that satisfy the interface \<open>keyed_map\<close>. A structure
  is a record and an enumeration a datatype with the names of the source. An operation is a function from
  its arguments and the old state to a result and the new state. A panic is a value of its own. Code outside
  the workspace (serde, SHA-256, JSON Schema, tokio channels and timers, random ids, clocks) and
  the Drivers enter as arguments. A function that waits takes what it finds when it wakes up as
  an argument; where interleaving matters there is a step relation.

  \<^bold>\<open>Theories.\<close>

  \<^item> Protocol. \<open>Wire_Scalars\<close> (\<open>wire_integer.rs\<close>, the scalars of \<open>event.rs\<close> and \<open>rpc.rs\<close>), \<open>Ui_Contract\<close>
    (\<open>ui.rs\<close>), \<open>Wire_Events\<close> (\<open>action.rs\<close>, \<open>device.rs\<close>, \<open>event.rs\<close>), \<open>Handshake\<close> (\<open>handshake.rs\<close>), all of
    \<open>crates/protocol\<close>. A UI snapshot is accepted exactly when its node list is the preorder of a
    forest; the negotiated version is the newest common one.

  \<^item> Event store. \<open>Event_Stream\<close> (\<open>event_stream.rs\<close>: subscriptions) and \<open>Event_Store\<close>
    (\<open>event_store.rs\<close>, \<open>session.rs\<close>: every operation of \<open>MemoryEventStore\<close>) of \<open>crates/core\<close>.
    \<open>Session_Log\<close> defines a legal log on its events alone (\<open>legal_log\<close>) and the invariant \<open>store_inv\<close>.
    \<open>Store_Runs\<close> shows that all operations keep it and has the runs of the store
    (\<open>store_step\<close>). \<open>Store_Properties\<close> and \<open>Store_Reads\<close> derive that every log is legal and only
    grows, Actions of an ended Session completed exactly once, ids are used once, retries of
    media events return the original, a subscription delivers exactly the events after its cursor, and paged
    reads give the whole log.

  \<^item> Request control. \<open>Control\<close> (\<open>control.rs\<close>): derived deadlines are the earliest one, waits end, no
    cancellation is lost between a waiter and a canceller (\<open>waiter_step\<close>, \<open>canceller_step\<close>).

  \<^item> Device pool. \<open>Device_Pool\<close> (\<open>pool.rs\<close>) has the operation bodies, \<open>Pool_Invariant\<close> the agreement of
    the leases with their three indexes, \<open>Pool_Refinement\<close> an abstract pool without indexes that the
    bodies implement, \<open>Pool_Loops\<close> the operations over many devices, \<open>Device_Gates\<close> the
    interleaving of operations that wait for a device's gate (\<open>pool_step\<close>), \<open>Pool_Properties\<close> what
    clients get: a guard pins its device against removal, a stale token never writes.

  \<^item> Registry. \<open>Driver_Registry\<close> (\<open>registry.rs\<close>) and \<open>Registry_Properties\<close>: routes and pool stay
    consistent under concurrent registration, removal, access and probing (\<open>registry_step\<close>).

  \<^item> Evidence. \<open>Evidence\<close> (\<open>evidence.rs\<close> of \<open>crates/core\<close>: digests, references, the writer and its receipts) and
    \<open>Evidence_Contract\<close>, what the writer needs of a store. \<open>Evidence_Io\<close> has the fallible
    operations and their triples, \<open>Evidence_Fs\<close> and \<open>Evidence_Store_Ops\<close> the filesystem store
    (\<open>crates/evidence-fs/src/lib.rs\<close>). \<open>Evidence_Fs_Access\<close>, \<open>Evidence_Fs_Invariant\<close>,
    \<open>Evidence_Fs_Effects\<close>, \<open>Evidence_Fs_Keeps\<close> and \<open>Evidence_Fs_Methods\<close> carry the invariant
    \<open>store_inv_fs\<close> through every access that may fail; \<open>Evidence_Fs_Properties\<close> concludes
    that the disk is well-formed after any history of calls and that acknowledged evidence can be read back.

  \<^item> Runtime. \<open>Error_Info\<close> (the errors as they reach the wire), \<open>Runtime\<close> (\<open>DeviceRuntime\<close> of \<open>lib.rs\<close>, \<open>observe\<close> and
    \<open>execute\<close>), \<open>Runtime_Store\<close> (the interface \<open>session_event_store\<close> the runtime relies on) and
    \<open>Runtime_Properties\<close> (its interpretation on the memory store; starts and outcomes are
    recorded in pairs, omitted screenshots leave no evidence, leases are returned, Driver text
    is never recorded).

  \<^item> Media. \<open>Media_Writer\<close> (\<open>media.rs\<close>), \<open>Media_Properties\<close> and \<open>Media_Recovery\<close>: over a store
    whose requests and answers may get lost, each frame is recorded once and in order, and closing can be retried.

  \<^item> Bundles. \<open>Bundle_Model\<close> and \<open>Bundle_Validation\<close> (\<open>model.rs\<close>, \<open>canonical.rs\<close>,
    \<open>event_validation.rs\<close> of \<open>crates/session-bundle\<close>), \<open>Bundle_Properties\<close> and
    \<open>Bundle_References\<close>: an ended log of the event store passes the structural checks, what
    passes is legal, and the asset index is exactly what the events refer to.

  \<^item> \<open>Node_Leases\<close> (\<open>crates/distributed-router/src/lease.rs\<close> and the leases of \<open>model.rs\<close>): an ended lease
    stays fenced; the ledger recognises repeated calls within its window.

  \<^item> \<open>Manual_Recording\<close> (\<open>crates/manual-recording/src/lib.rs\<close>, \<open>manual.rs\<close> of \<open>crates/protocol\<close>): a
    recording compiles to exactly its recorded Action calls.

  This theory holds the property that spans the runtime, the writer and the filesystem store.

  \<^bold>\<open>Interfaces.\<close> \<open>keyed_map\<close> is met by the hash and tree maps, \<open>session_event_store\<close> by the memory
  event store, \<open>evidence_contract\<close> by the filesystem Evidence Store at every point of a history.

  \<^bold>\<open>Bounds and fuel.\<close> Only the client loop that reads a log page by page (\<open>export_all\<close>) has fuel:
  one more than the events left to read is enough, since a page that is not empty makes progress, and this is
  proved. The loops of the code with a bound have it: three attempts to release an observation
  lease, the stack of the JSON walk (its termination measure is the size of what is on it), timer
  slices of a deadline wait (its measure is the time left). The loop that draws an unused lease id
  takes the list of ids drawn, and an exhausted list is the value \<open>None\<close>. \<open>u64\<close> sequences and counters keep
  their limits.

  \<^bold>\<open>Assumptions of the model.\<close> An operation that holds its lock from its last check to its last write is one step. The
  calls of one Evidence Store are one step each, except that the publishing half of a \<open>put\<close> may
  come long after its staging. A process that dies is an access that fails followed by a reopened
  store; power loss that reorders writes the store has synced is not covered. During one operation a Driver's calls on its
  writer are not interleaved with other calls of the Evidence Store.

  \<^bold>\<open>Not modelled.\<close> The Drivers (\<open>android-adb\<close>, \<open>harmony-hdc\<close>, \<open>ios-webdriver\<close>, \<open>desktop-driver\<close>, browser, RDP, plugin
  and mock), because they run external tools and devices; the theorems about the runtime hold for
  every Driver. The daemon, the Rust client, the WebSocket transport, remote authentication and the network part of the
  distributed router, because they move messages over sockets, TLS and processes. Bundle
  directories, the bundle command line and the visualizer, because they read, write and render files around the
  modelled checks. serde attributes, JSON Schema generation and message types without behaviour.
  In the filesystem store: the checks against symbolic links, foreign names and permissions, and temporary files. The
  conformance suite, which is a test, and the helpers that move work between threads. The TypeScript and
  Python packages under \<open>src/packages\<close>, which are clients and viewers in other languages.
\<close>

section \<open>Evidence across the runtime and the store\<close>

text \<open>A Driver that stores one screenshot through its writer and returns it in its observation.\<close>

definition captured_observation :: observation where
  "captured_observation = example_observation\<lparr>ob_screenshot := Some (stored_asset_ref sample_stored)\<rparr>"

definition capturing_reply :: "(input_read list, observation) driver_reply" where
  "capturing_reply = \<lparr>dr_before = Runtime_Properties.example_reading, dr_calls = [CallPut ''image/png'' [ReadBytes ''abc'']],
     dr_outcome = FutureReady (Inr captured_observation), dr_after = Runtime_Properties.example_reading\<rparr>"

lemma sample_opened_history:
  "eh_store (evidence_history sample_sha file_evidence_store_config_default [([], DoNew 0 file_evidence_store_config_default)])
     = sample_opened"
  "eh_released (evidence_history sample_sha file_evidence_store_config_default [([], DoNew 0 file_evidence_store_config_default)])
     = []"
proof -
  have "(empty_disk c)\<lparr>ff_faults := []\<rparr> = empty_disk c" for c by (simp add: empty_disk_def)
  then show
    "eh_store (evidence_history sample_sha file_evidence_store_config_default [([], DoNew 0 file_evidence_store_config_default)])
       = sample_opened"
    "eh_released (evidence_history sample_sha file_evidence_store_config_default [([], DoNew 0 file_evidence_store_config_default)])
       = []"
    by (simp_all add: evidence_history_def sample_new)
qed

lemma capturing_run:
  "\<exists>st'. observation_operation \<lparr>eo_put = file_put sample_sha 2, eo_attach = file_attach sample_sha 2\<rparr> example_runtime
     (operation_context_new 7 None) capturing_reply sample_opened = (Inr captured_observation, st')"
proof -
  obtain st' where "file_put sample_sha 2 \<lparr>pe_session_id = 7, pe_media_type = ''image/png'', pe_expected_sha256 = None,
      pe_declared_size_bytes = None\<rparr> [ReadBytes ''abc''] sample_opened = (Inr sample_stored, st')"
    using sample_put [OF refl] by (metis prod.collapse)
  then show ?thesis
    by (simp add: observation_operation_def runtime_eval runtime_example_defs capturing_reply_def context_put_def
        context_attach_def validate_observation_evidence_def validate_observation_omission_def writer_put_def
        put_evidence_new_def sample_media evidence_writer_new_def writer_record_def
        omission_for_policy_def expected_ui_omission_def captured_observation_def example_observation_def receipts_match_iff
        observation_asset_refs_def ui_snapshot_state_is_valid_def Let_def)
qed

text \<open>
  C4. Recorded evidence can be read back: let the runtime, with strict receipts and capturing
  screenshots, run an observation or a Standard Action over the filesystem Evidence Store, in any
  state calls and failing accesses can have brought the store to. When it succeeds, every reference
  in its result, at any later point before a release of its Session is requested, opens to bytes of the
  digest it names, and \<open>verify_session_reference\<close> confirms it for the Session; this holds whatever
  the Driver did on its writer, whichever accesses failed during the operation, and whatever calls
  follow, the collector and reopened stores included.
\<close>

theorem recorded_evidence_retrievable:
  assumes "rt_strict_evidence_receipts rt"
    and "effective_screenshot_policy (rt_screenshot_policy rt) context = Capture"
    and "ev = \<lparr>eo_put = file_put sha now, eo_attach = file_attach sha now\<rparr>"
    and "h = evidence_history sha config calls"
    and "(\<exists>o1. observation_operation ev rt context reply ((eh_store h)\<lparr>ff_faults := faults\<rparr>) = (Inr o1, st')
              \<and> asset \<in> set (observation_asset_refs o1))
       \<or> (\<exists>r. action_operation ev rt uuid_str context call (Some Standard) t action_reply
                ((eh_store h)\<lparr>ff_faults := faults\<rparr>) = (Inr r, st')
              \<and> asset \<in> set (action_result_asset_refs r))"
    and "h' = evidence_calls sha later (h\<lparr>eh_store := st'\<rparr>)"
    and "oc_session_id context \<notin> set (eh_released h')"
    and "st = (eh_store h')\<lparr>ff_faults := []\<rparr>"
  shows "\<exists>data digest metadata.
     ar_sha256 asset = Some digest \<and>
     open_asset sha asset st = (Inr data, st) \<and> digest_from_hash sha data = Inr digest \<and>
     verify_session_reference sha (oc_session_id context) asset st = (Inr metadata, st) \<and> em_digest metadata = digest"
proof -
  let ?st = "(eh_store h)\<lparr>ff_faults := faults\<rparr>" and ?w = "evidence_writer_new (oc_session_id context)"
  obtain cs issued w where run: "Evidence.writer_run (file_put sha now) (file_attach sha now) cs ?w ?st = (issued, w, st')"
    and asset: "asset \<in> stored_asset_ref ` set issued"
  proof -
    obtain i1 w1 e1 i2 w2 e2 where runs:
      "Evidence.writer_run (file_put sha now) (file_attach sha now) (dr_calls reply) ?w ?st = (i1, w1, e1)"
      "Evidence.writer_run (file_put sha now) (file_attach sha now) (dr_calls action_reply) ?w ?st = (i2, w2, e2)"
      by (metis prod_cases3)
    from observation_operation_strict [OF assms(1,2), of ev reply ?st]
      action_operation_strict [OF assms(1,2), of ev action_reply ?st _ _ _ uuid_str call t] assms(5)
    show thesis using that runs by (auto simp: assms(3))
  qed
  then obtain stored where "stored \<in> set issued" "asset = stored_asset_ref stored" by blast
  with writer_evidence_retrievable [OF _ run _ assms(6-8)] history_invariant [of sha config calls] assms(4)
  show ?thesis by (simp add: stored_asset_ref_def Let_def)
qed

theorem recorded_evidence_retrievable_witness:
  "\<exists>st' data metadata.
     observation_operation \<lparr>eo_put = file_put sample_sha 2, eo_attach = file_attach sample_sha 2\<rparr> example_runtime
       (operation_context_new 7 None) capturing_reply sample_opened = (Inr captured_observation, st') \<and>
     fst (open_asset sample_sha (stored_asset_ref sample_stored) (st'\<lparr>ff_faults := []\<rparr>)) = Inr data \<and>
     fst (verify_session_reference sample_sha 7 (stored_asset_ref sample_stored) (st'\<lparr>ff_faults := []\<rparr>)) = Inr metadata"
proof -
  obtain st' where run: "observation_operation \<lparr>eo_put = file_put sample_sha 2, eo_attach = file_attach sample_sha 2\<rparr>
      example_runtime (operation_context_new 7 None) capturing_reply sample_opened = (Inr captured_observation, st')"
    using capturing_run by blast
  have strict: "rt_strict_evidence_receipts example_runtime"
    "effective_screenshot_policy (rt_screenshot_policy example_runtime) (operation_context_new 7 None) = Capture"
    by (simp_all add: example_runtime_def device_runtime_with_evidence_def effective_screenshot_policy_def operation_context_new_def)
  have "sample_opened\<lparr>ff_faults := []\<rparr> = sample_opened" by (simp add: sample_opened_def empty_disk_def)
  moreover have "stored_asset_ref sample_stored \<in> set (observation_asset_refs captured_observation)"
    by (simp add: captured_observation_def observation_asset_refs_def example_observation_def)
  ultimately show ?thesis
    using recorded_evidence_retrievable [where sha = sample_sha and now = 2 and config = file_evidence_store_config_default
        and calls = "[([], DoNew 0 file_evidence_store_config_default)]" and reply = capturing_reply and faults = "[]"
        and st' = st' and asset = "stored_asset_ref sample_stored" and later = "[]",
        OF strict refl refl disjI1 refl _ refl] run
    by (auto simp: sample_opened_history)
qed

end
